(* ===== verification/Prelude.thy ===== *)
theory Prelude
  imports Main "HOL-Library.Char_ord" "HOL-Library.List_Lexorder" "HOL-Library.Word"
    "HOL-Library.Sublist"
begin

text \<open>
  Shared vocabulary of the development: Rust's \<open>Result\<close> with the display text of an
  \<open>anyhow\<close> error, operations that thread a state and may fail, the parts of Rust's
  \<open>str\<close> API the daemon uses (on UTF-8 bytes), saturating arithmetic on machine words,
  and ordered maps (\<open>BTreeMap\<close>) with their interface as a locale.
\<close>

named_theorems result_simps \<open>unfolding of the error monads\<close>

section \<open>Fallible computations\<close>

text \<open>
  \<open>anyhow::Result<T>\<close>: \<open>Inl e\<close> is \<open>Err\<close> with the text \<open>e\<close> that \<open>err.to_string()\<close>
  shows, \<open>Inr x\<close> is \<open>Ok(x)\<close>.
\<close>

type_synonym 'a result = "string + 'a"

definition rbind :: "'a result \<Rightarrow> ('a \<Rightarrow> 'b result) \<Rightarrow> 'b result" where
  "rbind r f = (case r of Inl e \<Rightarrow> Inl e | Inr x \<Rightarrow> f x)"

definition ok_or :: "string \<Rightarrow> 'a option \<Rightarrow> 'a result" where
  "ok_or e x = (case x of None \<Rightarrow> Inl e | Some y \<Rightarrow> Inr y)"

definition bail_if :: "bool \<Rightarrow> string \<Rightarrow> unit result" where
  "bail_if b e = (if b then Inl e else Inr ())"

fun is_ok :: "'a result \<Rightarrow> bool" where
  "is_ok (Inl e) = False"
| "is_ok (Inr x) = True"

lemma rbind_simps [simp, result_simps]:
  "rbind (Inl e) f = Inl e"
  "rbind (Inr x) f = f x"
  by (simp_all add: rbind_def)

lemma rbind_Inr_iff: "rbind r f = Inr y \<longleftrightarrow> (\<exists>x. r = Inr x \<and> f x = Inr y)"
  by (cases r) simp_all

lemma rbind_Inl_iff: "rbind r f = Inl e \<longleftrightarrow> r = Inl e \<or> (\<exists>x. r = Inr x \<and> f x = Inl e)"
  by (cases r) simp_all

lemma ok_or_simps [simp, result_simps]:
  "ok_or e None = Inl e"
  "ok_or e (Some y) = Inr y"
  by (simp_all add: ok_or_def)

lemma ok_or_Inr_iff: "ok_or e x = Inr y \<longleftrightarrow> x = Some y"
  by (cases x) simp_all

lemma bail_if_simps [simp, result_simps]:
  "bail_if True e = Inl e"
  "bail_if False e = Inr ()"
  by (simp_all add: bail_if_def)

lemma bail_if_Inr_iff: "bail_if b e = Inr u \<longleftrightarrow> \<not> b"
  by (cases b) simp_all

lemma is_ok_iff: "is_ok r \<longleftrightarrow> (\<exists>x. r = Inr x)"
  by (cases r) simp_all

lemmas result_iffs = rbind_Inr_iff rbind_Inl_iff ok_or_Inr_iff bail_if_Inr_iff

text \<open>The \<open>?\<close> inside a loop over a slice: stop at the first error.\<close>

fun try_map :: "('a \<Rightarrow> 'b result) \<Rightarrow> 'a list \<Rightarrow> 'b list result" where
  "try_map f [] = Inr []"
| "try_map f (x # xs) =
     (case f x of Inl e \<Rightarrow> Inl e
      | Inr y \<Rightarrow> (case try_map f xs of Inl e \<Rightarrow> Inl e | Inr ys \<Rightarrow> Inr (y # ys)))"

lemma try_map_Inr_iff: "try_map f xs = Inr ys \<longleftrightarrow> list_all2 (\<lambda>x y. f x = Inr y) xs ys"
proof (induction xs arbitrary: ys)
  case Nil
  then show ?case by auto
next
  case (Cons x xs)
  have "try_map f (x # xs) = Inr ys \<longleftrightarrow>
      (\<exists>y zs. f x = Inr y \<and> try_map f xs = Inr zs \<and> ys = y # zs)"
    by (auto split: sum.splits)
  then show ?case by (auto simp: Cons.IH list_all2_Cons1)
qed

lemma find_SomeD: "find P xs = Some x \<Longrightarrow> x \<in> set xs \<and> P x"
  by (induction xs) (auto split: if_splits)

section \<open>Stateful fallible operations\<close>

text \<open>
  An operation on a state that may fail midway: the state changes made before the failure
  remain, as they do when each statement commits on its own.
\<close>

type_synonym ('s, 'a) op = "'s \<Rightarrow> 'a result \<times> 's"

definition ret :: "'a \<Rightarrow> ('s, 'a) op" where
  "ret x s = (Inr x, s)"

definition fail :: "string \<Rightarrow> ('s, 'a) op" where
  "fail e s = (Inl e, s)"

definition lift :: "'a result \<Rightarrow> ('s, 'a) op" where
  "lift r s = (r, s)"

definition andthen :: "('s, 'a) op \<Rightarrow> ('a \<Rightarrow> ('s, 'b) op) \<Rightarrow> ('s, 'b) op" where
  "andthen m f s = (case m s of (Inl e, s') \<Rightarrow> (Inl e, s') | (Inr x, s') \<Rightarrow> f x s')"

definition update :: "('s \<Rightarrow> 's) \<Rightarrow> ('s, unit) op" where
  "update f s = (Inr (), f s)"

definition query :: "('s \<Rightarrow> 'a) \<Rightarrow> ('s, 'a) op" where
  "query f s = (Inr (f s), s)"

fun for_each :: "('a \<Rightarrow> ('s, unit) op) \<Rightarrow> 'a list \<Rightarrow> ('s, unit) op" where
  "for_each f [] = ret ()"
| "for_each f (x # xs) = andthen (f x) (\<lambda>_. for_each f xs)"

lemmas op_defs [result_simps] = ret_def fail_def lift_def update_def query_def

lemma andthen_ok [result_simps]: "m s = (Inr x, s') \<Longrightarrow> andthen m f s = f x s'"
  by (simp add: andthen_def)

lemma andthen_err [result_simps]: "m s = (Inl e, s') \<Longrightarrow> andthen m f s = (Inl e, s')"
  by (simp add: andthen_def)

lemma andthen_Inr_iff:
  "andthen m f s = (Inr y, t) \<longleftrightarrow> (\<exists>x s'. m s = (Inr x, s') \<and> f x s' = (Inr y, t))"
  by (auto simp: andthen_def split: prod.splits sum.splits)

text \<open>What every step of an operation keeps, the whole operation keeps, failing or not.\<close>

definition keeps :: "('s \<Rightarrow> bool) \<Rightarrow> ('s, 'a) op \<Rightarrow> bool" where
  "keeps P m \<longleftrightarrow> (\<forall>s. P s \<longrightarrow> P (snd (m s)))"

lemma keepsI: "(\<And>s. P s \<Longrightarrow> P (snd (m s))) \<Longrightarrow> keeps P m"
  by (simp add: keeps_def)

lemma keepsD: "keeps P m \<Longrightarrow> P s \<Longrightarrow> P (snd (m s))"
  by (simp add: keeps_def)

lemma keeps_basic [intro]:
  "keeps P (ret x)"
  "keeps P (fail e)"
  "keeps P (lift r)"
  "keeps P (query g)"
  by (simp_all add: keeps_def op_defs)

lemma keeps_andthen [intro]: "keeps P m \<Longrightarrow> (\<And>x. keeps P (f x)) \<Longrightarrow> keeps P (andthen m f)"
  by (fastforce simp: keeps_def andthen_def split: prod.splits sum.splits)

lemma keeps_for_each [intro]: "(\<And>x. x \<in> set xs \<Longrightarrow> keeps P (f x)) \<Longrightarrow> keeps P (for_each f xs)"
  by (induction xs) (auto simp: keeps_basic)


section \<open>Strings\<close>

text \<open>
  A Rust \<open>String\<close> is its UTF-8 byte sequence, a \<open>char list\<close>: equality and order of
  \<open>str\<close> are those of the bytes, which \<open>Char_ord\<close> and \<open>List_Lexorder\<close> give.

  \<open>str::trim\<close> removes leading and trailing characters with the Unicode property
  \<open>White_Space\<close>. These are the six one-byte characters U+0009..U+000D and U+0020 and the
  multi-byte characters below, listed by their UTF-8 encodings. UTF-8 is self-synchronising,
  so matching their encodings at either end of a valid string matches the characters.
\<close>

definition white_space :: "string list" where
  "white_space =
     [[CHR 0x09], [CHR 0x0A], [CHR 0x0B], [CHR 0x0C], [CHR 0x0D], [CHR 0x20],
      [CHR 0xC2, CHR 0x85], [CHR 0xC2, CHR 0xA0], [CHR 0xE1, CHR 0x9A, CHR 0x80],
      [CHR 0xE2, CHR 0x80, CHR 0x80], [CHR 0xE2, CHR 0x80, CHR 0x81],
      [CHR 0xE2, CHR 0x80, CHR 0x82], [CHR 0xE2, CHR 0x80, CHR 0x83],
      [CHR 0xE2, CHR 0x80, CHR 0x84], [CHR 0xE2, CHR 0x80, CHR 0x85],
      [CHR 0xE2, CHR 0x80, CHR 0x86], [CHR 0xE2, CHR 0x80, CHR 0x87],
      [CHR 0xE2, CHR 0x80, CHR 0x88], [CHR 0xE2, CHR 0x80, CHR 0x89],
      [CHR 0xE2, CHR 0x80, CHR 0x8A], [CHR 0xE2, CHR 0x80, CHR 0xA8],
      [CHR 0xE2, CHR 0x80, CHR 0xA9], [CHR 0xE2, CHR 0x80, CHR 0xAF],
      [CHR 0xE2, CHR 0x81, CHR 0x9F], [CHR 0xE3, CHR 0x80, CHR 0x80]]"

fun strip_first :: "string list \<Rightarrow> string \<Rightarrow> string option" where
  "strip_first [] s = None"
| "strip_first (w # ws) s =
     (if w \<noteq> [] \<and> prefix w s then Some (drop (length w) s) else strip_first ws s)"

lemma strip_first_Some:
  "strip_first ws s = Some t \<Longrightarrow> \<exists>w\<in>set ws. w \<noteq> [] \<and> s = w @ t"
  by (induction ws) (auto simp: prefix_def split: if_splits)

lemma strip_first_None_iff:
  "strip_first ws s = None \<longleftrightarrow> (\<forall>w\<in>set ws. w \<noteq> [] \<longrightarrow> \<not> prefix w s)"
  by (induction ws) auto

lemma strip_first_shorter: "strip_first ws s = Some t \<Longrightarrow> length t < length s"
  by (auto dest!: strip_first_Some)

function strip_all :: "string list \<Rightarrow> string \<Rightarrow> string" where
  "strip_all ws s = (case strip_first ws s of None \<Rightarrow> s | Some t \<Rightarrow> strip_all ws t)"
  by pat_completeness auto
termination
  by (relation "measure (\<lambda>(ws, s). length s)") (auto dest: strip_first_shorter)

declare strip_all.simps [simp del]

definition trim_start :: "string \<Rightarrow> string" where
  "trim_start s = strip_all white_space s"

definition trim_end :: "string \<Rightarrow> string" where
  "trim_end s = rev (strip_all (map rev white_space) (rev s))"

definition trim :: "string \<Rightarrow> string" where
  "trim s = trim_end (trim_start s)"

lemma strip_all_stops: "strip_first ws (strip_all ws s) = None"
proof (induction ws s rule: strip_all.induct)
  case (1 ws s)
  then show ?case
    by (subst strip_all.simps) (auto split: option.splits)
qed

lemma strip_all_suffix: "suffix (strip_all ws s) s"
proof (induction ws s rule: strip_all.induct)
  case (1 ws s)
  show ?case
  proof (cases "strip_first ws s")
    case None
    then show ?thesis by (subst strip_all.simps) simp
  next
    case (Some t)
    then have "suffix t s" by (auto dest!: strip_first_Some simp: suffix_def)
    moreover have "suffix (strip_all ws t) t" using "1.IH" [OF Some] .
    ultimately show ?thesis
      using Some by (subst strip_all.simps) (auto intro: suffix_order.trans)
  qed
qed

lemma strip_all_id: "strip_first ws s = None \<Longrightarrow> strip_all ws s = s"
  by (subst strip_all.simps) simp

lemma strip_first_prefix_None: "strip_first ws s = None \<Longrightarrow> prefix p s \<Longrightarrow> strip_first ws p = None"
  by (auto simp: strip_first_None_iff dest: prefix_order.trans)

lemma trim_end_prefix: "prefix (trim_end s) s"
  using strip_all_suffix [of "map rev white_space" "rev s"]
  by (simp add: trim_end_def suffix_to_prefix)

lemma trim_end_idem: "trim_end (trim_end s) = trim_end s"
  by (simp add: trim_end_def strip_all_id strip_all_stops)

lemma trim_idem [simp]: "trim (trim s) = trim s"
proof -
  have "strip_first white_space (trim_start s) = None"
    by (simp add: trim_start_def strip_all_stops)
  then have "strip_first white_space (trim s) = None"
    using strip_first_prefix_None trim_end_prefix unfolding trim_def by blast
  then have "trim_start (trim s) = trim s"
    by (simp add: trim_start_def strip_all_id)
  then show ?thesis
    by (simp add: trim_def trim_end_idem)
qed

lemma trim_Nil [simp]: "trim [] = []"
proof -
  have "strip_first ws [] = None" for ws
    by (simp add: strip_first_None_iff)
  then show ?thesis
    by (simp add: trim_def trim_start_def trim_end_def strip_all_id)
qed

text \<open>\<open>Option::map(str::trim).filter(|s| !s.is_empty())\<close>, a pattern of the configuration code.\<close>

definition trim_nonempty :: "string option \<Rightarrow> string option" where
  "trim_nonempty x =
     (case x of None \<Rightarrow> None | Some s \<Rightarrow> if trim s = [] then None else Some (trim s))"

lemma trim_nonempty_Some:
  "trim_nonempty x = Some t \<Longrightarrow> t \<noteq> [] \<and> trim t = t"
  by (auto simp: trim_nonempty_def split: option.splits if_splits)

definition ascii_lower :: "char \<Rightarrow> char" where
  "ascii_lower c = (let n = of_char c :: nat in if 65 \<le> n \<and> n \<le> 90 then char_of (n + 32) else c)"

definition to_ascii_lowercase :: "string \<Rightarrow> string" where
  "to_ascii_lowercase s = map ascii_lower s"

fun join :: "string \<Rightarrow> string list \<Rightarrow> string" where
  "join sep [] = []"
| "join sep [x] = x"
| "join sep (x # y # ys) = x @ sep @ join sep (y # ys)"

fun contains :: "string \<Rightarrow> string \<Rightarrow> bool" where
  "contains [] pat = (pat = [])"
| "contains (c # cs) pat = (prefix pat (c # cs) \<or> contains cs pat)"

lemma contains_iff: "contains s pat \<longleftrightarrow> sublist pat s"
proof (induction s)
  case Nil
  then show ?case by (simp add: sublist_def)
next
  case (Cons c cs)
  then show ?case by (simp add: sublist_Cons_right)
qed

text \<open>\<open>str::replace\<close>: non-overlapping occurrences of a non-empty pattern, left to right.\<close>

function replace_all :: "string \<Rightarrow> string \<Rightarrow> string \<Rightarrow> string" where
  "replace_all pat new [] = []"
| "replace_all pat new (c # cs) =
     (if pat \<noteq> [] \<and> prefix pat (c # cs)
      then new @ replace_all pat new (drop (length pat) (c # cs))
      else c # replace_all pat new cs)"
  by pat_completeness auto
termination
  by (relation "measure (\<lambda>(pat, new, s). length s)") (auto simp: prefix_def)

lemma replace_all_absent:
  assumes "pat \<noteq> []" and "\<not> contains s pat"
  shows "replace_all pat new s = s"
  using assms(2) by (induction s) simp_all

fun digit_string :: "nat \<Rightarrow> string" where
  "digit_string n =
     (if n < 10 then [''0123456789'' ! n]
      else digit_string (n div 10) @ [''0123456789'' ! (n mod 10)])"

declare digit_string.simps [simp del]

lemma digit_string_nonempty [simp]: "digit_string n \<noteq> []"
  by (subst digit_string.simps) simp

section \<open>Machine integers\<close>

type_synonym u16 = "16 word"
type_synonym u32 = "32 word"
type_synonym u64 = "64 word"

definition saturating_mul :: "'a::len word \<Rightarrow> 'a word \<Rightarrow> 'a word" where
  "saturating_mul a b = (if unat a * unat b < 2 ^ LENGTH('a) then a * b else - 1)"

definition saturating_add :: "'a::len word \<Rightarrow> 'a word \<Rightarrow> 'a word" where
  "saturating_add a b = (if unat a + unat b < 2 ^ LENGTH('a) then a + b else - 1)"

text \<open>Evaluated on integers, whose numerals are binary.\<close>

lemma saturating_uint [code]:
  "saturating_mul a b = (if uint a * uint b < 2 ^ LENGTH('a) then a * b else - 1)"
  "saturating_add a b = (if uint a + uint b < 2 ^ LENGTH('a) then a + b else - 1)"
  for a b :: "'a::len word"
proof -
  have "unat a * unat b < 2 ^ LENGTH('a) \<longleftrightarrow> int (unat a * unat b) < int (2 ^ LENGTH('a))"
    "unat a + unat b < 2 ^ LENGTH('a) \<longleftrightarrow> int (unat a + unat b) < int (2 ^ LENGTH('a))"
    by (simp_all only: of_nat_less_iff)
  then show "saturating_mul a b = (if uint a * uint b < 2 ^ LENGTH('a) then a * b else - 1)"
    "saturating_add a b = (if uint a + uint b < 2 ^ LENGTH('a) then a + b else - 1)"
    by (simp_all add: saturating_mul_def saturating_add_def)
qed

lemma unat_min: "unat (min a b) = min (unat a) (unat (b :: 'a::len word))"
  by (simp add: min_def word_le_nat_alt)

lemma unat_max_word: "unat (- 1 :: 'a::len word) = 2 ^ LENGTH('a) - 1"
  by (simp add: unat_eq_nat_uint uint_word_of_int_eq nat_diff_distrib' nat_power_eq take_bit_minus_one_eq_mask mask_eq_exp_minus_1 unsigned_minus_1_eq_mask)

lemma unat_le_max: "unat (w :: 'a::len word) \<le> 2 ^ LENGTH('a) - 1"
  using word_le_nat_alt [of w "- 1"] by (simp add: unat_max_word)

lemma unat_saturating_mul:
  "unat (saturating_mul a b :: 'a::len word) = min (unat a * unat b) (2 ^ LENGTH('a) - 1)"
proof (cases "unat a * unat b < 2 ^ LENGTH('a)")
  case True
  then show ?thesis by (simp add: saturating_mul_def unat_word_ariths)
next
  case False
  then have "2 ^ LENGTH('a) - 1 \<le> unat a * unat b" by simp
  with False show ?thesis by (simp add: saturating_mul_def unat_max_word)
qed

lemma unat_saturating_add:
  "unat (saturating_add a b :: 'a::len word) = min (unat a + unat b) (2 ^ LENGTH('a) - 1)"
  by (auto simp: saturating_add_def unat_max_word unat_word_ariths min_def)

section \<open>Ordered maps\<close>

text \<open>
  \<open>BTreeMap<K, V>\<close> as an association list in ascending key order, so that \<open>values()\<close> and
  \<open>into_values()\<close> enumerate by key.
\<close>

type_synonym ('k, 'v) omap = "('k \<times> 'v) list"

definition omap_get :: "('k, 'v) omap \<Rightarrow> 'k \<Rightarrow> 'v option" where
  "omap_get m = map_of m"

fun omap_insert :: "'k::linorder \<Rightarrow> 'v \<Rightarrow> ('k, 'v) omap \<Rightarrow> ('k, 'v) omap" where
  "omap_insert k v [] = [(k, v)]"
| "omap_insert k v ((a, b) # m) =
     (if k < a then (k, v) # (a, b) # m
      else if k = a then (k, v) # m
      else (a, b) # omap_insert k v m)"

definition omap_remove :: "'k \<Rightarrow> ('k, 'v) omap \<Rightarrow> ('k, 'v) omap" where
  "omap_remove k m = filter (\<lambda>(a, b). a \<noteq> k) m"

definition omap_ok :: "('k::linorder, 'v) omap \<Rightarrow> bool" where
  "omap_ok m \<longleftrightarrow> sorted_wrt (<) (map fst m)"

definition omap_values :: "('k, 'v) omap \<Rightarrow> 'v list" where
  "omap_values m = map snd m"

definition omap_insert_all :: "('k::linorder \<times> 'v) list \<Rightarrow> ('k, 'v) omap \<Rightarrow> ('k, 'v) omap" where
  "omap_insert_all kvs m = fold (\<lambda>(k, v). omap_insert k v) kvs m"

lemma keys_omap_insert: "fst ` set (omap_insert k v m) = insert k (fst ` set m)"
  by (induction k v m rule: omap_insert.induct) auto

lemma map_of_omap_insert: "map_of (omap_insert k v m) = (map_of m)(k \<mapsto> v)"
  by (induction m) (auto simp: fun_eq_iff)

lemma omap_ok_insert: "omap_ok m \<Longrightarrow> omap_ok (omap_insert k v m)"
  unfolding omap_ok_def
proof (induction m)
  case Nil
  then show ?case by simp
next
  case (Cons p m)
  obtain a b where p: "p = (a, b)" by (cases p)
  show ?case
    using Cons keys_omap_insert [of k v m] by (force simp: p)
qed

lemma omap_ok_remove: "omap_ok m \<Longrightarrow> omap_ok (omap_remove k m)"
  unfolding omap_ok_def omap_remove_def by (induction m) auto

lemma map_of_omap_remove: "map_of (omap_remove k m) = (map_of m)(k := None)"
  unfolding omap_remove_def by (induction m) (auto simp: fun_eq_iff)

text \<open>
  The interface clients of a map rely on: what \<open>get\<close> returns after each update, and that
  every update keeps the representation invariant. The client lemmas are about the two
  idioms of the daemon: inserting a sequence of entries, and updating an entry in place.
\<close>

locale map_interface =
  fixes get :: "'m \<Rightarrow> 'k \<Rightarrow> 'v option"
    and ins :: "'k \<Rightarrow> 'v \<Rightarrow> 'm \<Rightarrow> 'm"
    and rem :: "'k \<Rightarrow> 'm \<Rightarrow> 'm"
    and invar :: "'m \<Rightarrow> bool"
  assumes get_ins: "get (ins k v m) = (get m)(k \<mapsto> v)"
    and get_rem: "get (rem k m) = (get m)(k := None)"
    and invar_ins: "invar m \<Longrightarrow> invar (ins k v m)"
    and invar_rem: "invar m \<Longrightarrow> invar (rem k m)"
begin

lemma get_ins_same: "get (ins k v m) k = Some v"
  by (simp add: get_ins)

lemma get_ins_other: "j \<noteq> k \<Longrightarrow> get (ins k v m) j = get m j"
  by (simp add: get_ins)

lemma get_fold_ins: "get (fold (\<lambda>(k, v). ins k v) kvs m) = get m ++ map_of (rev kvs)"
proof (induction kvs arbitrary: m)
  case Nil
  then show ?case by simp
next
  case (Cons p kvs)
  then show ?case by (cases p) (simp add: get_ins map_add_upd_left fun_eq_iff map_add_def split: option.splits)
qed

lemma invar_fold_ins: "invar m \<Longrightarrow> invar (fold (\<lambda>(k, v). ins k v) kvs m)"
  by (induction kvs arbitrary: m) (auto simp: invar_ins)

end

interpretation omap: map_interface omap_get omap_insert omap_remove omap_ok
  by unfold_locales
    (simp_all add: omap_get_def map_of_omap_insert map_of_omap_remove omap_ok_insert omap_ok_remove)

lemma omap_get_insert_all: "omap_get (omap_insert_all kvs m) = omap_get m ++ map_of (rev kvs)"
  by (simp add: omap_insert_all_def omap.get_fold_ins)

lemma omap_ok_insert_all: "omap_ok m \<Longrightarrow> omap_ok (omap_insert_all kvs m)"
  by (simp add: omap_insert_all_def omap.invar_fold_ins)

lemma omap_get_Nil [simp]: "omap_get [] = Map.empty"
  by (simp add: omap_get_def fun_eq_iff)

lemma omap_ok_Nil [simp]: "omap_ok []"
  by (simp add: omap_ok_def)

lemma omap_ok_distinct: "omap_ok m \<Longrightarrow> distinct (map fst m)"
  by (simp add: omap_ok_def strict_sorted_iff)

lemma omap_get_in_set: "omap_ok m \<Longrightarrow> omap_get m k = Some v \<longleftrightarrow> (k, v) \<in> set m"
  by (simp add: omap_get_def omap_ok_distinct map_of_eq_Some_iff)

lemma omap_values_set: "omap_ok m \<Longrightarrow> v \<in> set (omap_values m) \<longleftrightarrow> (\<exists>k. omap_get m k = Some v)"
  by (force simp: omap_values_def omap_get_in_set)

end
