(* ===== verification/Rust_Float.thy ===== *)
theory Rust_Float
  imports Prelude Complex_Main
begin

text \<open>
  IEEE 754 binary floating point as Rust's \<open>f32\<close> and \<open>f64\<close> use it: exact rationals for the
  finite values, rounding to nearest with ties to even after every operation, overflow to an
  infinity, and NaN, which compares with nothing. All operations compute, so that concrete
  scores can be evaluated.

  The sign of zero is not represented. Nothing in the daemon depends on it: the only division
  is by a product of two norms, which are never negative.
\<close>

section \<open>Values and rounding\<close>

datatype flt =
    FNaN
  | FInf bool \<comment> \<open>the sign: \<open>True\<close> is negative\<close>
  | FFin rat

type_synonym f32 = flt
type_synonym f64 = flt

record fmt =
  precision :: nat
  min_exp :: int
  max_fin :: rat

definition F32 :: fmt where
  "F32 = \<lparr>precision = 24, min_exp = - 149, max_fin = (2 ^ 24 - 1) * 2 ^ 104\<rparr>"

definition F64 :: fmt where
  "F64 = \<lparr>precision = 53, min_exp = - 1074, max_fin = (2 ^ 53 - 1) * 2 ^ 971\<rparr>"

definition pow2 :: "int \<Rightarrow> rat" where
  "pow2 e = (if 0 \<le> e then 2 ^ nat e else 1 / 2 ^ nat (- e))"

function nbits :: "int \<Rightarrow> int" where
  "nbits n = (if n \<le> 0 then 0 else 1 + nbits (n div 2))"
  by pat_completeness auto
termination
  by (relation "measure nat") auto

declare nbits.simps [simp del]

text \<open>The binary exponent of a positive rational: the largest \<open>e\<close> with \<open>2 ^ e \<le> x\<close>.\<close>

definition ilog2 :: "rat \<Rightarrow> int" where
  "ilog2 x =
     (let (n, d) = quotient_of x; e = nbits n - nbits d in if pow2 e \<le> x then e else e - 1)"

definition round_even :: "rat \<Rightarrow> int" where
  "round_even x =
     (let f = \<lfloor>x\<rfloor>; r = x - of_int f
      in if r < 1 / 2 then f else if 1 / 2 < r then f + 1 else if even f then f else f + 1)"

definition fround :: "fmt \<Rightarrow> rat \<Rightarrow> flt" where
  "fround F x =
     (if x = 0 then FFin 0
      else let a = \<bar>x\<bar>;
               q = max (ilog2 a - (int (precision F) - 1)) (min_exp F);
               y = of_int (round_even (a / pow2 q)) * pow2 q
           in if max_fin F < y then FInf (x < 0) else FFin (if x < 0 then - y else y))"

section \<open>Operations\<close>

fun fneg_sign :: "flt \<Rightarrow> bool" where
  "fneg_sign FNaN = False"
| "fneg_sign (FInf s) = s"
| "fneg_sign (FFin q) = (q < 0)"

fun fadd :: "fmt \<Rightarrow> flt \<Rightarrow> flt \<Rightarrow> flt" where
  "fadd F FNaN y = FNaN"
| "fadd F x FNaN = FNaN"
| "fadd F (FInf s) (FInf t) = (if s = t then FInf s else FNaN)"
| "fadd F (FInf s) (FFin q) = FInf s"
| "fadd F (FFin p) (FInf t) = FInf t"
| "fadd F (FFin p) (FFin q) = fround F (p + q)"

fun fmul :: "fmt \<Rightarrow> flt \<Rightarrow> flt \<Rightarrow> flt" where
  "fmul F FNaN y = FNaN"
| "fmul F x FNaN = FNaN"
| "fmul F (FFin p) (FFin q) = fround F (p * q)"
| "fmul F x y =
     (if x = FFin 0 \<or> y = FFin 0 then FNaN else FInf (fneg_sign x \<noteq> fneg_sign y))"

fun fdiv :: "fmt \<Rightarrow> flt \<Rightarrow> flt \<Rightarrow> flt" where
  "fdiv F FNaN y = FNaN"
| "fdiv F x FNaN = FNaN"
| "fdiv F (FInf s) (FInf t) = FNaN"
| "fdiv F (FInf s) (FFin q) = FInf (s \<noteq> (q < 0))"
| "fdiv F (FFin p) (FInf t) = FFin 0"
| "fdiv F (FFin p) (FFin q) =
     (if q = 0 then if p = 0 then FNaN else FInf (p < 0) else fround F (p / q))"

text \<open>
  The correctly rounded square root: an integer square root of a scaled argument with three
  bits more than the format keeps, and a sticky bit for what was cut off.
\<close>

fun isqrt_bits :: "nat \<Rightarrow> int \<Rightarrow> int \<Rightarrow> int" where
  "isqrt_bits 0 r n = r"
| "isqrt_bits (Suc k) r n = (let c = r + 2 ^ k in isqrt_bits k (if c * c \<le> n then c else r) n)"

fun fsqrt :: "fmt \<Rightarrow> flt \<Rightarrow> flt" where
  "fsqrt F FNaN = FNaN"
| "fsqrt F (FInf s) = (if s then FNaN else FInf False)"
| "fsqrt F (FFin q) =
     (if q < 0 then FNaN
      else if q = 0 then FFin 0
      else let k = (2 * (int (precision F) + 3) - 1 - ilog2 q) div 2;
               y = q * pow2 (2 * k);
               s = isqrt_bits (precision F + 4) 0 \<lfloor>y\<rfloor>
           in fround F (of_int (2 * s + (if of_int (s * s) = y then 0 else 1)) * pow2 (- k - 1)))"

text \<open>\<open>iter().sum::<f32>()\<close>: the additions run from the left.\<close>

definition fsum :: "fmt \<Rightarrow> flt list \<Rightarrow> flt" where
  "fsum F xs = foldl (fadd F) (FFin 0) xs"

section \<open>Comparisons and conversions\<close>

fun fle :: "flt \<Rightarrow> flt \<Rightarrow> bool" where
  "fle FNaN y = False"
| "fle x FNaN = False"
| "fle (FInf s) (FInf t) = (s \<or> \<not> t)"
| "fle (FInf s) (FFin q) = s"
| "fle (FFin p) (FInf t) = (\<not> t)"
| "fle (FFin p) (FFin q) = (p \<le> q)"

abbreviation fge :: "flt \<Rightarrow> flt \<Rightarrow> bool" where
  "fge x y \<equiv> fle y x"

text \<open>\<open>f32::partial_cmp\<close>: \<open>None\<close> when a side is NaN.\<close>

datatype ordering = Less | Equal | Greater

definition partial_cmp :: "flt \<Rightarrow> flt \<Rightarrow> ordering option" where
  "partial_cmp x y =
     (if fle x y then Some (if fle y x then Equal else Less)
      else if fle y x then Some Greater else None)"

definition f32_of_f64 :: "f64 \<Rightarrow> f32" where
  "f32_of_f64 x = (case x of FFin q \<Rightarrow> fround F32 q | _ \<Rightarrow> x)"

text \<open>\<open>f64::round\<close> rounds halves away from zero; \<open>as i64\<close> truncates and saturates, NaN is 0.\<close>

definition round_away :: "rat \<Rightarrow> int" where
  "round_away q = (if 0 \<le> q then \<lfloor>q + 1 / 2\<rfloor> else - \<lfloor>- q + 1 / 2\<rfloor>)"

fun f64_round_as_i64 :: "f64 \<Rightarrow> int" where
  "f64_round_as_i64 FNaN = 0"
| "f64_round_as_i64 (FInf s) = (if s then - (2 ^ 63) else 2 ^ 63 - 1)"
| "f64_round_as_i64 (FFin q) = max (- (2 ^ 63)) (min (2 ^ 63 - 1) (round_away q))"

section \<open>Facts about comparison\<close>

lemma fle_NaN [simp]: "\<not> fle x FNaN" "\<not> fle FNaN x"
  by (cases x; simp)+

lemma fle_not_NaN: "fle x y \<Longrightarrow> x \<noteq> FNaN \<and> y \<noteq> FNaN"
  by (cases x; cases y) simp_all

lemma fle_refl: "x \<noteq> FNaN \<Longrightarrow> fle x x"
  by (cases x) simp_all

lemma fle_total: "x \<noteq> FNaN \<Longrightarrow> y \<noteq> FNaN \<Longrightarrow> fle x y \<or> fle y x"
  by (cases x; cases y) auto

lemma fle_trans: "fle x y \<Longrightarrow> fle y z \<Longrightarrow> fle x z"
  by (cases x; cases y; cases z) auto

lemma fle_antisym: "fle x y \<Longrightarrow> fle y x \<Longrightarrow> x = y"
  by (cases x; cases y) auto

lemma partial_cmp_None_iff: "partial_cmp x y = None \<longleftrightarrow> x = FNaN \<or> y = FNaN"
  using fle_total [of x y] by (auto simp: partial_cmp_def)

section \<open>Rounding\<close>

lemma pow2_powi: "pow2 e = 2 powi e"
  by (simp add: pow2_def power_int_def power_one_over)

lemma pow2_pos [simp]: "0 < pow2 e"
  by (simp add: pow2_def)

lemma pow2_add: "pow2 (a + b) = pow2 a * pow2 b"
  by (simp add: pow2_powi power_int_add)

lemma pow2_mono: "a \<le> b \<Longrightarrow> pow2 a \<le> pow2 b"
  by (simp add: pow2_powi power_int_increasing)

lemma pow2_less_cancel: "pow2 a < pow2 b \<Longrightarrow> a < b"
  using pow2_mono [of b a] by force

lemma nbits_nonneg: "0 \<le> nbits n"
  by (induction n rule: nbits.induct) (subst nbits.simps, simp)

lemma nbits_bounds:
  assumes "0 < n"
  shows "pow2 (nbits n - 1) \<le> of_int n" and "of_int n < pow2 (nbits n)"
proof -
  have "pow2 (nbits n - 1) \<le> of_int n \<and> of_int n < pow2 (nbits n)"
    using assms
  proof (induction n rule: nbits.induct)
    case (1 n)
    show ?case
    proof (cases "n = 1")
      case True
      have "nbits 1 = 1" by (subst nbits.simps) (subst nbits.simps, simp)
      with True show ?thesis by (simp add: pow2_def)
    next
      case False
      define m where "m = n div 2"
      with False 1 have m: "0 < m" "\<not> n \<le> 0" by simp_all
      have half: "pow2 (nbits m - 1) \<le> of_int m" "of_int m < pow2 (nbits m)"
        using 1 m by (simp_all add: m_def)
      have "2 * m \<le> n" "n \<le> 2 * m + 1" by (simp_all add: m_def)
      then have "of_int (2 * m) \<le> (of_int n :: rat)" "(of_int n :: rat) \<le> of_int (2 * m + 1)"
        by (simp_all only: of_int_le_iff)
      then have n: "2 * of_int m \<le> (of_int n :: rat)" "of_int n \<le> (2 * of_int m + 1 :: rat)" by simp_all
      have bits: "nbits n = 1 + nbits m" using m by (subst nbits.simps) (simp add: m_def)
      have up: "pow2 (1 + e) = 2 * pow2 e" for e using pow2_add [of 1 e] by (simp add: pow2_def [of 1])
      have "pow2 (nbits n - 1) = 2 * pow2 (nbits m - 1)" using up [of "nbits m - 1"] by (simp add: bits)
      moreover have "of_int m + 1 \<le> pow2 (nbits m)"
      proof -
        have "pow2 (nbits m) = of_int (2 ^ nat (nbits m))" using nbits_nonneg [of m] by (simp add: pow2_def)
        with half(2) have "m + 1 \<le> 2 ^ nat (nbits m)" by (simp only: of_int_less_iff)
        then have "(of_int (m + 1) :: rat) \<le> of_int (2 ^ nat (nbits m))" by (simp only: of_int_le_iff)
        with \<open>pow2 (nbits m) = _\<close> show ?thesis by simp
      qed
      ultimately show ?thesis using half(1) n up [of "nbits m"] by (simp add: bits)
    qed
  qed
  then show "pow2 (nbits n - 1) \<le> of_int n" and "of_int n < pow2 (nbits n)" by simp_all
qed

text \<open>The binary exponent is what it is meant to be.\<close>

lemma ilog2_bounds:
  assumes "0 < x"
  shows "pow2 (ilog2 x) \<le> x" and "x < pow2 (ilog2 x + 1)"
proof -
  obtain n d where q: "quotient_of x = (n, d)" by (cases "quotient_of x")
  then have x: "x = of_int n / of_int d" and d: "0 < d" by (auto simp: quotient_of_div quotient_of_denom_pos)
  with assms have n: "0 < n" by (simp add: zero_less_divide_iff)
  have low: "pow2 (nbits n - nbits d - 1) \<le> x"
  proof -
    have "pow2 (nbits n - nbits d - 1) * of_int d \<le> pow2 (nbits n - nbits d - 1) * pow2 (nbits d)"
      using nbits_bounds(2) [OF d] by (intro mult_left_mono) (simp_all add: less_imp_le)
    also have "\<dots> = pow2 (nbits n - 1)" by (simp flip: pow2_add)
    also have "\<dots> \<le> of_int n" by (rule nbits_bounds(1) [OF n])
    finally show ?thesis using d by (simp add: x pos_le_divide_eq)
  qed
  have high: "x < pow2 (nbits n - nbits d + 1)"
  proof -
    have "of_int n < pow2 (nbits n)" by (rule nbits_bounds(2) [OF n])
    also have "\<dots> = pow2 (nbits n - nbits d + 1) * pow2 (nbits d - 1)" by (simp flip: pow2_add)
    also have "\<dots> \<le> pow2 (nbits n - nbits d + 1) * of_int d"
      using nbits_bounds(1) [OF d] by (intro mult_left_mono) (simp_all add: less_imp_le)
    finally show ?thesis using d by (simp add: x pos_divide_less_eq)
  qed
  from low high show "pow2 (ilog2 x) \<le> x" and "x < pow2 (ilog2 x + 1)"
    by (auto simp: ilog2_def q Let_def)
qed

lemma round_even_ge: "of_int k \<le> x \<Longrightarrow> k \<le> round_even x"
proof -
  assume "of_int k \<le> x"
  then have "k \<le> \<lfloor>x\<rfloor>" by (simp add: le_floor_iff)
  then show ?thesis by (simp add: round_even_def Let_def)
qed

lemma fround_nonneg:
  assumes "0 \<le> x"
  shows "fround F x = FInf False \<or> (\<exists>y\<ge>0. fround F x = FFin y)"
proof -
  have "0 \<le> round_even (x / pow2 e)" for e using assms by (intro round_even_ge) (simp add: less_imp_le)
  then have "0 \<le> of_int (round_even (x / pow2 e)) * pow2 e" for e by (simp add: less_imp_le)
  with assms show ?thesis by (auto simp: fround_def Let_def)
qed

lemma fround_overflow:
  assumes "2 ^ 128 \<le> x"
  shows "fround F32 x = FInf False"
proof -
  have "0 < x" by (rule less_le_trans [OF _ assms]) simp
  note log = ilog2_bounds [OF this]
  have "pow2 128 < pow2 (ilog2 x + 1)" using assms log(2) by (simp add: pow2_def)
  then have e: "128 \<le> ilog2 x" using pow2_less_cancel by fastforce
  define q where "q = ilog2 x - 23"
  have split: "pow2 (ilog2 x) = 2 ^ 23 * pow2 q" using pow2_add [of 23 q] by (simp add: q_def pow2_def)
  have "of_int (2 ^ 23) \<le> x / pow2 q" using log(1) by (simp add: split pos_le_divide_eq)
  then have "2 ^ 23 \<le> round_even (x / pow2 q)" by (rule round_even_ge)
  then have "(2 ^ 23 :: rat) \<le> of_int (round_even (x / pow2 q))" by (metis of_int_le_iff of_int_numeral of_int_power)
  then have "2 ^ 23 * pow2 q \<le> of_int (round_even (x / pow2 q)) * pow2 q" by (intro mult_right_mono) (simp_all add: less_imp_le)
  moreover have "pow2 128 \<le> 2 ^ 23 * pow2 q" using pow2_mono [OF e] by (simp only: split)
  ultimately have "pow2 128 \<le> of_int (round_even (x / pow2 q)) * pow2 q" by (rule order_trans [rotated])
  moreover have "max_fin F32 < pow2 128" by (simp add: F32_def pow2_def)
  ultimately have "max_fin F32 < of_int (round_even (x / pow2 q)) * pow2 q" by simp
  with \<open>0 < x\<close> e show ?thesis by (simp add: fround_def Let_def q_def F32_def)
qed

text \<open>A sum of values that are not negative stays infinite, or NaN, once it is.\<close>

definition overflown :: "flt \<Rightarrow> bool" where
  "overflown x \<longleftrightarrow> x = FInf False \<or> x = FNaN"

fun nonneg :: "flt \<Rightarrow> bool" where
  "nonneg (FFin q) \<longleftrightarrow> 0 \<le> q"
| "nonneg x \<longleftrightarrow> overflown x"

lemma fmul_square_nonneg: "nonneg (fmul F x x)"
proof (cases x)
  case (FFin p)
  with fround_nonneg [of "p * p" F] show ?thesis by (auto simp: overflown_def)
qed (auto simp: overflown_def)

lemma fadd_nonneg:
  assumes "nonneg x" and "nonneg y"
  shows "nonneg (fadd F x y)"
proof (cases "\<exists>p q. x = FFin p \<and> y = FFin q")
  case True
  then obtain p q where "x = FFin p" "y = FFin q" by blast
  with assms fround_nonneg [of "p + q" F] show ?thesis by (auto simp: overflown_def)
next
  case False
  with assms show ?thesis by (cases x; cases y) (auto simp: overflown_def)
qed

lemma fadd_overflown: "nonneg x \<Longrightarrow> nonneg y \<Longrightarrow> overflown x \<or> overflown y \<Longrightarrow> overflown (fadd F x y)"
  by (cases x; cases y) (auto simp: overflown_def)

lemma foldl_fadd_overflown:
  assumes "nonneg x" and "\<forall>y\<in>set ys. nonneg y" and "overflown x \<or> (\<exists>y\<in>set ys. overflown y)"
  shows "overflown (foldl (fadd F) x ys)"
  using assms
proof (induction ys arbitrary: x)
  case (Cons y ys)
  show ?case using Cons.prems fadd_nonneg [of x y F] fadd_overflown [of x y F]
    by (auto intro!: Cons.IH)
qed simp

lemma fsum_overflown: "\<forall>y\<in>set ys. nonneg y \<Longrightarrow> \<exists>y\<in>set ys. overflown y \<Longrightarrow> overflown (fsum F ys)"
  by (simp add: fsum_def foldl_fadd_overflown)

lemma fsqrt_overflown: "overflown x \<Longrightarrow> overflown (fsqrt F x)"
  by (auto simp: overflown_def)

lemma fdiv_overflown:
  assumes "overflown x" and "y \<noteq> FFin 0"
  shows "fdiv F z (fmul F x y) \<in> {FFin 0, FNaN}"
  using assms by (cases y; cases z) (auto simp: overflown_def)

end
