(* ===== verification/Host_Env.thy ===== *)
theory Host_Env
  imports Rust_Float
begin

text \<open>
  What the daemon sees of its host: paths and a file tree, the JSON values that its wire
  formats are made of, and the atomic file replacement every persistent file goes through
  (\<open>write_json_atomic\<close> in \<^verbatim>\<open>src/src/runtime_store.rs\<close>).

  Parsing and printing of JSON text, and of RFC 3339 timestamps, are library code: they are
  arguments of the definitions that use them. A JSON value itself is the data type those
  functions work on.
\<close>

section \<open>Paths\<close>

fun split_on :: "char \<Rightarrow> string \<Rightarrow> string list" where
  "split_on d [] = [[]]"
| "split_on d (c # cs) =
     (if c = d then [] # split_on d cs
      else case split_on d cs of [] \<Rightarrow> [[c]] | w # ws \<Rightarrow> (c # w) # ws)"

lemma split_on_nonempty [simp]: "split_on d s \<noteq> []"
  by (induction s) (auto split: list.splits)

definition components :: "string \<Rightarrow> string list" where
  "components p = filter (\<lambda>s. s \<noteq> [] \<and> s \<noteq> ''.'') (split_on CHR ''/'' p)"

definition file_name :: "string \<Rightarrow> string option" where
  "file_name p =
     (case rev (components p) of [] \<Rightarrow> None | c # _ \<Rightarrow> if c = ''..'' then None else Some c)"

text \<open>A file name at its last dot, unless that dot is the first character.\<close>

definition stem_ext :: "string \<Rightarrow> string \<times> string option" where
  "stem_ext f =
     (let aft = takeWhile (\<lambda>c. c \<noteq> CHR ''.'') (rev f);
          bef = drop (Suc (length aft)) (rev f)
      in if length aft = length f \<or> bef = [] then (f, None) else (rev bef, Some (rev aft)))"

definition path_extension :: "string \<Rightarrow> string option" where
  "path_extension p = Option.bind (file_name p) (\<lambda>f. snd (stem_ext f))"

definition file_stem :: "string \<Rightarrow> string option" where
  "file_stem p = map_option (\<lambda>f. fst (stem_ext f)) (file_name p)"

text \<open>\<open>PathBuf::join\<close>: an absolute right-hand side replaces the left one.\<close>

definition path_join :: "string \<Rightarrow> string \<Rightarrow> string" where
  "path_join a b =
     (if prefix ''/'' b then b
      else if a = [] \<or> suffix ''/'' a then a @ b else a @ ''/'' @ b)"

text \<open>
  \<open>Path::parent\<close>, and the directories \<open>create_dir_all\<close> makes, textually: the path up to a
  separator. (Paths of the daemon carry no redundant \<open>.\<close> components.)
\<close>

definition path_parent :: "string \<Rightarrow> string option" where
  "path_parent p =
     (let r = dropWhile (\<lambda>c. c = CHR ''/'') (rev p);
          d = dropWhile (\<lambda>c. c \<noteq> CHR ''/'') r;
          e = dropWhile (\<lambda>c. c = CHR ''/'') d
      in if r = [] then None
         else Some (if e = [] then (if d = [] then [] else ''/'') else rev e))"

definition ancestor_paths :: "string \<Rightarrow> string list" where
  "ancestor_paths p =
     filter (\<lambda>q. q \<noteq> [] \<and> (q = p \<or> prefix (q @ ''/'') p)) (prefixes p)"

lemma path_parent_shorter: "path_parent p = Some q \<Longrightarrow> length q < length p"
proof -
  assume q: "path_parent p = Some q"
  define r where "r = dropWhile (\<lambda>c. c = CHR ''/'') (rev p)"
  define d where "d = dropWhile (\<lambda>c. c \<noteq> CHR ''/'') r"
  define e where "e = dropWhile (\<lambda>c. c = CHR ''/'') d"
  have "path_parent p =
      (if r = [] then None else Some (if e = [] then (if d = [] then [] else ''/'') else rev e))"
    unfolding path_parent_def Let_def r_def d_def e_def by (rule refl)
  with q have q': "r \<noteq> []" "q = (if e = [] then (if d = [] then [] else ''/'') else rev e)"
    by (simp_all split: if_split_asm)
  have "hd r \<noteq> CHR ''/''"
    using q'(1) hd_dropWhile [of "\<lambda>c. c = CHR ''/''" "rev p"] by (simp add: r_def)
  then have "length d < length r"
    using q'(1) length_dropWhile_le [of "\<lambda>c. c \<noteq> CHR ''/''" "tl r"]
    by (cases r) (auto simp: d_def less_Suc_eq_le)
  moreover have "length r \<le> length p"
    using length_dropWhile_le [of "\<lambda>c. c = CHR ''/''" "rev p"] by (simp add: r_def)
  moreover have "length e \<le> length d"
    by (simp add: e_def length_dropWhile_le)
  ultimately show ?thesis using q' by (cases d) (auto split: if_splits)
qed

lemma parent_not_descendant:
  "path_parent p = Some q \<Longrightarrow> p \<notin> set (ancestor_paths q)"
  using path_parent_shorter by (fastforce simp: ancestor_paths_def dest: prefix_length_le)

section \<open>The file tree\<close>

text \<open>
  A regular file holds the outcome of reading it as UTF-8 text, a directory the outcome of
  listing it (the paths of its entries).
\<close>

datatype node = RegularFile "string result" | Directory "string list result"

type_synonym fsys = "string \<Rightarrow> node option"

definition fs_exists :: "fsys \<Rightarrow> string \<Rightarrow> bool" where
  "fs_exists fs p \<longleftrightarrow> fs p \<noteq> None"

definition fs_is_file :: "fsys \<Rightarrow> string \<Rightarrow> bool" where
  "fs_is_file fs p = (case fs p of Some (RegularFile c) \<Rightarrow> True | _ \<Rightarrow> False)"

definition fs_is_dir :: "fsys \<Rightarrow> string \<Rightarrow> bool" where
  "fs_is_dir fs p = (case fs p of Some (Directory es) \<Rightarrow> True | _ \<Rightarrow> False)"

text \<open>\<open>fs::read_to_string\<close>, with the operating system's message when it fails.\<close>

definition fs_read :: "fsys \<Rightarrow> string \<Rightarrow> string result" where
  "fs_read fs p =
     (case fs p of
        Some (RegularFile c) \<Rightarrow> c
      | Some (Directory es) \<Rightarrow> Inl ''Is a directory (os error 21)''
      | None \<Rightarrow> Inl ''No such file or directory (os error 2)'')"

definition fs_read_dir :: "fsys \<Rightarrow> string \<Rightarrow> string list result" where
  "fs_read_dir fs p =
     (case fs p of
        Some (Directory es) \<Rightarrow> es
      | Some (RegularFile c) \<Rightarrow> Inl ''Not a directory (os error 20)''
      | None \<Rightarrow> Inl ''No such file or directory (os error 2)'')"

section \<open>JSON values\<close>

datatype json =
    JNull
  | JBool bool
  | JNum f64
  | JStr string
  | JArr "json list"
  | JObj "(string \<times> json) list"

definition json_get :: "string \<Rightarrow> json \<Rightarrow> json option" where
  "json_get k v = (case v of JObj kvs \<Rightarrow> map_of kvs k | _ \<Rightarrow> None)"

definition json_as_str :: "json \<Rightarrow> string option" where
  "json_as_str v = (case v of JStr s \<Rightarrow> Some s | _ \<Rightarrow> None)"

definition json_as_array :: "json \<Rightarrow> json list option" where
  "json_as_array v = (case v of JArr vs \<Rightarrow> Some vs | _ \<Rightarrow> None)"

definition json_as_f64 :: "json \<Rightarrow> f64 option" where
  "json_as_f64 v = (case v of JNum x \<Rightarrow> Some x | _ \<Rightarrow> None)"

definition json_str_at :: "string \<Rightarrow> json \<Rightarrow> string option" where
  "json_str_at k v = Option.bind (json_get k v) json_as_str"

section \<open>Replacing a file\<close>

text \<open>
  \<open>write_json_atomic\<close> as the sequence of system calls it makes, so that a crash between or
  inside two of them can be looked at. \<open>with_extension\<close> replaces the extension of the last
  component.
\<close>

datatype fs_call =
    CreateDirAll string
  | CreateFile string
  | WriteAll string string
  | SyncFile string
  | Rename string string
  | SyncDir string

definition with_extension :: "string \<Rightarrow> string \<Rightarrow> string" where
  "with_extension p ext =
     (case file_name p of
        None \<Rightarrow> p
      | Some f \<Rightarrow> take (length p - length f) p @ fst (stem_ext f) @ ''.'' @ ext)"

definition write_json_atomic :: "string \<Rightarrow> string \<Rightarrow> fs_call list" where
  "write_json_atomic path bytes =
     (let tmp = with_extension path ''tmp''
      in (case path_parent path of None \<Rightarrow> [] | Some d \<Rightarrow> [CreateDirAll d])
         @ [CreateFile tmp, WriteAll tmp bytes, SyncFile tmp, Rename tmp path]
         @ (case path_parent path of None \<Rightarrow> [] | Some d \<Rightarrow> [SyncDir d]))"

text \<open>The file tree as running processes see it; the two \<open>sync_all\<close> calls do not change that.\<close>

fun fs_exec :: "fs_call \<Rightarrow> fsys \<Rightarrow> fsys" where
  "fs_exec (CreateDirAll d) fs =
     (\<lambda>q. if fs q = None \<and> q \<in> set (ancestor_paths d) then Some (Directory (Inr [])) else fs q)"
| "fs_exec (CreateFile p) fs = fs(p \<mapsto> RegularFile (Inr []))"
| "fs_exec (WriteAll p bytes) fs = fs(p \<mapsto> RegularFile (Inr bytes))"
| "fs_exec (SyncFile p) fs = fs"
| "fs_exec (Rename p q) fs = (if p = q then fs else fs(q := fs p, p := None))"
| "fs_exec (SyncDir d) fs = fs"

definition fs_run :: "fs_call list \<Rightarrow> fsys \<Rightarrow> fsys" where
  "fs_run cs fs = fold fs_exec cs fs"

text \<open>
  The file trees a crash of the process can leave: some calls are done, and the next one may have been cut
  short, which for a write means that any prefix of the bytes has arrived.
\<close>

inductive crash_state :: "fs_call list \<Rightarrow> fsys \<Rightarrow> fsys \<Rightarrow> bool" where
  stop: "crash_state cs fs fs"
| torn: "prefix part bytes \<Longrightarrow>
     crash_state (WriteAll p bytes # cs) fs (fs_exec (WriteAll p part) fs)"
| step: "crash_state cs (fs_exec c fs) fs' \<Longrightarrow> crash_state (c # cs) fs fs'"

inductive_cases crash_NilE: "crash_state [] fs fs'"
inductive_cases crash_ConsE: "crash_state (c # cs) fs fs'"

lemma write_json_atomic_crash:
  assumes tmp: "with_extension path ''tmp'' \<noteq> path"
    and crash: "crash_state (write_json_atomic path bytes) fs fs'"
  shows "fs' path = fs path \<or> fs' path = Some (RegularFile (Inr bytes))"
proof (cases "path_parent path")
  case None
  then show ?thesis
    using crash tmp unfolding write_json_atomic_def Let_def
    by (auto elim!: crash_ConsE crash_NilE)
next
  case (Some d)
  then have "fs_exec (CreateDirAll d) fs path = fs path"
    using parent_not_descendant by simp
  with Some show ?thesis
    using crash tmp unfolding write_json_atomic_def Let_def
    by (auto elim!: crash_ConsE crash_NilE simp del: fs_exec.simps(1))
qed

text \<open>
  What a loss of power can leave is another matter: a file that was written and not synced may hold
  anything, and a directory that was not synced may show an entry as it was before. Beside what the
  processes see, a disk has for every path the nodes its present entry may turn out to hold
  (\<open>dk_data\<close>) and those of earlier entries that may come back (\<open>dk_old\<close>). \<open>sync_all\<close> on a file settles
  what its entry holds, \<open>sync_all\<close> on a directory which entries it has.
\<close>

record disk =
  dk_live :: fsys
  dk_data :: "string \<Rightarrow> node option set"
  dk_old :: "string \<Rightarrow> node option set"

definition any_file :: "node option set" where
  "any_file = {Some (RegularFile c) | c. True}"

fun disk_exec :: "fs_call \<Rightarrow> disk \<Rightarrow> disk" where
  "disk_exec (CreateDirAll d) D =
     (let new = (\<lambda>q. dk_live D q = None \<and> q \<in> set (ancestor_paths d))
      in D\<lparr>dk_live := fs_exec (CreateDirAll d) (dk_live D),
           dk_old := (\<lambda>q. if new q then dk_old D q \<union> dk_data D q else dk_old D q),
           dk_data := (\<lambda>q. if new q then {fs_exec (CreateDirAll d) (dk_live D) q} else dk_data D q)\<rparr>)"
| "disk_exec (CreateFile p) D =
     D\<lparr>dk_live := fs_exec (CreateFile p) (dk_live D),
       dk_old := (if dk_live D p = None then (dk_old D)(p := dk_old D p \<union> dk_data D p) else dk_old D),
       dk_data := (dk_data D)(p := any_file)\<rparr>"
| "disk_exec (WriteAll p bytes) D =
     D\<lparr>dk_live := fs_exec (WriteAll p bytes) (dk_live D), dk_data := (dk_data D)(p := any_file)\<rparr>"
| "disk_exec (SyncFile p) D = D\<lparr>dk_data := (dk_data D)(p := {dk_live D p})\<rparr>"
| "disk_exec (Rename p q) D =
     (if p = q then D
      else D\<lparr>dk_live := fs_exec (Rename p q) (dk_live D),
             dk_old := (dk_old D)(q := dk_old D q \<union> dk_data D q, p := dk_old D p \<union> dk_data D p),
             dk_data := (dk_data D)(q := dk_data D p, p := {None})\<rparr>)"
| "disk_exec (SyncDir d) D =
     D\<lparr>dk_old := (\<lambda>p. if path_parent p = Some d then {} else dk_old D p)\<rparr>"

definition survivors :: "disk \<Rightarrow> string \<Rightarrow> node option set" where
  "survivors D p = dk_data D p \<union> dk_old D p"

inductive power_loss :: "fs_call list \<Rightarrow> disk \<Rightarrow> fsys \<Rightarrow> bool" where
  lost: "(\<And>p. fs' p \<in> survivors D p) \<Longrightarrow> power_loss cs D fs'"
| go_on: "power_loss cs (disk_exec c D) fs' \<Longrightarrow> power_loss (c # cs) D fs'"

inductive_cases loss_NilE: "power_loss [] D fs'"
inductive_cases loss_ConsE: "power_loss (c # cs) D fs'"

text \<open>The path keeps what it had, or has the new text, which it has for certain once all calls are done.\<close>

lemma replace_power_loss:
  assumes "tmp \<noteq> path" and "cs \<in> {[], [SyncDir d]}"
    and "power_loss ([CreateFile tmp, WriteAll tmp bytes, SyncFile tmp, Rename tmp path] @ cs) D fs'"
  shows "fs' path \<in> survivors D path \<union> {Some (RegularFile (Inr bytes))}"
proof -
  have later: "fs' path \<in> survivors D' path" if "power_loss cs D' fs'" for D'
    using that assms(2) by (auto elim!: loss_ConsE loss_NilE simp: survivors_def split: if_splits)
  have renamed: "survivors (fold disk_exec [CreateFile tmp, WriteAll tmp bytes, SyncFile tmp, Rename tmp path] D) path
      = survivors D path \<union> {Some (RegularFile (Inr bytes))}"
    using assms(1) by (auto simp: survivors_def)
  have before: "survivors (fold disk_exec [CreateFile tmp, WriteAll tmp bytes, SyncFile tmp] D) path = survivors D path"
    "survivors (fold disk_exec [CreateFile tmp, WriteAll tmp bytes] D) path = survivors D path"
    "survivors (fold disk_exec [CreateFile tmp] D) path = survivors D path"
    using assms(1) by (auto simp: survivors_def)
  from assms(3) have "fs' path \<in> survivors D path
      \<or> fs' path \<in> survivors (fold disk_exec [CreateFile tmp] D) path
      \<or> fs' path \<in> survivors (fold disk_exec [CreateFile tmp, WriteAll tmp bytes] D) path
      \<or> fs' path \<in> survivors (fold disk_exec [CreateFile tmp, WriteAll tmp bytes, SyncFile tmp] D) path
      \<or> power_loss cs (fold disk_exec [CreateFile tmp, WriteAll tmp bytes, SyncFile tmp, Rename tmp path] D) fs'"
    by (auto elim!: loss_ConsE simp del: disk_exec.simps)
  with later renamed before show ?thesis by blast
qed

lemma write_json_atomic_power_loss:
  assumes tmp: "with_extension path ''tmp'' \<noteq> path"
    and loss: "power_loss (write_json_atomic path bytes) D fs'"
  shows "fs' path \<in> survivors D path \<union> {Some (RegularFile (Inr bytes))}"
proof (cases "path_parent path")
  case None
  with loss show ?thesis
    by (intro replace_power_loss [OF tmp, of "[]" _ bytes]) (simp_all add: write_json_atomic_def Let_def)
next
  case (Some d)
  let ?D = "disk_exec (CreateDirAll d) D"
  have same: "survivors ?D path = survivors D path"
    using parent_not_descendant [OF Some] by (simp add: survivors_def)
  from loss Some have "power_loss (CreateDirAll d # [CreateFile (with_extension path ''tmp''),
      WriteAll (with_extension path ''tmp'') bytes, SyncFile (with_extension path ''tmp''),
      Rename (with_extension path ''tmp'') path] @ [SyncDir d]) D fs'"
    by (simp add: write_json_atomic_def Let_def)
  then show ?thesis
  proof (cases rule: power_loss.cases)
    case go_on
    then have "fs' path \<in> survivors ?D path \<union> {Some (RegularFile (Inr bytes))}"
      by (intro replace_power_loss [OF tmp, of "[SyncDir d]" d bytes]) simp_all
    then show ?thesis by (simp only: same)
  qed simp
qed

lemma write_json_atomic_durable:
  assumes "with_extension path ''tmp'' \<noteq> path" and "path_parent path = Some d"
  shows "survivors (fold disk_exec (write_json_atomic path bytes) D) path = {Some (RegularFile (Inr bytes))}"
  using assms by (simp add: write_json_atomic_def Let_def survivors_def)

lemma write_json_atomic_done:
  assumes "with_extension path ''tmp'' \<noteq> path"
  shows "fs_run (write_json_atomic path bytes) fs path = Some (RegularFile (Inr bytes))"
  using assms by (simp add: fs_run_def write_json_atomic_def Let_def split: option.splits)

lemma write_json_atomic_frame:
  assumes "p \<noteq> path" and "p \<noteq> with_extension path ''tmp''" and "fs_is_file fs p"
  shows "fs_run (write_json_atomic path bytes) fs p = fs p"
  using assms
  by (auto simp: fs_run_def write_json_atomic_def Let_def fs_is_file_def split: option.splits)

end
