(* ===== verification/Receptor.thy ===== *)
theory Receptor
  imports Host_Env
begin

text \<open>
  Receptor definitions, packs and their validation, \<^verbatim>\<open>src/src/attention/receptor.rs\<close>.
  Parsing a pack from JSON text (\<open>serde_json\<close>) is the argument \<open>parse_pack\<close>, the home
  directory the argument of \<open>expand_tilde\<close>.
\<close>

section \<open>Data\<close>

datatype ReceptorClass = Broad | Intersection | Project | Wildcard | Veto

fun receptor_class_as_str :: "ReceptorClass \<Rightarrow> string" where
  "receptor_class_as_str Broad = ''broad''"
| "receptor_class_as_str Intersection = ''intersection''"
| "receptor_class_as_str Project = ''project''"
| "receptor_class_as_str Wildcard = ''wildcard''"
| "receptor_class_as_str Veto = ''veto''"

record ReceptorDefinition =
  rd_receptor_id :: string
  rd_class :: ReceptorClass
  rd_query :: string
  rd_threshold :: "f32 option"
  rd_space_id :: "string option"

record ReceptorPack =
  pack_id :: string
  pack_version :: string
  pack_receptors :: "ReceptorDefinition list"

record ComputedReceptor =
  cr_receptor_id :: string
  cr_class :: ReceptorClass
  cr_threshold :: f32
  cr_vector :: "f32 list option"
  cr_space_id :: "string option"

definition is_wildcard :: "ComputedReceptor \<Rightarrow> bool" where
  "is_wildcard r \<longleftrightarrow> cr_class r = Wildcard"

definition is_veto :: "ComputedReceptor \<Rightarrow> bool" where
  "is_veto r \<longleftrightarrow> cr_class r = Veto"

lemma receptor_class_as_str_inject [simp]:
  "receptor_class_as_str c = receptor_class_as_str d \<longleftrightarrow> c = d"
  by (cases c; cases d) simp_all

lemma receptor_class_veto_iff: "receptor_class_as_str c = ''veto'' \<longleftrightarrow> c = Veto"
  by (cases c) simp_all

section \<open>Loading packs\<close>

text \<open>\<open>config::expand_tilde\<close>: \<open>home\<close> is what \<open>dirs::home_dir()\<close> returns.\<close>

definition expand_tilde :: "string option \<Rightarrow> string \<Rightarrow> string" where
  "expand_tilde home path =
     (if prefix ''~/'' path
      then case home of Some h \<Rightarrow> path_join h (drop 2 path) | None \<Rightarrow> path
      else path)"

definition validate_receptor_definition :: "ReceptorDefinition \<Rightarrow> unit result" where
  "validate_receptor_definition r =
     (if trim (rd_receptor_id r) = [] then Inl ''receptor_id must not be empty''
      else if rd_class r = Wildcard then Inr ()
      else if trim (rd_query r) = []
      then Inl (''receptor '' @ rd_receptor_id r @ '' requires query'')
      else if rd_threshold r = None
      then Inl (''receptor '' @ rd_receptor_id r @ '' requires threshold'')
      else if (case rd_space_id r of None \<Rightarrow> False | Some s \<Rightarrow> trim s = [])
      then Inl (''receptor '' @ rd_receptor_id r @ '' has empty space_id'')
      else Inr ())"

definition is_json_file :: "fsys \<Rightarrow> string \<Rightarrow> bool" where
  "is_json_file fs p \<longleftrightarrow> fs_is_file fs p \<and> path_extension p = Some ''json''"

definition load_pack_file ::
  "(string \<Rightarrow> ReceptorPack result) \<Rightarrow> fsys \<Rightarrow> string \<Rightarrow> ReceptorDefinition list result" where
  "load_pack_file parse_pack fs p =
     (case fs_read fs p of
        Inl _ \<Rightarrow> Inl (''failed to read receptor pack: '' @ p)
      | Inr content \<Rightarrow>
          (case parse_pack content of
             Inl _ \<Rightarrow> Inl (''failed to parse receptor pack: '' @ p)
           | Inr pack \<Rightarrow> Inr (pack_receptors pack)))"

definition load_pack_path ::
  "(string \<Rightarrow> ReceptorPack result) \<Rightarrow> fsys \<Rightarrow> string \<Rightarrow> ReceptorDefinition list result" where
  "load_pack_path parse_pack fs p =
     (if \<not> fs_exists fs p then Inr []
      else if is_json_file fs p then load_pack_file parse_pack fs p
      else if fs_is_dir fs p
      then (case fs_read_dir fs p of
              Inl _ \<Rightarrow> Inl (''failed to read receptor pack directory: '' @ p)
            | Inr es \<Rightarrow>
                rbind (try_map (load_pack_file parse_pack fs) (filter (is_json_file fs) es))
                  (\<lambda>packs. Inr (concat packs)))
      else Inr [])"

text \<open>The validation loop: each id must be new, each definition well formed.\<close>

fun validate_receptors :: "string list \<Rightarrow> ReceptorDefinition list \<Rightarrow> unit result" where
  "validate_receptors seen [] = Inr ()"
| "validate_receptors seen (r # rs) =
     (if rd_receptor_id r \<in> set seen then Inl (''duplicate receptor_id: '' @ rd_receptor_id r)
      else case validate_receptor_definition r of
             Inl e \<Rightarrow> Inl e
           | Inr _ \<Rightarrow> validate_receptors (rd_receptor_id r # seen) rs)"

definition load_receptor_packs ::
  "string option \<Rightarrow> (string \<Rightarrow> ReceptorPack result) \<Rightarrow> fsys \<Rightarrow> string list
   \<Rightarrow> ReceptorDefinition list result" where
  "load_receptor_packs home parse_pack fs paths =
     rbind (try_map (\<lambda>p. load_pack_path parse_pack fs (expand_tilde home p)) paths)
       (\<lambda>packs. let all_receptors = concat packs
                in rbind (validate_receptors [] all_receptors) (\<lambda>_. Inr all_receptors))"

section \<open>What a loaded pack guarantees\<close>

definition well_formed_definition :: "ReceptorDefinition \<Rightarrow> bool" where
  "well_formed_definition r \<longleftrightarrow>
     trim (rd_receptor_id r) \<noteq> [] \<and>
     (rd_class r \<noteq> Wildcard \<longrightarrow>
        trim (rd_query r) \<noteq> [] \<and> rd_threshold r \<noteq> None \<and>
        (\<forall>s. rd_space_id r = Some s \<longrightarrow> trim s \<noteq> []))"

lemma validate_receptor_definition_ok_iff:
  "validate_receptor_definition r = Inr () \<longleftrightarrow> well_formed_definition r"
  by (auto simp: validate_receptor_definition_def well_formed_definition_def split: option.splits)

lemma validate_receptors_ok_iff:
  "validate_receptors seen rs = Inr () \<longleftrightarrow>
     distinct (map rd_receptor_id rs) \<and> set seen \<inter> rd_receptor_id ` set rs = {} \<and>
     (\<forall>r\<in>set rs. well_formed_definition r)"
proof (induction rs arbitrary: seen)
  case Nil
  then show ?case by simp
next
  case (Cons r rs)
  have "validate_receptors seen (r # rs) = Inr () \<longleftrightarrow>
      rd_receptor_id r \<notin> set seen \<and> well_formed_definition r \<and>
      validate_receptors (rd_receptor_id r # seen) rs = Inr ()"
    by (auto simp: validate_receptor_definition_ok_iff [symmetric] split: sum.splits)
  then show ?case by (auto simp: Cons.IH)
qed

lemma load_receptor_packs_valid:
  assumes "load_receptor_packs home parse_pack fs paths = Inr defs"
  shows "distinct (map rd_receptor_id defs)" and "\<forall>r\<in>set defs. well_formed_definition r"
  using assms
  by (auto simp: load_receptor_packs_def rbind_Inr_iff Let_def validate_receptors_ok_iff)

text \<open>Nothing a pack file defines is lost on the way.\<close>

lemma load_receptor_packs_complete:
  assumes "load_receptor_packs home parse_pack fs paths = Inr defs"
    and "p \<in> set paths" and "is_json_file fs (expand_tilde home p)"
    and "load_pack_file parse_pack fs (expand_tilde home p) = Inr rs"
  shows "set rs \<subseteq> set defs"
proof -
  let ?load = "\<lambda>p. load_pack_path parse_pack fs (expand_tilde home p)"
  obtain packs where packs: "try_map ?load paths = Inr packs" and defs: "defs = concat packs"
    using assms(1) by (auto simp: load_receptor_packs_def rbind_Inr_iff Let_def)
  have "fs_exists fs (expand_tilde home p)"
    using assms(3) by (auto simp: is_json_file_def fs_is_file_def fs_exists_def split: option.splits)
  then have "?load p = Inr rs"
    using assms(3,4) by (simp add: load_pack_path_def)
  then have "rs \<in> set packs"
    using packs assms(2) by (fastforce simp: try_map_Inr_iff list_all2_conv_all_nth in_set_conv_nth)
  then show ?thesis by (auto simp: defs)
qed

end
