(* ===== verification/Embedding_Plugin.thy ===== *)
theory Embedding_Plugin
  imports Receptor
begin

text \<open>
  The exec-based embedding plugin client, \<^verbatim>\<open>src/src/attention/embedding_plugin.rs\<close>. The
  subprocess is the argument \<open>run_plugin\<close>: what one run of the configured executable on a
  request came to. \<open>parse_error\<close> and \<open>parse_response\<close> are the two JSON decoders.
\<close>

section \<open>Data\<close>

record EmbeddingBackendConfig =
  eb_backend_id :: string
  eb_exec_path :: string
  eb_args :: "string list"
  eb_default_space_id :: string
  eb_enabled :: bool
  eb_env :: "string \<rightharpoonup> string"

record VectorResult =
  vr_input_id :: string
  vr_vector :: "f32 list"

record EmbedResponse =
  er_space_id :: string
  er_vectors :: "VectorResult list"

record ErrorInfo =
  ei_code :: string
  ei_message :: string

text \<open>The client holds nothing but its configuration.\<close>

type_synonym EmbeddingPluginClient = EmbeddingBackendConfig

record EmbedRequest =
  rq_op :: string
  rq_space_id :: string
  rq_inputs :: "(string \<times> string) list" \<comment> \<open>\<open>input_id\<close> and \<open>text\<close>\<close>

datatype plugin_outcome =
    SpawnFailed
  | WriteFailed string
  | TimedOut
  | WaitFailed
  | ExitFailure string string \<comment> \<open>the exit status and what stderr said\<close>
  | ExitSuccess string \<comment> \<open>what stdout said\<close>

record plugin_io =
  run_plugin :: "EmbeddingBackendConfig \<Rightarrow> EmbedRequest \<Rightarrow> plugin_outcome"
  parse_error :: "string \<Rightarrow> ErrorInfo option"
  parse_response :: "string \<Rightarrow> EmbedResponse option"

section \<open>Operations\<close>

definition plugin_is_available :: "fsys \<Rightarrow> EmbeddingPluginClient \<Rightarrow> bool" where
  "plugin_is_available fs c \<longleftrightarrow> fs_exists fs (eb_exec_path c)"

fun invoke :: "plugin_io \<Rightarrow> EmbeddingPluginClient \<Rightarrow> EmbedRequest \<Rightarrow> EmbedResponse result" where
  "invoke io c request =
     (case run_plugin io c request of
        SpawnFailed \<Rightarrow> Inl (''failed to spawn embedding plugin: '' @ eb_exec_path c)
      | WriteFailed e \<Rightarrow> Inl e
      | TimedOut \<Rightarrow> Inl ''embedding plugin timed out after 30s''
      | WaitFailed \<Rightarrow> Inl ''failed to wait for embedding plugin''
      | ExitFailure status stderr \<Rightarrow>
          Inl (''embedding plugin exited with status '' @ status @ '': '' @ trim stderr)
      | ExitSuccess stdout \<Rightarrow>
          (case parse_error io (trim stdout) of
             Some err \<Rightarrow>
               Inl (''embedding plugin error ('' @ ei_code err @ ''): '' @ ei_message err)
           | None \<Rightarrow>
               ok_or (''failed to parse embedding plugin response: '' @ trim stdout)
                 (parse_response io (trim stdout))))"

definition input_id :: "nat \<Rightarrow> string" where
  "input_id i = ''input_'' @ digit_string i"

definition embed_request :: "EmbeddingPluginClient \<Rightarrow> string list \<Rightarrow> EmbedRequest" where
  "embed_request c texts =
     \<lparr>rq_op = ''embed'', rq_space_id = eb_default_space_id c,
      rq_inputs = map (\<lambda>(i, t). (input_id i, t)) (enumerate 0 texts)\<rparr>"

definition pick_vector :: "EmbedResponse \<Rightarrow> string \<Rightarrow> f32 list result" where
  "pick_vector response expected_id =
     ok_or (''missing vector for input: '' @ expected_id)
       (map_option vr_vector (find (\<lambda>v. vr_input_id v = expected_id) (er_vectors response)))"

definition embed :: "plugin_io \<Rightarrow> EmbeddingPluginClient \<Rightarrow> string list \<Rightarrow> f32 list list result" where
  "embed io c texts =
     (if texts = [] then Inr []
      else let request = embed_request c texts
           in rbind (invoke io c request)
                (\<lambda>response. try_map (\<lambda>(id, _). pick_vector response id) (rq_inputs request)))"

section \<open>Vectors come back in input order\<close>

lemma embed_length: "embed io c texts = Inr vs \<Longrightarrow> length vs = length texts"
  by (auto simp: embed_def embed_request_def rbind_Inr_iff try_map_Inr_iff Let_def
      dest!: list_all2_lengthD split: if_splits)

text \<open>
  The vector at position \<open>i\<close> is the one the plugin returned under the id it was given for
  text \<open>i\<close>, in whatever order the response lists them.
\<close>

lemma embed_order:
  assumes "embed io c texts = Inr vs" and "i < length texts"
  shows "\<exists>response. invoke io c (embed_request c texts) = Inr response \<and>
           pick_vector response (input_id i) = Inr (vs ! i)"
proof -
  have "texts \<noteq> []" using assms(2) by auto
  then obtain response where resp: "invoke io c (embed_request c texts) = Inr response"
    and all: "list_all2 (\<lambda>(id, _) v. pick_vector response id = Inr v)
                (rq_inputs (embed_request c texts)) vs"
    using assms(1)
    by (auto simp: embed_def Let_def rbind_Inr_iff try_map_Inr_iff case_prod_beta' simp del: invoke.simps)
  have nth: "rq_inputs (embed_request c texts) ! i = (input_id i, texts ! i)"
    using assms(2) by (simp add: embed_request_def nth_enumerate_eq)
  have "pick_vector response (input_id i) = Inr (vs ! i)"
    using list_all2_nthD [OF all, of i] assms(2) nth by (simp add: embed_request_def)
  with resp show ?thesis by blast
qed

end
