(* ===== verification/Scoring.thy ===== *)
theory Scoring
  imports Rust_Float
begin

text \<open>
  Cosine similarity of embedding vectors, \<^verbatim>\<open>src/src/attention/scoring.rs\<close>, in the
  single-precision arithmetic the code runs in. (\<open>mean_vector\<close> is compiled for tests only.)
\<close>

definition cosine_similarity :: "f32 list \<Rightarrow> f32 list \<Rightarrow> f32" where
  "cosine_similarity a b =
     (if length a \<noteq> length b \<or> a = [] then FFin 0
      else let dot = fsum F32 (map2 (fmul F32) a b);
               norm_a = fsqrt F32 (fsum F32 (map (\<lambda>x. fmul F32 x x) a));
               norm_b = fsqrt F32 (fsum F32 (map (\<lambda>x. fmul F32 x x) b))
           in if norm_a = FFin 0 \<or> norm_b = FFin 0 then FFin 0
              else fdiv F32 dot (fmul F32 norm_a norm_b))"

lemma cosine_dim_mismatch: "length a \<noteq> length b \<Longrightarrow> cosine_similarity a b = FFin 0"
  by (simp add: cosine_similarity_def)

lemma cosine_empty: "cosine_similarity [] b = FFin 0"
  by (simp add: cosine_similarity_def)

lemma cosine_parallel: "cosine_similarity [FFin 3, FFin 4] [FFin 6, FFin 8] = FFin 1"
  by code_simp

lemma cosine_opposite: "cosine_similarity [FFin 1, FFin 0] [FFin (- 1), FFin 0] = FFin (- 1)"
  by code_simp

lemma cosine_overflow: "cosine_similarity [FFin (2 ^ 100), FFin 0] [FFin 1, FFin 0] = FFin 0"
  by code_simp

text \<open>
  A component of magnitude \<open>2 ^ 64\<close> overflows when it is squared; the norm is then infinite, or NaN,
  and so is every product with it, and the score is 0 or NaN whatever the direction of the vector.
\<close>

lemma cosine_overflown:
  assumes "FFin p \<in> set a" and "2 ^ 64 \<le> \<bar>p\<bar>"
  shows "cosine_similarity a b \<in> {FFin 0, FNaN}"
proof -
  have "2 ^ 64 * 2 ^ 64 \<le> \<bar>p\<bar> * \<bar>p\<bar>" using assms(2) by (intro mult_mono) simp_all
  then have "overflown (fmul F32 (FFin p) (FFin p))"
    by (simp add: fround_overflow overflown_def)
  with assms(1) have "overflown (fsum F32 (map (\<lambda>x. fmul F32 x x) a))"
    by (intro fsum_overflown) (use fmul_square_nonneg in \<open>auto simp del: fmul.simps\<close>)
  then have "overflown (fsqrt F32 (fsum F32 (map (\<lambda>x. fmul F32 x x) a)))" by (rule fsqrt_overflown)
  from fdiv_overflown [OF this] show ?thesis by (simp add: cosine_similarity_def Let_def)
qed

lemma cosine_nan: "cosine_similarity [FInf False, FFin 0] [FFin 1, FFin 0] = FNaN"
  by code_simp

end
