(* ===== verification/Attention.thy ===== *)
theory Attention
  imports Embedding_Plugin Scoring
begin

text \<open>
  The attention layer, \<^verbatim>\<open>src/src/attention/mod.rs\<close>: building a layer from the configuration,
  evaluating a message against its receptors, and composing the embeddings of an outbound
  message. The lemmas relate \<open>evaluate_with_embeddings\<close> to a declarative delivery policy, and
  the layer that \<open>AttentionLayer::new\<close> builds to the receptor definitions it was given.
\<close>

section \<open>Data\<close>

record AttentionConfig =
  ac_local_pack_paths :: "string list"
  ac_embedding_backends :: "EmbeddingBackendConfig list"

record MessageEmbedding =
  me_space_id :: string
  me_vector :: "f32 list"

record OutboundEmbeddingRequest =
  oe_embeddings :: "MessageEmbedding list"
  oe_generate_for_spaces :: "string list"
  oe_generated_embeddings_override_supplied :: bool

datatype AttentionDisposition =
    Deliver
  | Filtered
  | NoActiveReceptor
  | Vetoed
  | EvaluationUnavailable
  | VetoEnforcementUnavailable

record ReceptorMatch =
  rm_receptor_id :: string
  rm_class :: ReceptorClass
  rm_score :: f32
  rm_threshold :: f32
  rm_above_threshold :: bool

record AttentionResult =
  ar_deliver :: bool
  ar_matches :: "ReceptorMatch list"
  ar_space_id :: "string option"
  ar_fallback :: bool
  ar_disposition :: AttentionDisposition
  ar_veto_not_evaluated :: bool

record AttentionLayer =
  al_receptors :: "ComputedReceptor list"
  al_plugin :: "EmbeddingPluginClient option"
  al_space_id :: "string option"
  al_degraded :: bool
  al_veto_enforcement_unavailable :: bool

text \<open>What the layer reads from its host while it is built.\<close>

record attention_env =
  env_home :: "string option"
  env_fs :: fsys
  env_parse_pack :: "string \<Rightarrow> ReceptorPack result"
  env_parse_json :: "string \<Rightarrow> json option"
  env_plugin :: plugin_io

section \<open>Building a layer\<close>

definition passthrough :: AttentionLayer where
  "passthrough =
     \<lparr>al_receptors = [], al_plugin = None, al_space_id = None, al_degraded = False,
      al_veto_enforcement_unavailable = False\<rparr>"

definition first_enabled_backend :: "EmbeddingBackendConfig list \<Rightarrow> EmbeddingBackendConfig option" where
  "first_enabled_backend bs = find eb_enabled bs"

definition quoted :: "string \<Rightarrow> string" where
  "quoted s = CHR 0x22 # s @ [CHR 0x22]"

definition file_contains_veto :: "attention_env \<Rightarrow> string \<Rightarrow> bool" where
  "file_contains_veto env p =
     (case fs_read (env_fs env) p of
        Inl _ \<Rightarrow> False
      | Inr content \<Rightarrow>
          (case env_parse_json env content of
             Some v \<Rightarrow>
               (case Option.bind (json_get ''receptors'' v) json_as_array of
                  None \<Rightarrow> False
                | Some rs \<Rightarrow> list_ex (\<lambda>r. json_str_at ''class'' r = Some ''veto'') rs)
           | None \<Rightarrow> contains content (quoted ''class'') \<and> contains content (quoted ''veto'')))"

definition paths_contain_veto_receptor :: "attention_env \<Rightarrow> string list \<Rightarrow> bool" where
  "paths_contain_veto_receptor env paths =
     list_ex (\<lambda>path_str.
       let p = expand_tilde (env_home env) path_str; fs = env_fs env
       in if is_json_file fs p then file_contains_veto env p
          else if \<not> fs_is_dir fs p then False
          else case fs_read_dir fs p of
                 Inl _ \<Rightarrow> False
               | Inr es \<Rightarrow> list_ex (\<lambda>e. is_json_file fs e \<and> file_contains_veto env e) es) paths"

definition push_receptor :: "ComputedReceptor \<Rightarrow> AttentionLayer \<Rightarrow> AttentionLayer" where
  "push_receptor r layer = layer\<lparr>al_receptors := al_receptors layer @ [r]\<rparr>"

definition unscored_receptor :: "ReceptorDefinition \<Rightarrow> ComputedReceptor" where
  "unscored_receptor d =
     \<lparr>cr_receptor_id = rd_receptor_id d, cr_class = rd_class d,
      cr_threshold = (case rd_threshold d of None \<Rightarrow> FFin 1 | Some t \<Rightarrow> t),
      cr_vector = None, cr_space_id = None\<rparr>"

text \<open>
  One receptor with a plugin. \<open>expect("validated receptor threshold")\<close> panics on a missing
  threshold; the branch is kept and shown unreachable below.
\<close>

definition compute_receptor :: "plugin_io \<Rightarrow> EmbeddingPluginClient \<Rightarrow> ReceptorDefinition
    \<Rightarrow> ComputedReceptor result" where
  "compute_receptor io plugin d =
     (if rd_class d = Wildcard then Inr (unscored_receptor d)
      else let plugin_space_id = eb_default_space_id plugin;
               receptor_space_id =
                 (case rd_space_id d of None \<Rightarrow> plugin_space_id | Some s \<Rightarrow> s)
           in if receptor_space_id \<noteq> plugin_space_id
              then Inl (''no enabled embedding backend for receptor '' @ rd_receptor_id d
                        @ '' space_id '' @ receptor_space_id)
              else case embed io plugin [trim (rd_query d)] of
                     Inl _ \<Rightarrow> Inl (''failed to embed query for receptor: '' @ rd_receptor_id d)
                   | Inr vectors \<Rightarrow>
                       if vectors = [] then Inl ''embedding backend returned no receptor vector''
                       else case rd_threshold d of
                              None \<Rightarrow> Inl ''panic: validated receptor threshold''
                            | Some t \<Rightarrow>
                                Inr \<lparr>cr_receptor_id = rd_receptor_id d, cr_class = rd_class d,
                                     cr_threshold = t, cr_vector = Some (last vectors),
                                     cr_space_id = Some receptor_space_id\<rparr>)"

fun compute_receptors_loop :: "plugin_io \<Rightarrow> EmbeddingPluginClient \<Rightarrow> ReceptorDefinition list
    \<Rightarrow> (AttentionLayer, unit) op" where
  "compute_receptors_loop io plugin [] = ret ()"
| "compute_receptors_loop io plugin (d # ds) =
     andthen (lift (compute_receptor io plugin d))
       (\<lambda>r. andthen (update (push_receptor r)) (\<lambda>_. compute_receptors_loop io plugin ds))"

definition compute_receptors :: "plugin_io \<Rightarrow> ReceptorDefinition list \<Rightarrow> (AttentionLayer, unit) op" where
  "compute_receptors io ds layer =
     (case al_plugin layer of
        None \<Rightarrow>
          let layer' = layer\<lparr>al_receptors := al_receptors layer @ map unscored_receptor ds\<rparr>
          in (Inr (), if list_ex (\<lambda>d. rd_class d = Veto) ds
                      then layer'\<lparr>al_veto_enforcement_unavailable := True\<rparr> else layer')
      | Some plugin \<Rightarrow> compute_receptors_loop io plugin ds layer)"

definition select_backend :: "attention_env \<Rightarrow> AttentionConfig \<Rightarrow> AttentionLayer" where
  "select_backend env cfg =
     (case first_enabled_backend (ac_embedding_backends cfg) of
        Some b \<Rightarrow>
          if plugin_is_available (env_fs env) b
          then passthrough\<lparr>al_plugin := Some b, al_space_id := Some (eb_default_space_id b)\<rparr>
          else passthrough\<lparr>al_degraded := True\<rparr>
      | None \<Rightarrow>
          if ac_local_pack_paths cfg \<noteq> [] then passthrough\<lparr>al_degraded := True\<rparr>
          else passthrough)"

text \<open>\<open>AttentionLayer::new\<close> never fails: every error degrades the layer instead.\<close>

definition attention_new :: "attention_env \<Rightarrow> AttentionConfig \<Rightarrow> AttentionLayer" where
  "attention_new env cfg =
     (let layer = select_backend env cfg; paths = ac_local_pack_paths cfg
      in if paths = [] then layer
         else case load_receptor_packs (env_home env) (env_parse_pack env) (env_fs env) paths of
                Inr ds \<Rightarrow>
                  (case compute_receptors (env_plugin env) ds layer of
                     (Inr _, layer') \<Rightarrow> layer'
                   | (Inl _, layer') \<Rightarrow>
                       let failed = layer'\<lparr>al_degraded := True\<rparr>
                       in if list_ex (\<lambda>d. rd_class d = Veto) ds
                          then failed\<lparr>al_veto_enforcement_unavailable := True\<rparr> else failed)
              | Inl _ \<Rightarrow>
                  let failed = layer\<lparr>al_degraded := True\<rparr>
                  in if paths_contain_veto_receptor env paths
                     then failed\<lparr>al_veto_enforcement_unavailable := True\<rparr> else failed)"

section \<open>Evaluating a message\<close>

definition select_message_vector ::
  "AttentionLayer \<Rightarrow> MessageEmbedding list option \<Rightarrow> (f32 list \<times> string) option" where
  "select_message_vector layer supplied =
     (case al_space_id layer of
        None \<Rightarrow> None
      | Some space_id \<Rightarrow>
          (case supplied of
             None \<Rightarrow> None
           | Some es \<Rightarrow>
               map_option (\<lambda>e. (me_vector e, me_space_id e))
                 (find (\<lambda>e. me_space_id e = space_id) es)))"

definition receptor_match :: "ComputedReceptor \<Rightarrow> f32 \<Rightarrow> bool \<Rightarrow> ReceptorMatch" where
  "receptor_match r score above_threshold =
     \<lparr>rm_receptor_id = cr_receptor_id r, rm_class = cr_class r, rm_score = score,
      rm_threshold = cr_threshold r, rm_above_threshold = above_threshold\<rparr>"

text \<open>The veto loop, which returns as soon as a veto receptor reaches its threshold.\<close>

fun scan_veto :: "f32 list \<Rightarrow> string \<Rightarrow> ComputedReceptor list \<Rightarrow> ReceptorMatch list
    \<Rightarrow> ReceptorMatch list \<times> bool" where
  "scan_veto mv sp [] matches = (matches, False)"
| "scan_veto mv sp (r # rs) matches =
     (if \<not> is_veto r then scan_veto mv sp rs matches
      else case cr_vector r of
             None \<Rightarrow> scan_veto mv sp rs matches
           | Some rv \<Rightarrow>
               if cr_space_id r \<noteq> Some sp then scan_veto mv sp rs matches
               else let score = cosine_similarity mv rv;
                        above_threshold = fge score (cr_threshold r);
                        matches' = matches @ [receptor_match r score above_threshold]
                    in if above_threshold then (matches', True) else scan_veto mv sp rs matches')"

text \<open>The loop over the other receptors; the flag is \<open>any_above_threshold\<close>.\<close>

fun scan_interest :: "f32 list \<Rightarrow> string \<Rightarrow> ComputedReceptor list \<Rightarrow> ReceptorMatch list \<Rightarrow> bool
    \<Rightarrow> ReceptorMatch list \<times> bool" where
  "scan_interest mv sp [] matches any = (matches, any)"
| "scan_interest mv sp (r # rs) matches any =
     (if is_veto r then scan_interest mv sp rs matches any
      else case cr_vector r of
             None \<Rightarrow> scan_interest mv sp rs matches any
           | Some rv \<Rightarrow>
               if cr_space_id r \<noteq> Some sp then scan_interest mv sp rs matches any
               else let score = cosine_similarity mv rv;
                        above_threshold = fge score (cr_threshold r)
                    in scan_interest mv sp rs (matches @ [receptor_match r score above_threshold])
                         (any \<or> above_threshold))"

text \<open>
  \<open>matches.sort_by(score_desc)\<close>. Rust's \<open>sort_by\<close> is stable; a NaN score compares equal to
  everything, which is no total order, and the order it leaves is then unspecified (the model
  takes one). No delivery decision depends on the order.
\<close>

definition score_desc :: "ReceptorMatch \<Rightarrow> ReceptorMatch \<Rightarrow> ordering" where
  "score_desc a b = (case partial_cmp (rm_score b) (rm_score a) of None \<Rightarrow> Equal | Some ord \<Rightarrow> ord)"

fun insert_match :: "ReceptorMatch \<Rightarrow> ReceptorMatch list \<Rightarrow> ReceptorMatch list" where
  "insert_match m [] = [m]"
| "insert_match m (x # xs) =
     (if score_desc m x = Greater then x # insert_match m xs else m # x # xs)"

definition sort_matches :: "ReceptorMatch list \<Rightarrow> ReceptorMatch list" where
  "sort_matches ms = foldr insert_match ms []"

definition wildcard_match :: "ComputedReceptor \<Rightarrow> ReceptorMatch" where
  "wildcard_match r = receptor_match r (FFin 1) True"

text \<open>The end of \<open>evaluate_with_embeddings\<close>, once a message vector was selected.\<close>

definition evaluate_interest :: "AttentionLayer \<Rightarrow> f32 list \<Rightarrow> string \<Rightarrow> ReceptorMatch list
    \<Rightarrow> AttentionResult" where
  "evaluate_interest layer mv sp matches =
     (let (matches2, any2) = scan_interest mv sp (al_receptors layer) matches False;
          (matches3, any3) =
            (case find is_wildcard (al_receptors layer) of
               Some r \<Rightarrow> (matches2 @ [wildcard_match r], True)
             | None \<Rightarrow> (matches2, any2))
      in \<lparr>ar_deliver = any3, ar_matches = sort_matches matches3, ar_space_id = Some sp,
          ar_fallback = False, ar_disposition = (if any3 then Deliver else Filtered),
          ar_veto_not_evaluated = False\<rparr>)"

text \<open>The branch without a compatible message vector.\<close>

definition evaluate_without_vector :: "AttentionLayer \<Rightarrow> AttentionResult" where
  "evaluate_without_vector layer =
     (let veto_not_evaluated = list_ex is_veto (al_receptors layer)
      in if veto_not_evaluated
         then \<lparr>ar_deliver = False, ar_matches = [], ar_space_id = None, ar_fallback = False,
               ar_disposition = EvaluationUnavailable, ar_veto_not_evaluated = veto_not_evaluated\<rparr>
         else case find is_wildcard (al_receptors layer) of
                Some r \<Rightarrow>
                  \<lparr>ar_deliver = True, ar_matches = sort_matches [wildcard_match r],
                   ar_space_id = None, ar_fallback = False, ar_disposition = Deliver,
                   ar_veto_not_evaluated = veto_not_evaluated\<rparr>
              | None \<Rightarrow>
                  \<lparr>ar_deliver = False, ar_matches = [], ar_space_id = None, ar_fallback = False,
                   ar_disposition = Filtered, ar_veto_not_evaluated = veto_not_evaluated\<rparr>)"

definition evaluate_with_embeddings ::
  "AttentionLayer \<Rightarrow> MessageEmbedding list option \<Rightarrow> AttentionResult" where
  "evaluate_with_embeddings layer supplied =
     (if al_veto_enforcement_unavailable layer
      then \<lparr>ar_deliver = False, ar_matches = [], ar_space_id = al_space_id layer,
            ar_fallback = False, ar_disposition = VetoEnforcementUnavailable,
            ar_veto_not_evaluated = False\<rparr>
      else if al_degraded layer
      then \<lparr>ar_deliver = False, ar_matches = [], ar_space_id = al_space_id layer,
            ar_fallback = False, ar_disposition = EvaluationUnavailable,
            ar_veto_not_evaluated = False\<rparr>
      else if al_receptors layer = []
      then \<lparr>ar_deliver = False, ar_matches = [], ar_space_id = None, ar_fallback = True,
            ar_disposition = NoActiveReceptor, ar_veto_not_evaluated = False\<rparr>
      else let has_interest = list_ex (\<lambda>r. \<not> is_veto r) (al_receptors layer);
               selected = select_message_vector layer supplied;
               veto_not_evaluated = (list_ex is_veto (al_receptors layer) \<and> selected = None);
               (matches, vetoed) =
                 (case selected of
                    None \<Rightarrow> ([], False)
                  | Some (mv, sp) \<Rightarrow> scan_veto mv sp (al_receptors layer) [])
           in if vetoed
              then \<lparr>ar_deliver = False, ar_matches = sort_matches matches,
                    ar_space_id = map_option snd selected, ar_fallback = False,
                    ar_disposition = Vetoed, ar_veto_not_evaluated = False\<rparr>
              else if \<not> has_interest
              then \<lparr>ar_deliver = False, ar_matches = sort_matches matches,
                    ar_space_id = map_option snd selected, ar_fallback = True,
                    ar_disposition = NoActiveReceptor,
                    ar_veto_not_evaluated = veto_not_evaluated\<rparr>
              else case selected of
                     None \<Rightarrow> evaluate_without_vector layer
                   | Some (mv, sp) \<Rightarrow> evaluate_interest layer mv sp matches)"

definition evaluate :: "AttentionLayer \<Rightarrow> MessageEmbedding list \<Rightarrow> AttentionResult" where
  "evaluate layer es = evaluate_with_embeddings layer (Some es)"

section \<open>Reporting\<close>

definition receptor_count :: "AttentionLayer \<Rightarrow> nat" where
  "receptor_count layer = length (al_receptors layer)"

definition interest_receptor_count :: "AttentionLayer \<Rightarrow> nat" where
  "interest_receptor_count layer = length (filter (\<lambda>r. \<not> is_veto r) (al_receptors layer))"

definition veto_receptor_count :: "AttentionLayer \<Rightarrow> nat" where
  "veto_receptor_count layer = length (filter is_veto (al_receptors layer))"

definition wildcard_receptor_count :: "AttentionLayer \<Rightarrow> nat" where
  "wildcard_receptor_count layer = length (filter is_wildcard (al_receptors layer))"

definition delivery_mode :: "AttentionLayer \<Rightarrow> string" where
  "delivery_mode layer =
     (if al_veto_enforcement_unavailable layer then ''veto_enforcement_unavailable''
      else if al_degraded layer then ''evaluation_unavailable''
      else if al_receptors layer = [] then ''no_active_receptors''
      else if interest_receptor_count layer = 0 then ''veto_only_no_positive_receptors''
      else ''receptor_gated'')"

definition veto_enforcement_state :: "AttentionLayer \<Rightarrow> string" where
  "veto_enforcement_state layer =
     (if al_veto_enforcement_unavailable layer then ''unavailable''
      else if list_ex is_veto (al_receptors layer) then ''ready''
      else ''not_configured'')"

text \<open>\<open>fmt3\<close> prints a score with three decimals.\<close>

definition format_attention_annotation :: "(f32 \<Rightarrow> string) \<Rightarrow> AttentionResult \<Rightarrow> string option" where
  "format_attention_annotation fmt3 result =
     (let matched = filter rm_above_threshold (ar_matches result)
      in if ar_matches result = [] \<or> matched = [] then None
         else Some (join [CHR 0x0A] (''ReceptorMatches:'' #
                map (\<lambda>m. ''  - '' @ rm_receptor_id m @ '' ['' @ receptor_class_as_str (rm_class m)
                         @ ''] ('' @ fmt3 (rm_score m) @ '' >= '' @ fmt3 (rm_threshold m) @ '')'')
                  matched)))"

section \<open>The delivery policy\<close>

text \<open>
  The policy in declarative form: a receptor fires when it has a vector of the message's space
  and the score reaches its threshold. A message is delivered when enforcement is available,
  no veto receptor fires, no veto receptor had to be skipped for want of a message vector, and
  a wildcard is configured or an interest receptor fires.
\<close>

definition receptor_fires :: "f32 list \<Rightarrow> string \<Rightarrow> ComputedReceptor \<Rightarrow> bool" where
  "receptor_fires mv sp r \<longleftrightarrow>
     cr_space_id r = Some sp \<and>
     (case cr_vector r of None \<Rightarrow> False
      | Some rv \<Rightarrow> fge (cosine_similarity mv rv) (cr_threshold r))"

definition policy_delivers :: "AttentionLayer \<Rightarrow> MessageEmbedding list option \<Rightarrow> bool" where
  "policy_delivers layer supplied \<longleftrightarrow>
     \<not> al_veto_enforcement_unavailable layer \<and> \<not> al_degraded layer \<and>
     (case select_message_vector layer supplied of
        None \<Rightarrow>
          \<not> list_ex is_veto (al_receptors layer) \<and> list_ex is_wildcard (al_receptors layer)
      | Some (mv, sp) \<Rightarrow>
          \<not> list_ex (\<lambda>r. is_veto r \<and> receptor_fires mv sp r) (al_receptors layer) \<and>
          list_ex (\<lambda>r. is_wildcard r \<or> \<not> is_veto r \<and> receptor_fires mv sp r) (al_receptors layer))"

definition policy_disposition :: "AttentionLayer \<Rightarrow> MessageEmbedding list option \<Rightarrow> AttentionDisposition" where
  "policy_disposition layer supplied =
     (if al_veto_enforcement_unavailable layer then VetoEnforcementUnavailable
      else if al_degraded layer then EvaluationUnavailable
      else if \<not> list_ex (\<lambda>r. \<not> is_veto r) (al_receptors layer)
      then (case select_message_vector layer supplied of
              None \<Rightarrow> NoActiveReceptor
            | Some (mv, sp) \<Rightarrow>
                if list_ex (receptor_fires mv sp) (al_receptors layer)
                then Vetoed else NoActiveReceptor)
      else case select_message_vector layer supplied of
             None \<Rightarrow>
               if list_ex is_veto (al_receptors layer) then EvaluationUnavailable
               else if list_ex is_wildcard (al_receptors layer) then Deliver
               else Filtered
           | Some (mv, sp) \<Rightarrow>
               if list_ex (\<lambda>r. is_veto r \<and> receptor_fires mv sp r) (al_receptors layer) then Vetoed
               else if policy_delivers layer supplied then Deliver
               else Filtered)"

lemma wildcard_not_veto: "is_wildcard r \<Longrightarrow> \<not> is_veto r"
  by (simp add: is_wildcard_def is_veto_def)

lemma mset_insert_match: "set (insert_match m ms) = insert m (set ms)"
  by (induction ms) auto

lemma set_sort_matches [simp]: "set (sort_matches ms) = set ms"
  by (induction ms) (simp_all add: sort_matches_def mset_insert_match)

lemma scan_veto_flag:
  "snd (scan_veto mv sp rs ms) \<longleftrightarrow> list_ex (\<lambda>r. is_veto r \<and> receptor_fires mv sp r) rs"
  by (induction rs arbitrary: ms) (auto simp: receptor_fires_def Let_def split: option.splits)

lemma scan_interest_flag:
  "snd (scan_interest mv sp rs ms any) \<longleftrightarrow>
     any \<or> list_ex (\<lambda>r. \<not> is_veto r \<and> receptor_fires mv sp r) rs"
  by (induction rs arbitrary: ms any) (auto simp: receptor_fires_def Let_def split: option.splits)

lemma scan_interest_matches: "set ms \<subseteq> set (fst (scan_interest mv sp rs ms any))"
proof (induction rs arbitrary: ms any)
  case Nil
  then show ?case by simp
next
  case (Cons r rs)
  have longer: "set ms \<subseteq> set (fst (scan_interest mv sp rs (ms @ [m]) a))" for m a
    using Cons [of "ms @ [m]" a] by simp
  show ?case
    using Cons [of ms any] longer by (simp add: Let_def split: option.split)
qed

text \<open>Whatever fires in the interest scan is recorded as an accepted match that is no veto.\<close>

definition accepted_match :: "ReceptorMatch \<Rightarrow> bool" where
  "accepted_match m \<longleftrightarrow> rm_above_threshold m \<and> rm_class m \<noteq> Veto"

lemma scan_interest_accepted:
  assumes "list_ex (\<lambda>r. \<not> is_veto r \<and> receptor_fires mv sp r) rs"
  shows "\<exists>m\<in>set (fst (scan_interest mv sp rs ms any)). accepted_match m"
  using assms
proof (induction rs arbitrary: ms any)
  case Nil
  then show ?case by simp
next
  case (Cons r rs)
  show ?case
  proof (cases "\<not> is_veto r \<and> receptor_fires mv sp r")
    case True
    then obtain rv where rv: "cr_vector r = Some rv" "cr_space_id r = Some sp"
      and fires: "fge (cosine_similarity mv rv) (cr_threshold r)"
      by (auto simp: receptor_fires_def split: option.splits)
    let ?m = "receptor_match r (cosine_similarity mv rv) True"
    have "?m \<in> set (fst (scan_interest mv sp rs (ms @ [?m]) True))"
      using scan_interest_matches [of "ms @ [?m]"] by auto
    moreover have "accepted_match ?m"
      using True by (simp add: accepted_match_def receptor_match_def is_veto_def)
    ultimately show ?thesis
      using True rv fires by (auto simp: Let_def)
  next
    case False
    with Cons.prems have "list_ex (\<lambda>r. \<not> is_veto r \<and> receptor_fires mv sp r) rs" by auto
    with Cons.IH show ?thesis by (auto simp: Let_def split: option.splits)
  qed
qed

lemma find_None_list_ex: "find P xs = None \<longleftrightarrow> \<not> list_ex P xs"
  by (induction xs) auto

lemma find_Some_list_ex: "find P xs = Some x \<Longrightarrow> list_ex P xs \<and> P x \<and> x \<in> set xs"
  by (induction xs) (auto split: if_splits)

lemma evaluate_interest_deliver:
  "ar_deliver (evaluate_interest layer mv sp ms) \<longleftrightarrow>
     list_ex (\<lambda>r. is_wildcard r \<or> \<not> is_veto r \<and> receptor_fires mv sp r) (al_receptors layer)"
proof (cases "find is_wildcard (al_receptors layer)")
  case None
  then have "\<not> list_ex is_wildcard (al_receptors layer)" by (simp add: find_None_list_ex)
  then show ?thesis
    using scan_interest_flag [of mv sp "al_receptors layer" ms False] None
    by (auto simp: evaluate_interest_def Let_def list_ex_iff split: prod.splits)
next
  case (Some r)
  then have "list_ex is_wildcard (al_receptors layer)" using find_Some_list_ex by fast
  with Some show ?thesis
    by (auto simp: evaluate_interest_def Let_def list_ex_iff split: prod.splits)
qed

lemma evaluate_deliver_iff:
  "ar_deliver (evaluate_with_embeddings layer supplied) \<longleftrightarrow> policy_delivers layer supplied"
proof (cases "select_message_vector layer supplied")
  case None
  show ?thesis
    using wildcard_not_veto
    by (auto simp: evaluate_with_embeddings_def policy_delivers_def None Let_def
        evaluate_without_vector_def list_ex_iff find_None_list_ex
        dest: find_Some_list_ex split: option.splits)
next
  case (Some p)
  obtain mv sp where p: "p = (mv, sp)" by (cases p)
  let ?rs = "al_receptors layer"
  obtain ms flag where scan: "scan_veto mv sp ?rs [] = (ms, flag)" by fastforce
  then have flag: "flag \<longleftrightarrow> list_ex (\<lambda>r. is_veto r \<and> receptor_fires mv sp r) ?rs"
    using scan_veto_flag [of mv sp ?rs "[]"] by simp
  have int: "list_ex (\<lambda>r. is_wildcard r \<or> \<not> is_veto r \<and> receptor_fires mv sp r) ?rs
      \<Longrightarrow> list_ex (\<lambda>r. \<not> is_veto r) ?rs"
    using wildcard_not_veto by (auto simp: list_ex_iff)
  show ?thesis
    using int flag evaluate_interest_deliver [of layer mv sp ms]
    by (auto simp: evaluate_with_embeddings_def policy_delivers_def Some p scan Let_def)
qed

section \<open>What a delivery decision records\<close>

lemma evaluate_interest_accepted:
  assumes "ar_deliver (evaluate_interest layer mv sp ms)"
  shows "\<exists>m\<in>set (ar_matches (evaluate_interest layer mv sp ms)). accepted_match m"
proof (cases "find is_wildcard (al_receptors layer)")
  case None
  with assms have "list_ex (\<lambda>r. \<not> is_veto r \<and> receptor_fires mv sp r) (al_receptors layer)"
    using scan_interest_flag [of mv sp "al_receptors layer" ms False]
    by (auto simp: evaluate_interest_def Let_def split: prod.splits)
  from scan_interest_accepted [OF this, of ms False] show ?thesis
    by (auto simp: evaluate_interest_def Let_def None split: prod.splits)
next
  case (Some r)
  then have "accepted_match (wildcard_match r)"
    by (auto dest!: find_Some_list_ex
        simp: accepted_match_def wildcard_match_def receptor_match_def is_wildcard_def)
  with Some show ?thesis
    by (auto simp: evaluate_interest_def Let_def split: prod.splits)
qed

lemma evaluate_without_vector_accepted:
  assumes "ar_deliver (evaluate_without_vector layer)"
  shows "\<exists>m\<in>set (ar_matches (evaluate_without_vector layer)). accepted_match m"
  using assms
  by (auto simp: evaluate_without_vector_def Let_def accepted_match_def wildcard_match_def
      receptor_match_def is_wildcard_def dest!: find_Some_list_ex split: option.splits if_splits)

lemma evaluate_deliver_record:
  assumes "ar_deliver (evaluate_with_embeddings layer supplied)"
  shows "ar_disposition (evaluate_with_embeddings layer supplied) = Deliver
    \<and> \<not> ar_veto_not_evaluated (evaluate_with_embeddings layer supplied)
    \<and> \<not> ar_fallback (evaluate_with_embeddings layer supplied)
    \<and> (\<exists>m\<in>set (ar_matches (evaluate_with_embeddings layer supplied)). accepted_match m)"
proof (cases "select_message_vector layer supplied")
  case None
  then have ev: "evaluate_with_embeddings layer supplied = evaluate_without_vector layer"
    using assms by (auto simp: evaluate_with_embeddings_def Let_def split: if_splits)
  show ?thesis
    unfolding ev using assms [unfolded ev] evaluate_without_vector_accepted
    by (auto simp: evaluate_without_vector_def Let_def split: option.splits if_splits)
next
  case (Some p)
  then obtain mv sp ms where
    ev: "evaluate_with_embeddings layer supplied = evaluate_interest layer mv sp ms"
    using assms
    by (auto simp: evaluate_with_embeddings_def Let_def split: if_splits prod.splits)
  show ?thesis
    unfolding ev using assms [unfolded ev] evaluate_interest_accepted
    by (auto simp: evaluate_interest_def Let_def split: option.splits prod.splits)
qed

lemma evaluate_disposition_deliver_iff:
  "ar_disposition (evaluate_with_embeddings layer supplied) = Deliver \<longleftrightarrow>
     ar_deliver (evaluate_with_embeddings layer supplied)"
  by (auto simp: evaluate_with_embeddings_def evaluate_interest_def evaluate_without_vector_def
      Let_def split: option.splits prod.splits)

text \<open>The reported mode agrees: a layer that delivers reports \<open>receptor_gated\<close>.\<close>

lemma evaluate_deliver_mode:
  assumes "ar_deliver (evaluate_with_embeddings layer supplied)"
  shows "delivery_mode layer = ''receptor_gated''"
proof -
  have pol: "policy_delivers layer supplied" using assms by (simp add: evaluate_deliver_iff)
  then have "list_ex (\<lambda>r. \<not> is_veto r) (al_receptors layer)"
    using wildcard_not_veto
    by (fastforce simp: policy_delivers_def list_ex_iff split: option.splits)
  then have "interest_receptor_count layer \<noteq> 0" "al_receptors layer \<noteq> []"
    by (auto simp: interest_receptor_count_def list_ex_iff filter_empty_conv)
  with pol show ?thesis by (simp add: delivery_mode_def policy_delivers_def)
qed

lemma interest_veto_count:
  "interest_receptor_count layer + veto_receptor_count layer = receptor_count layer"
  using sum_length_filter_compl [of is_veto "al_receptors layer"]
  by (simp add: interest_receptor_count_def veto_receptor_count_def receptor_count_def)

section \<open>The layer that is built\<close>

lemma compute_receptors_loop_ok:
  assumes "compute_receptors_loop io plugin ds layer = (Inr u, layer')"
  shows "\<exists>rs. list_all2 (\<lambda>d r. compute_receptor io plugin d = Inr r) ds rs
           \<and> layer' = layer\<lparr>al_receptors := al_receptors layer @ rs\<rparr>"
  using assms
proof (induction ds arbitrary: layer)
  case Nil
  then show ?case by (simp add: ret_def)
next
  case (Cons d ds)
  then obtain r where r: "compute_receptor io plugin d = Inr r"
    and rest: "compute_receptors_loop io plugin ds (push_receptor r layer) = (Inr u, layer')"
    by (auto simp: andthen_Inr_iff op_defs)
  from Cons.IH [OF rest] obtain rs where
    "list_all2 (\<lambda>d r. compute_receptor io plugin d = Inr r) ds rs"
    "layer' = (push_receptor r layer)\<lparr>al_receptors := al_receptors (push_receptor r layer) @ rs\<rparr>"
    by blast
  with r show ?case by (intro exI [of _ "r # rs"]) (simp add: push_receptor_def)
qed

lemma compute_receptor_fields:
  assumes "compute_receptor io plugin d = Inr r"
  shows "cr_receptor_id r = rd_receptor_id d \<and> cr_class r = rd_class d"
    and "rd_class d \<noteq> Wildcard \<Longrightarrow>
      \<exists>vs. embed io plugin [trim (rd_query d)] = Inr vs \<and> cr_vector r = Some (last vs)
        \<and> cr_space_id r = Some (eb_default_space_id plugin) \<and> rd_threshold d = Some (cr_threshold r)"
  using assms
  by (auto simp: compute_receptor_def unscored_receptor_def Let_def
      split: if_splits option.splits sum.splits)

lemma select_backend_cases:
  assumes "ac_local_pack_paths cfg \<noteq> []"
  obtains (plugin) b where "select_backend env cfg
      = passthrough\<lparr>al_plugin := Some b, al_space_id := Some (eb_default_space_id b)\<rparr>"
    | (degraded) "al_plugin (select_backend env cfg) = None" "al_degraded (select_backend env cfg)"
proof -
  have "(\<exists>b. select_backend env cfg
          = passthrough\<lparr>al_plugin := Some b, al_space_id := Some (eb_default_space_id b)\<rparr>)
      \<or> al_plugin (select_backend env cfg) = None \<and> al_degraded (select_backend env cfg)"
    using assms
    by (cases "first_enabled_backend (ac_embedding_backends cfg)")
      (auto simp: select_backend_def passthrough_def)
  then show thesis using that by blast
qed

text \<open>A layer that can evaluate anything was built from packs that loaded completely.\<close>

lemma attention_new_ready:
  assumes "\<not> al_degraded (attention_new env cfg)" and "al_receptors (attention_new env cfg) \<noteq> []"
  shows "\<exists>plugin defs.
      load_receptor_packs (env_home env) (env_parse_pack env) (env_fs env) (ac_local_pack_paths cfg)
        = Inr defs
    \<and> al_plugin (attention_new env cfg) = Some plugin
    \<and> al_space_id (attention_new env cfg) = Some (eb_default_space_id plugin)
    \<and> list_all2 (\<lambda>d r. compute_receptor (env_plugin env) plugin d = Inr r) defs
        (al_receptors (attention_new env cfg))"
proof -
  let ?sel = "select_backend env cfg"
  have "ac_local_pack_paths cfg \<noteq> []"
    using assms(2)
    by (auto simp: attention_new_def select_backend_def passthrough_def split: option.splits if_splits)
  then obtain defs layer' where
    load: "load_receptor_packs (env_home env) (env_parse_pack env) (env_fs env)
             (ac_local_pack_paths cfg) = Inr defs"
    and comp: "compute_receptors (env_plugin env) defs ?sel = (Inr (), layer')"
    and new: "attention_new env cfg = layer'"
    using assms(1) by (auto simp: attention_new_def Let_def split: sum.splits prod.splits if_splits)
  from \<open>ac_local_pack_paths cfg \<noteq> []\<close> obtain b where
    b: "?sel = passthrough\<lparr>al_plugin := Some b, al_space_id := Some (eb_default_space_id b)\<rparr>"
  proof (cases rule: select_backend_cases [of cfg env])
    case degraded
    with comp have "al_degraded layer'"
      by (auto simp: compute_receptors_def Let_def split: if_splits)
    with assms(1) new show ?thesis by simp
  qed
  with comp have "compute_receptors_loop (env_plugin env) b defs ?sel = (Inr (), layer')"
    by (simp add: compute_receptors_def)
  from compute_receptors_loop_ok [OF this] b show ?thesis
    unfolding new using load by (auto simp: passthrough_def)
qed

lemma select_message_vector_space:
  "select_message_vector layer supplied = Some (mv, sp) \<Longrightarrow> al_space_id layer = Some sp"
  by (auto simp: select_message_vector_def find_Some_iff split: option.splits)

lemma compute_receptor_no_panic:
  assumes "well_formed_definition d"
  shows "compute_receptor io plugin d \<noteq> Inl ''panic: validated receptor threshold''"
  using assms
  by (auto simp: compute_receptor_def well_formed_definition_def Let_def
      split: option.splits sum.splits)

text \<open>What a delivered message has passed, from the packs on disk to the scores.\<close>

lemma delivered_passed_vetoes:
  assumes "ar_deliver (evaluate_with_embeddings (attention_new env cfg) supplied)"
  shows "\<exists>plugin defs.
      load_receptor_packs (env_home env) (env_parse_pack env) (env_fs env) (ac_local_pack_paths cfg)
        = Inr defs
    \<and> al_plugin (attention_new env cfg) = Some plugin
    \<and> (\<forall>d\<in>set defs. rd_class d = Veto \<longrightarrow>
         (\<exists>mv t vs. select_message_vector (attention_new env cfg) supplied
                      = Some (mv, eb_default_space_id plugin)
            \<and> rd_threshold d = Some t
            \<and> embed (env_plugin env) plugin [trim (rd_query d)] = Inr vs
            \<and> \<not> fge (cosine_similarity mv (last vs)) t))"
proof -
  let ?L = "attention_new env cfg"
  have pol: "policy_delivers ?L supplied" using assms by (simp add: evaluate_deliver_iff)
  then have "\<not> al_degraded ?L" "al_receptors ?L \<noteq> []"
    by (auto simp: policy_delivers_def split: option.splits)
  from attention_new_ready [OF this] obtain plugin defs where
    load: "load_receptor_packs (env_home env) (env_parse_pack env) (env_fs env)
             (ac_local_pack_paths cfg) = Inr defs"
    and plugin: "al_plugin ?L = Some plugin"
    and space: "al_space_id ?L = Some (eb_default_space_id plugin)"
    and comp: "list_all2 (\<lambda>d r. compute_receptor (env_plugin env) plugin d = Inr r) defs
                 (al_receptors ?L)"
    by blast
  have "\<exists>mv t vs. select_message_vector ?L supplied = Some (mv, eb_default_space_id plugin)
      \<and> rd_threshold d = Some t \<and> embed (env_plugin env) plugin [trim (rd_query d)] = Inr vs
      \<and> \<not> fge (cosine_similarity mv (last vs)) t"
    if d: "d \<in> set defs" "rd_class d = Veto" for d
  proof -
    from comp d(1) obtain r where r: "r \<in> set (al_receptors ?L)"
      and cr: "compute_receptor (env_plugin env) plugin d = Inr r"
      by (fastforce simp: list_all2_conv_all_nth in_set_conv_nth)
    from compute_receptor_fields(1) [OF cr] d(2) have veto: "is_veto r" by (simp add: is_veto_def)
    from compute_receptor_fields(2) [OF cr] d(2) obtain vs where
      vs: "embed (env_plugin env) plugin [trim (rd_query d)] = Inr vs"
      and fields: "cr_vector r = Some (last vs)" "cr_space_id r = Some (eb_default_space_id plugin)"
        "rd_threshold d = Some (cr_threshold r)"
      by auto
    from pol veto r obtain mv sp where sel: "select_message_vector ?L supplied = Some (mv, sp)"
      and quiet: "\<not> receptor_fires mv sp r"
      by (auto simp: policy_delivers_def list_ex_iff split: option.splits)
    have "sp = eb_default_space_id plugin"
      using select_message_vector_space [OF sel] space by simp
    with sel quiet vs fields show ?thesis by (auto simp: receptor_fires_def)
  qed
  with load plugin show ?thesis by blast
qed

section \<open>Properties\<close>

text \<open>
  Claim C1. Veto enforcement is fail-closed from configuration to decision: whenever a message
  is delivered by a layer that \<open>AttentionLayer::new\<close> built, the packs loaded, a plugin is active,
  and every veto receptor defined in them was scored against the message's own embedding in the
  plugin's space, with the vector of its query, and the score did not reach its threshold (it is
  not at or above it, as the code compares; a NaN score is not either).
\<close>

theorem veto_enforced:
  assumes "ar_deliver (evaluate_with_embeddings (attention_new env cfg) supplied)"
  shows "\<exists>plugin defs.
      load_receptor_packs (env_home env) (env_parse_pack env) (env_fs env) (ac_local_pack_paths cfg)
        = Inr defs
    \<and> al_plugin (attention_new env cfg) = Some plugin
    \<and> (\<forall>d\<in>set defs. rd_class d = Veto \<longrightarrow>
         (\<exists>mv t vs. select_message_vector (attention_new env cfg) supplied
                      = Some (mv, eb_default_space_id plugin)
            \<and> rd_threshold d = Some t
            \<and> embed (env_plugin env) plugin [trim (rd_query d)] = Inr vs
            \<and> \<not> fge (cosine_similarity mv (last vs)) t))"
  using delivered_passed_vetoes [OF assms] .

text \<open>A concrete host: one pack with a veto and a wildcard, and a plugin that answers.\<close>

definition demo_backend :: EmbeddingBackendConfig where
  "demo_backend =
     \<lparr>eb_backend_id = ''b'', eb_exec_path = ''/bin/embed'', eb_args = [],
      eb_default_space_id = ''s'', eb_enabled = True, eb_env = Map.empty\<rparr>"

definition demo_config :: AttentionConfig where
  "demo_config = \<lparr>ac_local_pack_paths = [''/p.json''], ac_embedding_backends = [demo_backend]\<rparr>"

definition demo_env :: attention_env where
  "demo_env =
     \<lparr>env_home = None,
      env_fs = (\<lambda>p. if p = ''/bin/embed'' \<or> p = ''/p.json'' then Some (RegularFile (Inr ''x'')) else None),
      env_parse_pack = (\<lambda>_. Inr \<lparr>pack_id = [], pack_version = [], pack_receptors =
        [\<lparr>rd_receptor_id = ''spam'', rd_class = Veto, rd_query = ''q'',
          rd_threshold = Some (FFin (1 / 2)), rd_space_id = None\<rparr>,
         \<lparr>rd_receptor_id = ''all'', rd_class = Wildcard, rd_query = [],
          rd_threshold = None, rd_space_id = None\<rparr>]\<rparr>),
      env_parse_json = (\<lambda>_. None),
      env_plugin =
        \<lparr>run_plugin = (\<lambda>_ _. ExitSuccess ''ok''), parse_error = (\<lambda>_. None),
         parse_response = (\<lambda>_. Some \<lparr>er_space_id = ''s'', er_vectors =
           [\<lparr>vr_input_id = ''input_0'', vr_vector = [FFin 1, FFin 0]\<rparr>]\<rparr>)\<rparr>\<rparr>"

definition demo_message :: "f32 list \<Rightarrow> MessageEmbedding list option" where
  "demo_message v = Some [\<lparr>me_space_id = ''s'', me_vector = v\<rparr>]"

theorem veto_enforced_witness:
  "\<exists>plugin defs.
      load_receptor_packs (env_home demo_env) (env_parse_pack demo_env) (env_fs demo_env)
        (ac_local_pack_paths demo_config) = Inr defs
    \<and> al_plugin (attention_new demo_env demo_config) = Some plugin
    \<and> (\<forall>d\<in>set defs. rd_class d = Veto \<longrightarrow>
         (\<exists>mv t vs. select_message_vector (attention_new demo_env demo_config)
                        (demo_message [FFin 0, FFin 1]) = Some (mv, eb_default_space_id plugin)
            \<and> rd_threshold d = Some t
            \<and> embed (env_plugin demo_env) plugin [trim (rd_query d)] = Inr vs
            \<and> \<not> fge (cosine_similarity mv (last vs)) t))"
proof -
  have "ar_deliver (evaluate_with_embeddings (attention_new demo_env demo_config)
          (demo_message [FFin 0, FFin 1]))"
    by code_simp
  then show ?thesis by (rule veto_enforced)
qed

text \<open>
  Claim C7. \<open>evaluate_with_embeddings\<close> decides exactly by the policy, on every branch: the
  disposition is that of the declarative policy, and the message is delivered if and only if
  the disposition is \<open>Deliver\<close>.
\<close>

theorem evaluate_decides_by_policy:
  "ar_disposition (evaluate_with_embeddings layer supplied) = policy_disposition layer supplied
   \<and> (ar_deliver (evaluate_with_embeddings layer supplied) \<longleftrightarrow>
        policy_disposition layer supplied = Deliver)"
proof -
  let ?E = "evaluate_with_embeddings layer supplied" and ?rs = "al_receptors layer"
  have disp: "ar_disposition ?E = policy_disposition layer supplied"
  proof (cases "select_message_vector layer supplied")
    case None
    show ?thesis
      by (auto simp: evaluate_with_embeddings_def policy_disposition_def None Let_def
          evaluate_without_vector_def find_None_list_ex dest: find_Some_list_ex
          split: option.splits)
  next
    case (Some p)
    obtain mv sp where p: "p = (mv, sp)" by (cases p)
    obtain ms flag where scan: "scan_veto mv sp ?rs [] = (ms, flag)" by fastforce
    then have flag: "flag \<longleftrightarrow> list_ex (\<lambda>r. is_veto r \<and> receptor_fires mv sp r) ?rs"
      using scan_veto_flag [of mv sp ?rs "[]"] by simp
    have "ar_disposition (evaluate_interest layer mv sp ms)
        = (if ar_deliver (evaluate_interest layer mv sp ms) then Deliver else Filtered)"
      by (simp add: evaluate_interest_def Let_def split: prod.splits)
    then show ?thesis
      using flag
      by (auto simp: evaluate_with_embeddings_def policy_disposition_def policy_delivers_def
          Some p scan Let_def evaluate_interest_deliver list_ex_iff)
  qed
  with evaluate_disposition_deliver_iff show ?thesis by metis
qed

text \<open>
  Claim C38. A message embedding whose dimension differs from that of every veto vector passes
  all veto receptors with positive thresholds: the score of vectors of different length is 0.
  With a wildcard receptor configured the message is then delivered, although no veto receptor
  compared it with anything.
\<close>

theorem dimension_mismatch_passes_veto:
  assumes "\<not> al_veto_enforcement_unavailable layer" and "\<not> al_degraded layer"
    and "list_ex is_wildcard (al_receptors layer)"
    and "select_message_vector layer supplied = Some (mv, sp)"
    and "\<forall>r\<in>set (al_receptors layer). is_veto r \<longrightarrow>
           \<not> fle (cr_threshold r) (FFin 0) \<and> (\<forall>rv. cr_vector r = Some rv \<longrightarrow> length rv \<noteq> length mv)"
  shows "ar_deliver (evaluate_with_embeddings layer supplied)"
proof -
  have "\<not> receptor_fires mv sp r" if "r \<in> set (al_receptors layer)" "is_veto r" for r
    using assms(5) that cosine_dim_mismatch [of mv]
    by (fastforce simp: receptor_fires_def split: option.splits)
  then show ?thesis
    using assms(1-4) by (auto simp: evaluate_deliver_iff policy_delivers_def list_ex_iff)
qed

lemma demo_layer:
  "attention_new demo_env demo_config =
     \<lparr>al_receptors =
        [\<lparr>cr_receptor_id = ''spam'', cr_class = Veto, cr_threshold = FFin (1 / 2),
          cr_vector = Some [FFin 1, FFin 0], cr_space_id = Some ''s''\<rparr>,
         \<lparr>cr_receptor_id = ''all'', cr_class = Wildcard, cr_threshold = FFin 1,
          cr_vector = None, cr_space_id = None\<rparr>],
      al_plugin = Some demo_backend, al_space_id = Some ''s'', al_degraded = False,
      al_veto_enforcement_unavailable = False\<rparr>"
proof -
  have paths: "ac_local_pack_paths demo_config = [''/p.json'']" by (simp add: demo_config_def)
  have sel: "select_backend demo_env demo_config =
      passthrough\<lparr>al_plugin := Some demo_backend, al_space_id := Some ''s''\<rparr>"
    by (simp add: select_backend_def demo_config_def demo_env_def demo_backend_def
        first_enabled_backend_def plugin_is_available_def fs_exists_def)
  have load: "load_receptor_packs (env_home demo_env) (env_parse_pack demo_env) (env_fs demo_env)
      [''/p.json''] = Inr [\<lparr>rd_receptor_id = ''spam'', rd_class = Veto, rd_query = ''q'',
          rd_threshold = Some (FFin (1 / 2)), rd_space_id = None\<rparr>,
         \<lparr>rd_receptor_id = ''all'', rd_class = Wildcard, rd_query = [],
          rd_threshold = None, rd_space_id = None\<rparr>]"
    by code_simp
  have emb: "embed (env_plugin demo_env) demo_backend [trim ''q''] = Inr [[FFin 1, FFin 0]]"
    by code_simp
  show ?thesis
    by (simp add: attention_new_def paths sel load Let_def compute_receptors_def passthrough_def
        compute_receptor_def emb unscored_receptor_def andthen_def op_defs push_receptor_def)
      (simp add: demo_backend_def)
qed

theorem dimension_mismatch_passes_veto_witness:
  "ar_deliver (evaluate_with_embeddings (attention_new demo_env demo_config)
     (demo_message [FFin 1, FFin 0, FFin 0]))"
  by (rule dimension_mismatch_passes_veto [where mv = "[FFin 1, FFin 0, FFin 0]" and sp = "''s''"])
    (simp_all add: demo_layer demo_message_def select_message_vector_def is_wildcard_def is_veto_def)

text \<open>
  Claim C39. A message embedding with a component of magnitude \<open>2 ^ 64\<close> or more, which \<open>f32\<close> holds,
  passes all veto receptors with positive thresholds, whatever its direction and whatever vectors
  they have: its squares overflow, its norm is infinite, and the score is 0 or NaN. With a wildcard
  receptor configured the message is then delivered. A sender evades the vetoes by scaling the
  embedding, which does not change the direction that the cosine is meant to compare.
\<close>

theorem overflowing_embedding_passes_veto:
  assumes "\<not> al_veto_enforcement_unavailable layer" and "\<not> al_degraded layer"
    and "list_ex is_wildcard (al_receptors layer)"
    and "select_message_vector layer supplied = Some (mv, sp)"
    and "FFin p \<in> set mv" and "2 ^ 64 \<le> \<bar>p\<bar>"
    and "\<forall>r\<in>set (al_receptors layer). is_veto r \<longrightarrow> \<not> fle (cr_threshold r) (FFin 0)"
  shows "ar_deliver (evaluate_with_embeddings layer supplied)"
proof -
  have "\<not> receptor_fires mv sp r" if "r \<in> set (al_receptors layer)" "is_veto r" for r
  proof -
    have "\<not> fge (cosine_similarity mv rv) (cr_threshold r)" for rv
      using assms(7) that cosine_overflown [OF assms(5,6), of rv] by auto
    then show ?thesis by (auto simp: receptor_fires_def split: option.splits)
  qed
  then show ?thesis
    using assms(1-4) by (auto simp: evaluate_deliver_iff policy_delivers_def list_ex_iff)
qed

text \<open>The veto receptor \<open>spam\<close> rejects an embedding, and lets it pass when it is multiplied by \<open>2 ^ 100\<close>.\<close>

theorem overflowing_embedding_passes_veto_witness:
  "ar_disposition (evaluate_with_embeddings (attention_new demo_env demo_config)
     (demo_message [FFin 1, FFin 0])) = Vetoed
   \<and> ar_deliver (evaluate_with_embeddings (attention_new demo_env demo_config)
     (demo_message [FFin (2 ^ 100 * 1), FFin (2 ^ 100 * 0)]))"
proof
  show "ar_disposition (evaluate_with_embeddings (attention_new demo_env demo_config)
     (demo_message [FFin 1, FFin 0])) = Vetoed"
    unfolding demo_layer by code_simp
  show "ar_deliver (evaluate_with_embeddings (attention_new demo_env demo_config)
     (demo_message [FFin (2 ^ 100 * 1), FFin (2 ^ 100 * 0)]))"
    by (rule overflowing_embedding_passes_veto [where mv = "[FFin (2 ^ 100 * 1), FFin (2 ^ 100 * 0)]"
          and sp = "''s''" and p = "2 ^ 100 * 1"])
      (simp_all add: demo_layer demo_message_def select_message_vector_def is_wildcard_def is_veto_def)
qed

end
