(* ===== verification/Retry.thy ===== *)
theory Retry
  imports Host_Env
begin

text \<open>
  Backoff with jitter, \<^verbatim>\<open>src/src/retry.rs\<close>, and the retry settings of
  \<^verbatim>\<open>src/src/config.rs\<close> that it is used with. The value of \<open>rand::random::<f64>()\<close> is an
  argument. The sum \<open>base_ms as i64 + delta\<close> wraps, as it does in a release build.
\<close>

record StormGuardConfig =
  sg_failure_window_ms :: u64
  sg_consecutive_failure_threshold :: u32
  sg_cooldown_ms :: u64
  sg_max_cooldown_ms :: u64

record RetryConfig =
  rc_base_ms :: u64
  rc_max_ms :: u64
  rc_jitter_ratio :: f64
  rc_storm_guard :: StormGuardConfig

definition default_storm_guard :: StormGuardConfig where
  "default_storm_guard =
     \<lparr>sg_failure_window_ms = 300000, sg_consecutive_failure_threshold = 10,
      sg_cooldown_ms = 300000, sg_max_cooldown_ms = 3600000\<rparr>"

definition jitter :: "f64 \<Rightarrow> u64 \<Rightarrow> f64 \<Rightarrow> u64" where
  "jitter rnd base_ms ratio =
     (if fle ratio (FFin 0) then base_ms
      else let spread = f64_round_as_i64 (fmul F64 (fround F64 (of_int (uint base_ms))) ratio);
               delta = f64_round_as_i64 (fmul F64 rnd (fmul F64 (fround F64 (of_int spread)) (FFin 2)))
                       - spread;
               total = word_of_int (sint base_ms + delta) :: u64
           in if sint total < 0 then 0 else total)"

lemma jitter_off: "fle ratio (FFin 0) \<Longrightarrow> jitter rnd base_ms ratio = base_ms"
  by (simp add: jitter_def)

section \<open>Rounding is exact on small integers and monotone towards them\<close>

lemma pow2_neg_int: "e \<le> 0 \<Longrightarrow> 1 / pow2 e = of_int (2 ^ nat (- e))"
  by (simp add: pow2_def)

lemma round_even_le_int: "r \<le> of_int N \<Longrightarrow> round_even r \<le> N"
proof -
  assume r: "r \<le> of_int N"
  then have "\<lfloor>r\<rfloor> \<le> N" by (simp add: floor_le_iff)
  moreover have "r = of_int \<lfloor>r\<rfloor>" if "\<lfloor>r\<rfloor> = N" using r that by linarith
  ultimately have "\<lfloor>r\<rfloor> + 1 \<le> N \<or> r = of_int N" by linarith
  then show ?thesis
  proof
    assume "\<lfloor>r\<rfloor> + 1 \<le> N"
    then show ?thesis by (simp add: round_even_def Let_def)
  next
    assume "r = of_int N"
    then show ?thesis by (simp add: round_even_def Let_def)
  qed
qed

lemma round_even_of_int [simp]: "round_even (of_int N) = N"
  by (simp add: round_even_def Let_def)

lemma round_even_nonneg: "0 \<le> r \<Longrightarrow> 0 \<le> round_even r"
  using round_even_ge [of 0 r] by simp

text \<open>
  A non-negative value below an integer of at most 53 bits does not round above that integer,
  and the integer itself is exact.
\<close>

lemma fround_le_int:
  assumes "0 \<le> x" and "x \<le> of_int n" and "n < 2 ^ 53"
  shows "\<exists>z. fround F64 x = FFin z \<and> 0 \<le> z \<and> z \<le> of_int n \<and> (x = of_int n \<longrightarrow> z = x)"
proof (cases "x = 0")
  case True
  then show ?thesis using assms by (simp add: fround_def)
next
  case False
  with assms have x: "0 < x" by simp
  define q where "q = max (ilog2 x - 52) (- 1074)"
  have n: "of_int n < (2::rat) ^ 53"
    using assms(3) by (metis of_int_less_iff of_int_numeral of_int_power)
  then have "2 powi ilog2 x < (2::rat) powi 53"
    using ilog2_bounds(1) [OF x] assms(2) by (simp add: pow2_powi)
  then have "ilog2 x < 53"
    using power_int_increasing [of 53 "ilog2 x" "2::rat"] by force
  then have q: "q \<le> 0" by (simp add: q_def)
  define N where "N = n * 2 ^ nat (- q)"
  have N: "of_int n / pow2 q = of_int N"
    using pow2_neg_int [OF q] by (simp add: N_def divide_inverse)
  have scale: "of_int N * pow2 q = of_int n"
    unfolding N [symmetric] using pow2_pos [of q] by (simp add: less_imp_neq [symmetric])
  define y where "y = of_int (round_even (x / pow2 q)) * pow2 q"
  have "x / pow2 q \<le> of_int N"
    using assms(2) by (simp flip: N add: divide_right_mono less_imp_le)
  then have "of_int (round_even (x / pow2 q)) * pow2 q \<le> of_int N * pow2 q"
    using round_even_le_int by (simp add: mult_right_mono less_imp_le)
  then have yn: "y \<le> of_int n" by (simp add: y_def scale)
  have y0: "0 \<le> y"
    using x by (simp add: y_def round_even_nonneg divide_nonneg_nonneg less_imp_le)
  have ex: "y = x" if "x = of_int n"
    using that scale by (simp add: y_def N)
  have "of_int n \<le> (2::rat) ^ 53"
    using n by simp
  also have "\<dots> \<le> max_fin F64" by (simp add: F64_def)
  finally have "\<not> max_fin F64 < y" using yn by linarith
  then have "fround F64 x = FFin y"
    using x by (simp add: fround_def Let_def y_def q_def F64_def)
  with y0 yn ex show ?thesis by blast
qed

lemma fround_int: "0 \<le> n \<Longrightarrow> n < 2 ^ 53 \<Longrightarrow> fround F64 (of_int n) = FFin (of_int n)"
  using fround_le_int [of "of_int n" n] by force

lemma round_away_bounds:
  assumes "0 \<le> z" and "z \<le> of_int n" and "n < 2 ^ 53"
  shows "0 \<le> f64_round_as_i64 (FFin z) \<and> f64_round_as_i64 (FFin z) \<le> n"
proof -
  have "\<lfloor>z + 1 / 2\<rfloor> \<le> n" using assms(2) by linarith
  moreover have "0 \<le> \<lfloor>z + 1 / 2\<rfloor>" using assms(1) by linarith
  ultimately show ?thesis using assms by (simp add: round_away_def floor_eq_iff)
qed

section \<open>Properties\<close>

text \<open>
  Jitter keeps a backoff within its relative spread: for a base below \<open>2 ^ 51\<close>
  milliseconds, a ratio in (0, 1] and a draw in [0, 1] the result differs from the base by at
  most \<open>spread = round (base * ratio)\<close>, which is itself at most the base; in particular nothing
  wraps and the backoff is at most doubled.
\<close>

theorem jitter_within_spread:
  assumes base: "uint base_ms < 2 ^ 51" and ratio: "0 < \<rho>" "\<rho> \<le> 1" and draw: "0 \<le> r" "r \<le> 1"
  defines "spread \<equiv> f64_round_as_i64 (fmul F64 (fround F64 (of_int (uint base_ms))) (FFin \<rho>))"
  shows "0 \<le> spread \<and> spread \<le> uint base_ms
    \<and> uint base_ms - spread \<le> uint (jitter (FFin r) base_ms (FFin \<rho>))
    \<and> uint (jitter (FFin r) base_ms (FFin \<rho>)) \<le> uint base_ms + spread"
proof -
  define b where "b = uint base_ms"
  have b: "0 \<le> b" "b < 2 ^ 51" using base by (simp_all add: b_def)
  have fb: "fround F64 (of_int b) = FFin (of_int b)" using b by (intro fround_int) auto
  have "0 \<le> of_int b * \<rho>" "of_int b * \<rho> \<le> of_int b"
    using ratio b by (auto intro!: mult_nonneg_nonneg mult_left_le)
  then obtain z where z: "fround F64 (of_int b * \<rho>) = FFin z" "0 \<le> z" "z \<le> of_int b"
    using fround_le_int [of "of_int b * \<rho>" b] b by auto
  have spread: "spread = f64_round_as_i64 (FFin z)"
    unfolding spread_def b_def [symmetric] fb fmul.simps z(1) by (rule refl)
  have s: "0 \<le> spread" "spread \<le> b"
    using round_away_bounds [OF z(2,3)] b unfolding spread by auto
  have fs: "fround F64 (of_int spread) = FFin (of_int spread)"
    using s b by (intro fround_int) auto
  have "fround F64 (of_int (spread * 2)) = FFin (of_int (spread * 2))"
    using s b by (intro fround_int) auto
  then have f2: "fmul F64 (fround F64 (of_int spread)) (FFin 2) = FFin (of_int (spread * 2))"
    by (simp add: fs)
  have "0 \<le> r * of_int (spread * 2)" "r * of_int (spread * 2) \<le> of_int (spread * 2)"
    using draw s by (auto simp: mult_left_le_one_le)
  then obtain w where w: "fround F64 (r * of_int (spread * 2)) = FFin w" "0 \<le> w" "w \<le> of_int (spread * 2)"
    using fround_le_int [of "r * of_int (spread * 2)" "spread * 2"] s b by auto
  define delta where "delta = f64_round_as_i64 (FFin w) - spread"
  have d: "- spread \<le> delta" "delta \<le> spread"
    using round_away_bounds [OF w(2,3)] s b unfolding delta_def by auto
  have sb: "sint base_ms = b"
    using b by (simp add: sint_uint signed_take_bit_int_eq_self flip: b_def)
  have u64: "uint (word_of_int (b + delta) :: u64) = b + delta"
    unfolding uint_word_of_int using s d b by (simp add: mod_pos_pos_trivial)
  have i64: "sint (word_of_int (b + delta) :: u64) = b + delta"
    unfolding sint_uint u64 using s d b by (simp add: signed_take_bit_int_eq_self)
  have "jitter (FFin r) base_ms (FFin \<rho>)
      = (if sint (word_of_int (b + delta) :: u64) < 0 then 0 else word_of_int (b + delta))"
    using ratio
    unfolding jitter_def Let_def spread_def [symmetric] f2 fmul.simps w(1) delta_def [symmetric] sb
    by simp
  then have "uint (jitter (FFin r) base_ms (FFin \<rho>)) = b + delta"
    using i64 u64 s d by simp
  with s d show ?thesis by (simp flip: b_def)
qed

theorem jitter_within_spread_witness:
  "uint (jitter (FFin (1 / 2)) 1000 (FFin (1 / 5))) \<le> 1200"
proof -
  have "f64_round_as_i64 (fmul F64 (fround F64 (of_int (uint (1000 :: u64)))) (FFin (1 / 5))) = 200"
    using fround_int [of 1000] fround_int [of 200] by (simp add: round_away_def floor_eq_iff)
  with jitter_within_spread [of 1000 "1 / 5" "1 / 2"] show ?thesis by simp
qed

end
