(* ===== verification/Config_Model.thy ===== *)
theory Config_Model
  imports Attention Retry
begin

text \<open>
  The configuration, \<^verbatim>\<open>src/src/config.rs\<close>: the stored form, the validated form, and the
  translation \<open>Config::from_stored\<close> with its normalisation of URLs, paths, scopes, sinks and hooks.

  Parsing of URLs and of JSON, and Rust's \<open>{:?}\<close> format for strings, are fields of the environment
  \<open>config_env\<close>. Of a parsed URL the record \<open>url\<close> keeps what its accessors return.
\<close>

section \<open>Validated configuration\<close>

record GatewayConfig =
  gw_ws_url :: string
  gw_client_id :: string
  gw_client_mode :: string
  gw_display_name :: string
  gw_device_id :: "string option"
  gw_shared_token :: "string option"
  gw_shared_password :: "string option"
  gw_requested_role :: string
  gw_requested_scopes :: "string list"

record ServerConfig =
  sv_base_url :: string
  sv_websocket_url :: string
  sv_enabled :: bool
  sv_server_key :: string
  sv_registration_name :: string
  sv_identity :: "string option"
  sv_local_pack_paths :: "string list option"
  sv_session_path :: string
  sv_runtime_path :: string
  sv_wake_session_key :: "string option"

record ReplayConfig =
  rp_dedupe_window_size :: nat
  rp_discard_before_ts :: "string option"

record LoggingConfig =
  lg_level :: string
  lg_json :: bool

record StorageConfig =
  sc_database_path :: string
  sc_artifact_root :: string
  sc_auto_migrate :: bool

datatype SinkKind = Db | AgentSessionWake

record SinkConfig =
  sk_key :: string
  sk_kind :: SinkKind
  sk_enabled :: bool
  sk_destination :: "string option"

record HardFailureHookConfig =
  hk_key :: string
  hk_command :: string
  hk_args :: "string list"
  hk_env :: "string \<rightharpoonup> string"
  hk_template :: string
  hk_timeout_ms :: u64
  hk_throttle_ms :: u64
  hk_enabled :: bool

record AppPaths =
  ap_root :: string
  ap_config_path :: string
  ap_socket_path :: string
  ap_log_file :: string
  ap_identities_dir :: string
  ap_gateway_private_key_path :: string
  ap_gateway_public_key_path :: string
  ap_gateway_device_auth_store_path :: string
  ap_launchd_plist_path :: string
  ap_state_lock_path :: string

record Config =
  cf_gateway :: GatewayConfig
  cf_servers :: "ServerConfig list"
  cf_attention :: AttentionConfig
  cf_wake_session_key :: string \<comment> \<open>\<open>RoutingConfig\<close>\<close>
  cf_replay :: ReplayConfig
  cf_logging :: LoggingConfig
  cf_retry :: RetryConfig
  cf_storage :: StorageConfig
  cf_sinks :: "SinkConfig list"
  cf_hard_failure_hooks :: "HardFailureHookConfig list"
  cf_paths :: AppPaths

section \<open>Stored configuration\<close>

record StoredGatewayConfig =
  sg_ws_url :: "string option"
  sg_client_id :: "string option"
  sg_client_mode :: "string option"
  sg_display_name :: "string option"
  sg_device_id :: "string option"
  sg_requested_role :: "string option"
  sg_requested_scopes :: "string list option"

record StoredServerConfig =
  ss_base_url :: string
  ss_registration_name :: "string option"
  ss_identity :: "string option"
  ss_local_pack_paths :: "string list option"
  ss_enabled :: "bool option"
  ss_wake_session_key :: "string option"

record StoredStormGuardConfig =
  sw_failure_window_ms :: "u64 option"
  sw_consecutive_failure_threshold :: "u32 option"
  sw_cooldown_ms :: "u64 option"
  sw_max_cooldown_ms :: "u64 option"

record StoredRetryConfig =
  sr_base_ms :: "u64 option"
  sr_max_ms :: "u64 option"
  sr_jitter_ratio :: "f64 option"
  sr_storm_guard :: StoredStormGuardConfig

record StoredSinkConfig =
  sks_key :: "string option"
  sks_kind :: string
  sks_enabled :: "bool option"
  sks_destination :: "string option"

record StoredHardFailureHookConfig =
  shk_key :: "string option"
  shk_command :: string
  shk_args :: "string list"
  shk_env :: "string \<rightharpoonup> string"
  shk_template :: "string option"
  shk_timeout_ms :: "u64 option"
  shk_throttle_ms :: "u64 option"
  shk_enabled :: "bool option"

record StoredEmbeddingBackend =
  sb_backend_id :: string
  sb_exec :: string
  sb_args :: "string list"
  sb_default_space_id :: string
  sb_enabled :: bool
  sb_env :: "string \<rightharpoonup> string"

record StoredAttentionConfig =
  sa_local_pack_paths :: "string list"
  sa_embedding_backends :: "StoredEmbeddingBackend list"

record StoredConfig =
  so_gateway :: StoredGatewayConfig
  so_servers :: "StoredServerConfig list"
  so_attention :: StoredAttentionConfig
  so_wake_session_key :: "string option" \<comment> \<open>\<open>StoredRoutingConfig\<close>\<close>
  so_dedupe_window_size :: "nat option" \<comment> \<open>\<open>StoredReplayConfig\<close>\<close>
  so_discard_before_ts :: "string option"
  so_socket_path :: "string option" \<comment> \<open>\<open>StoredIpcConfig\<close>\<close>
  so_logging_level :: "string option" \<comment> \<open>\<open>StoredLoggingConfig\<close>\<close>
  so_logging_file :: "string option"
  so_logging_json :: "bool option"
  so_retry :: StoredRetryConfig
  so_database_path :: "string option" \<comment> \<open>\<open>StoredStorageConfig\<close>\<close>
  so_artifact_root :: "string option"
  so_auto_migrate :: "bool option"
  so_sinks :: "StoredSinkConfig list option"
  so_hard_failure_hooks :: "StoredHardFailureHookConfig list option"

definition default_stored_config :: StoredConfig where
  "default_stored_config =
     \<lparr>so_gateway = \<lparr>sg_ws_url = None, sg_client_id = None, sg_client_mode = None,
        sg_display_name = None, sg_device_id = None, sg_requested_role = None,
        sg_requested_scopes = None\<rparr>,
      so_servers = [],
      so_attention = \<lparr>sa_local_pack_paths = [], sa_embedding_backends = []\<rparr>,
      so_wake_session_key = None, so_dedupe_window_size = None, so_discard_before_ts = None,
      so_socket_path = None, so_logging_level = None, so_logging_file = None,
      so_logging_json = None,
      so_retry = \<lparr>sr_base_ms = None, sr_max_ms = None, sr_jitter_ratio = None,
        sr_storm_guard = \<lparr>sw_failure_window_ms = None, sw_consecutive_failure_threshold = None,
          sw_cooldown_ms = None, sw_max_cooldown_ms = None\<rparr>\<rparr>,
      so_database_path = None, so_artifact_root = None, so_auto_migrate = None,
      so_sinks = None, so_hard_failure_hooks = None\<rparr>"

record url =
  u_scheme :: string
  u_username :: string
  u_password :: "string option"
  u_host_str :: "string option"
  u_port :: "u16 option"
  u_port_or_known_default :: "u16 option"
  u_path :: string
  u_path_segments :: "string list option"
  u_query :: "string option"
  u_fragment :: "string option"

record config_env =
  ce_home :: "string option"
  ce_fs :: fsys
  ce_parse_url :: "string \<Rightarrow> url result"
  ce_parse_json :: "string \<Rightarrow> json option"
  ce_parse_stored :: "string \<Rightarrow> StoredConfig option"
  ce_print_stored :: "StoredConfig \<Rightarrow> string"
  ce_debug :: "string \<Rightarrow> string"

definition unwrap_or :: "'a \<Rightarrow> 'a option \<Rightarrow> 'a" where
  "unwrap_or d x = (case x of None \<Rightarrow> d | Some y \<Rightarrow> y)"

lemma unwrap_or_simps [simp]: "unwrap_or d None = d" "unwrap_or d (Some y) = y"
  by (simp_all add: unwrap_or_def)

end
