(* ===== verification/Subspace_Identity.thy ===== *)
theory Subspace_Identity
  imports Host_Env Config_Model
begin

text \<open>
  Identities and sessions of the Subspace side, \<^verbatim>\<open>src/src/subspace/identity.rs\<close>: named key pairs
  kept as files of the identities directory, the session of a server, and the older session files
  that carry their key pair inline.

  Signing, Base64, PKCS 8 and the JSON text of the files are library code, the fields of
  \<open>identity_lib\<close>; a signing key is its 32 bytes. The operations work on \<open>host\<close>, the file tree
  together with what writing a file, creating a directory
  and setting permissions answer for a path.
\<close>

section \<open>The host\<close>

record host =
  ho_fs :: fsys
  ho_write :: "string \<Rightarrow> unit result"
  ho_mkdir :: "string \<Rightarrow> unit result"
  ho_chmod :: "string \<Rightarrow> unit result"

definition persist_json :: "string \<Rightarrow> string \<Rightarrow> (host, unit) op" where
  "persist_json path text h =
     (case ho_write h path of
        Inl e \<Rightarrow> (Inl e, h)
      | Inr _ \<Rightarrow> (Inr (), h\<lparr>ho_fs := fs_run (write_json_atomic path text) (ho_fs h)\<rparr>))"

text \<open>\<open>.context(..)\<close>: the message of the error that is shown.\<close>

definition with_context :: "string \<Rightarrow> 'a result \<Rightarrow> 'a result" where
  "with_context msg r = (case r of Inl _ \<Rightarrow> Inl msg | Inr x \<Rightarrow> Inr x)"

lemma with_context_simps [simp]:
  "with_context msg (Inr x) = Inr x" "with_context msg (Inl e) = Inl msg"
  by (simp_all add: with_context_def)

section \<open>Records\<close>

record NamedIdentityRecord =
  ni_name :: string
  ni_public_key :: string
  ni_signing_key :: string

record IdentityFile =
  if_name :: string
  if_created_at :: string
  if_public_key :: string
  if_private_key :: string

record LegacySessionFile =
  lf_version :: "8 word"
  lf_public_key :: string
  lf_private_key :: string
  lf_owner :: string
  lf_name :: string
  lf_session_token :: "string option"
  lf_session_expires_at :: "string option"

record SubspaceSessionRecord =
  se_identity :: string
  se_agent_id :: string
  se_session_token :: "string option"
  se_session_expires_at :: "string option"

record LegacySubspaceSessionRecord =
  lg_agent_id :: string
  lg_registration_name :: string
  lg_session_token :: "string option"
  lg_session_expires_at :: "string option"
  lg_signing_key :: string

datatype LoadedSessionRecord =
    CurrentSession SubspaceSessionRecord
  | LegacySession LegacySubspaceSessionRecord

record identity_lib =
  il_verifying_key :: "string \<Rightarrow> string"
  il_sign :: "string \<Rightarrow> string \<Rightarrow> string"
  il_b64_encode :: "string \<Rightarrow> string"
  il_b64_decode :: "string \<Rightarrow> string result"
  il_pkcs8_encode :: "string \<Rightarrow> string result"
  il_pkcs8_decode :: "string \<Rightarrow> string result"
  il_parse_identity :: "string \<Rightarrow> IdentityFile result"
  il_print_identity :: "IdentityFile \<Rightarrow> string"
  il_parse_session :: "string \<Rightarrow> SubspaceSessionRecord result"
  il_print_session :: "SubspaceSessionRecord \<Rightarrow> string"
  il_parse_legacy :: "string \<Rightarrow> LegacySessionFile result"
  il_print_legacy :: "LegacySessionFile \<Rightarrow> string"
  il_debug :: "string \<Rightarrow> string"
  il_now :: "string result"

definition default_subspace_owner :: string where
  "default_subspace_owner = ''openclaw''"

section \<open>Named identities\<close>

definition validate_name :: "string \<Rightarrow> string result" where
  "validate_name raw =
     (if trim raw = [] then Inl ''identity name must not be empty'' else Inr (trim raw))"

definition identity_of_file :: "identity_lib \<Rightarrow> string \<Rightarrow> IdentityFile \<Rightarrow> NamedIdentityRecord result" where
  "identity_of_file lib path parsed =
     (let stem = unwrap_or [] (file_stem path)
      in rbind (bail_if (if_name parsed \<noteq> stem)
                  (''identity file name mismatch: expected '' @ il_debug lib stem @ '', got ''
                   @ il_debug lib (if_name parsed))) (\<lambda>_.
         rbind (with_context ''invalid identity private key'' (il_b64_decode lib (if_private_key parsed))) (\<lambda>private_key.
         rbind (bail_if (length private_key \<noteq> 32) ''invalid Ed25519 private key length'') (\<lambda>_.
         Inr \<lparr>ni_name = if_name parsed, ni_public_key = if_public_key parsed,
              ni_signing_key = private_key\<rparr>))))"

definition identity_load :: "identity_lib \<Rightarrow> string \<Rightarrow> (host, NamedIdentityRecord option) op" where
  "identity_load lib path h =
     (if \<not> fs_exists (ho_fs h) path then (Inr None, h)
      else (rbind (fs_read (ho_fs h) path) (\<lambda>raw.
            rbind (il_parse_identity lib raw) (\<lambda>parsed.
            rbind (identity_of_file lib path parsed) (\<lambda>r. Inr (Some r)))), h))"

definition identity_persist :: "identity_lib \<Rightarrow> string \<Rightarrow> NamedIdentityRecord \<Rightarrow> (host, unit) op" where
  "identity_persist lib path r =
     andthen (lift (il_now lib)) (\<lambda>now.
     persist_json path (il_print_identity lib
       \<lparr>if_name = ni_name r, if_created_at = now, if_public_key = ni_public_key r,
        if_private_key = il_b64_encode lib (ni_signing_key r)\<rparr>))"

definition identity_path :: "string \<Rightarrow> string \<Rightarrow> string" where
  "identity_path dir name = path_join dir (name @ ''.json'')"

text \<open>The argument \<open>fresh\<close> is the key that \<open>SigningKey::generate(&mut OsRng)\<close> answers.\<close>

definition load_or_create :: "identity_lib \<Rightarrow> string \<Rightarrow> string \<Rightarrow> string \<Rightarrow> (host, NamedIdentityRecord) op" where
  "load_or_create lib fresh dir name =
     andthen (lift (validate_name name)) (\<lambda>identity_name.
     let path = identity_path dir identity_name
     in andthen (identity_load lib path) (\<lambda>existing.
        case existing of
          Some r \<Rightarrow> ret r
        | None \<Rightarrow>
            let r = \<lparr>ni_name = identity_name,
                     ni_public_key = il_b64_encode lib (il_verifying_key lib fresh),
                     ni_signing_key = fresh\<rparr>
            in andthen (identity_persist lib path r) (\<lambda>_. ret r)))"

definition sign_canonical_payload :: "identity_lib \<Rightarrow> string \<Rightarrow> string \<Rightarrow> string" where
  "sign_canonical_payload lib key payload = il_b64_encode lib (il_sign lib key payload)"

definition ensure_matches_agent_id :: "identity_lib \<Rightarrow> NamedIdentityRecord \<Rightarrow> string \<Rightarrow> unit result" where
  "ensure_matches_agent_id lib r agent_id =
     bail_if (ni_public_key r \<noteq> agent_id)
       (''identity '' @ il_debug lib (ni_name r) @ '' public key does not match session agent_id '' @ agent_id)"

definition load_or_create_from_legacy :: "identity_lib \<Rightarrow> string \<Rightarrow> string
    \<Rightarrow> LegacySubspaceSessionRecord \<Rightarrow> (host, NamedIdentityRecord) op" where
  "load_or_create_from_legacy lib dir name legacy =
     andthen (lift (validate_name name)) (\<lambda>identity_name.
     let path = identity_path dir identity_name
     in andthen (identity_load lib path) (\<lambda>existing.
        case existing of
          Some r \<Rightarrow> andthen (lift (ensure_matches_agent_id lib r (lg_agent_id legacy))) (\<lambda>_. ret r)
        | None \<Rightarrow>
            let r = \<lparr>ni_name = identity_name, ni_public_key = lg_agent_id legacy,
                     ni_signing_key = lg_signing_key legacy\<rparr>
            in andthen (identity_persist lib path r) (\<lambda>_. ret r)))"

section \<open>Sessions\<close>

definition session_new :: "string \<Rightarrow> string \<Rightarrow> SubspaceSessionRecord" where
  "session_new identity agent_id =
     \<lparr>se_identity = identity, se_agent_id = agent_id, se_session_token = None,
      se_session_expires_at = None\<rparr>"

definition session_load :: "identity_lib \<Rightarrow> string \<Rightarrow> (host, SubspaceSessionRecord option) op" where
  "session_load lib path h =
     (if \<not> fs_exists (ho_fs h) path then (Inr None, h)
      else (rbind (fs_read (ho_fs h) path) (\<lambda>raw.
            rbind (il_parse_session lib raw) (\<lambda>parsed. Inr (Some parsed))), h))"

definition session_persist :: "identity_lib \<Rightarrow> string \<Rightarrow> SubspaceSessionRecord \<Rightarrow> (host, unit) op" where
  "session_persist lib path s = persist_json path (il_print_session lib s)"

definition session_clear_token :: "SubspaceSessionRecord \<Rightarrow> SubspaceSessionRecord" where
  "session_clear_token s = s\<lparr>se_session_token := None, se_session_expires_at := None\<rparr>"

definition session_update_token :: "string \<Rightarrow> string option \<Rightarrow> SubspaceSessionRecord \<Rightarrow> SubspaceSessionRecord" where
  "session_update_token token expires_at s =
     s\<lparr>se_session_token := Some token, se_session_expires_at := expires_at\<rparr>"

definition legacy_clear_token :: "LegacySubspaceSessionRecord \<Rightarrow> LegacySubspaceSessionRecord" where
  "legacy_clear_token s = s\<lparr>lg_session_token := None, lg_session_expires_at := None\<rparr>"

definition legacy_update_token :: "string \<Rightarrow> string option \<Rightarrow> LegacySubspaceSessionRecord
    \<Rightarrow> LegacySubspaceSessionRecord" where
  "legacy_update_token token expires_at s =
     s\<lparr>lg_session_token := Some token, lg_session_expires_at := expires_at\<rparr>"

definition legacy_persist :: "identity_lib \<Rightarrow> string \<Rightarrow> LegacySubspaceSessionRecord \<Rightarrow> (host, unit) op" where
  "legacy_persist lib path s =
     andthen (lift (il_pkcs8_encode lib (lg_signing_key s))) (\<lambda>private_key.
     persist_json path (il_print_legacy lib
       \<lparr>lf_version = 1, lf_public_key = lg_agent_id s,
        lf_private_key = il_b64_encode lib private_key, lf_owner = default_subspace_owner,
        lf_name = lg_registration_name s, lf_session_token = lg_session_token s,
        lf_session_expires_at = lg_session_expires_at s\<rparr>))"

definition migrate_to_identity :: "identity_lib \<Rightarrow> LegacySubspaceSessionRecord \<Rightarrow> NamedIdentityRecord
    \<Rightarrow> SubspaceSessionRecord result" where
  "migrate_to_identity lib s r =
     rbind (ensure_matches_agent_id lib r (lg_agent_id s)) (\<lambda>_.
     let session = session_new (ni_name r) (lg_agent_id s)
     in Inr (case lg_session_token s of
               Some token \<Rightarrow> session_update_token token (lg_session_expires_at s) session
             | None \<Rightarrow> session))"

definition session_of_legacy_file :: "identity_lib \<Rightarrow> LegacySessionFile \<Rightarrow> LegacySubspaceSessionRecord result" where
  "session_of_legacy_file lib parsed =
     rbind (with_context ''invalid legacy session private key'' (il_b64_decode lib (lf_private_key parsed))) (\<lambda>der.
     rbind (il_pkcs8_decode lib der) (\<lambda>key.
     Inr \<lparr>lg_agent_id = lf_public_key parsed, lg_registration_name = lf_name parsed,
          lg_session_token = lf_session_token parsed,
          lg_session_expires_at = lf_session_expires_at parsed, lg_signing_key = key\<rparr>))"

definition load_session_record :: "identity_lib \<Rightarrow> string \<Rightarrow> (host, LoadedSessionRecord option) op" where
  "load_session_record lib path h =
     (if \<not> fs_exists (ho_fs h) path then (Inr None, h)
      else (rbind (fs_read (ho_fs h) path) (\<lambda>raw.
            case il_parse_session lib raw of
              Inr parsed \<Rightarrow> Inr (Some (CurrentSession parsed))
            | Inl _ \<Rightarrow>
                rbind (il_parse_legacy lib raw) (\<lambda>parsed.
                rbind (session_of_legacy_file lib parsed) (\<lambda>s. Inr (Some (LegacySession s))))), h))"

section \<open>Files\<close>

text \<open>Neither reading changes the host, and a persisted file is read back.\<close>

lemma loads_pure:
  "snd (identity_load lib path h) = h" "snd (session_load lib path h) = h"
  "snd (load_session_record lib path h) = h"
  by (simp_all add: identity_load_def session_load_def load_session_record_def)

lemma persist_json_ok:
  "persist_json path text h = (Inr u, h') \<longleftrightarrow>
     (\<exists>v. ho_write h path = Inr v) \<and> h' = h\<lparr>ho_fs := fs_run (write_json_atomic path text) (ho_fs h)\<rparr>"
  by (auto simp: persist_json_def split: sum.splits)

lemma persist_json_read:
  assumes "persist_json path text h = (Inr u, h')" and "with_extension path ''tmp'' \<noteq> path"
  shows "ho_fs h' path = Some (RegularFile (Inr text))"
  using assms by (auto simp: persist_json_ok write_json_atomic_done)

section \<open>Paths of identities\<close>

lemma split_on_append: "split_on d (xs @ d # ys) = split_on d xs @ split_on d ys"
proof (induction xs)
  case (Cons x xs)
  then show ?case by (cases "split_on d xs") auto
qed simp

lemma split_on_plain: "d \<notin> set xs \<Longrightarrow> split_on d xs = [xs]"
  by (induction xs) auto

lemma split_on_pieces: "w \<in> set (split_on d xs) \<Longrightarrow> d \<notin> set w"
proof (induction xs arbitrary: w)
  case (Cons x xs)
  then show ?case by (cases "split_on d xs") (auto split: if_splits)
qed simp

lemma takeWhile_stops: "d \<notin> set xs \<Longrightarrow> takeWhile (\<lambda>c. c \<noteq> d) (xs @ d # ys) = xs"
  by (induction xs) auto

lemma last_split_on: "last (split_on d xs) = rev (takeWhile (\<lambda>c. c \<noteq> d) (rev xs))"
proof (cases "d \<in> set xs")
  case True
  then obtain ys zs where "xs = ys @ d # zs" "d \<notin> set zs" by (auto dest: split_list_last)
  then show ?thesis by (simp add: split_on_append split_on_plain takeWhile_stops)
next
  case False
  then have all: "takeWhile (\<lambda>c. c \<noteq> d) (rev xs) = rev xs" by (auto simp: takeWhile_eq_all_conv)
  show ?thesis unfolding all using False by (simp add: split_on_plain)
qed

lemma file_name_last:
  assumes "last (split_on CHR ''/'' p) \<notin> {[], ''.'', ''..''}"
  shows "file_name p = Some (last (split_on CHR ''/'' p))"
proof -
  obtain ws w where ws: "split_on CHR ''/'' p = ws @ [w]"
    using split_on_nonempty rev_exhaust by blast
  with assms show ?thesis by (auto simp: file_name_def components_def)
qed

text \<open>What comes after the last separator of \<open>x.json\<close> ends in \<open>.json\<close>.\<close>

lemma last_piece_json:
  "last (split_on CHR ''/'' (x @ ''.json'')) = rev (takeWhile (\<lambda>c. c \<noteq> CHR ''/'') (rev x)) @ ''.json''"
  by (simp add: last_split_on)

lemma file_name_json:
  "file_name (x @ ''.json'') = Some (rev (takeWhile (\<lambda>c. c \<noteq> CHR ''/'') (rev x)) @ ''.json'')"
proof -
  have "w @ ''.json'' \<notin> {[], ''.'', ''..''}" for w :: string
    using length_append [of w "''.json''"] by (auto dest!: arg_cong [where f = length])
  then show ?thesis using file_name_last [of "x @ ''.json''"] unfolding last_piece_json by blast
qed

lemma stem_json:
  assumes "w \<noteq> []"
  shows "stem_ext (w @ ''.json'') = (w, Some ''json'')"
  using assms by (simp add: stem_ext_def Let_def)

lemma with_extension_json: "with_extension (x @ ''.json'') ''tmp'' \<noteq> x @ ''.json''"
proof -
  have "last (with_extension (x @ ''.json'') ''tmp'') = CHR ''p''"
    by (simp add: with_extension_def file_name_json)
  moreover have "last (x @ ''.json'') = CHR ''n''" by simp
  moreover have "CHR ''p'' \<noteq> CHR ''n''" by simp
  ultimately show ?thesis by metis
qed

lemma identity_path_json: "\<exists>x. identity_path dir name = x @ ''.json''"
  by (auto simp: identity_path_def path_join_def)

lemma identity_path_tmp: "with_extension (identity_path dir name) ''tmp'' \<noteq> identity_path dir name"
  using identity_path_json [of dir name] with_extension_json by metis

lemma file_stem_plain:
  assumes "CHR ''/'' \<notin> set name" and "name \<noteq> []"
  shows "file_stem (identity_path dir name) = Some name"
proof -
  have "\<not> prefix ''/'' (name @ ''.json'')" using assms by (cases name) auto
  then obtain a where a: "identity_path dir name = (a @ name) @ ''.json''" "a = [] \<or> last a = CHR ''/''"
    by (cases "dir = [] \<or> suffix ''/'' dir")
      (auto simp: identity_path_def path_join_def suffix_def)
  have "takeWhile (\<lambda>c. c \<noteq> CHR ''/'') (rev (a @ name)) = rev name"
    using a(2) assms(1) by (cases a rule: rev_cases) (auto simp: takeWhile_stops takeWhile_eq_all_conv)
  then show ?thesis
    unfolding file_stem_def a(1) file_name_json by (simp add: stem_json assms(2))
qed

lemma file_stem_no_slash: "file_stem p = Some s \<Longrightarrow> CHR ''/'' \<notin> set s"
proof -
  assume "file_stem p = Some s"
  then obtain f where f: "file_name p = Some f" "s = fst (stem_ext f)" by (auto simp: file_stem_def)
  from f(1) obtain cs where "rev (components p) = f # cs"
    by (auto simp: file_name_def split: list.splits if_splits)
  then have "components p = rev cs @ [f]" by (simp add: rev_swap)
  then have "f \<in> set (components p)" by simp
  then have "f \<in> set (split_on CHR ''/'' p)" by (simp add: components_def)
  then have "CHR ''/'' \<notin> set f" by (rule split_on_pieces)
  moreover have "set (fst (stem_ext f)) \<subseteq> set f"
    by (auto simp: stem_ext_def Let_def dest: in_set_dropD)
  ultimately show ?thesis using f(2) by blast
qed

section \<open>Creation and reload\<close>

lemma identity_load_file:
  assumes "ho_fs h path = Some (RegularFile (Inr text))" and "il_parse_identity lib text = Inr parsed"
  shows "identity_load lib path h = (rbind (identity_of_file lib path parsed) (\<lambda>r. Inr (Some r)), h)"
  using assms by (simp add: identity_load_def fs_exists_def fs_read_def)

text \<open>Both ways to create an identity write the same kind of file for it.\<close>

lemma identity_persist_reload:
  assumes run: "identity_persist lib (identity_path dir (ni_name r)) r h = (Inr u, h')"
    and json: "\<And>f. il_parse_identity lib (il_print_identity lib f) = Inr f"
    and b64: "\<And>k. il_b64_decode lib (il_b64_encode lib k) = Inr k"
  shows "identity_load lib (identity_path dir (ni_name r)) h' =
    (if ni_name r \<noteq> unwrap_or [] (file_stem (identity_path dir (ni_name r)))
     then Inl (''identity file name mismatch: expected ''
       @ il_debug lib (unwrap_or [] (file_stem (identity_path dir (ni_name r)))) @ '', got ''
       @ il_debug lib (ni_name r))
     else if length (ni_signing_key r) \<noteq> 32 then Inl ''invalid Ed25519 private key length''
     else Inr (Some r), h')"
proof -
  from run obtain now where "persist_json (identity_path dir (ni_name r)) (il_print_identity lib
       \<lparr>if_name = ni_name r, if_created_at = now, if_public_key = ni_public_key r,
        if_private_key = il_b64_encode lib (ni_signing_key r)\<rparr>) h = (Inr u, h')"
    by (auto simp: identity_persist_def andthen_Inr_iff lift_def)
  from persist_json_read [OF this identity_path_tmp] identity_load_file json show ?thesis
    by (auto simp: identity_of_file_def b64 bail_if_def)
qed

lemma load_or_create_new:
  assumes "load_or_create lib fresh dir name h = (Inr r, h')" and "\<not> fs_exists (ho_fs h) (identity_path dir (trim name))"
  shows "r = \<lparr>ni_name = trim name, ni_public_key = il_b64_encode lib (il_verifying_key lib fresh),
              ni_signing_key = fresh\<rparr>"
    and "\<exists>u. identity_persist lib (identity_path dir (ni_name r)) r h = (Inr u, h')"
    and "trim name \<noteq> []"
proof -
  from assms have name: "trim name \<noteq> []" and r: "r = \<lparr>ni_name = trim name,
      ni_public_key = il_b64_encode lib (il_verifying_key lib fresh), ni_signing_key = fresh\<rparr>"
    and p: "\<exists>u. identity_persist lib (identity_path dir (trim name)) r h = (Inr u, h')"
    by (auto simp: load_or_create_def andthen_Inr_iff lift_def validate_name_def Let_def
        identity_load_def ret_def split: if_splits)
  then show "r = \<lparr>ni_name = trim name, ni_public_key = il_b64_encode lib (il_verifying_key lib fresh),
              ni_signing_key = fresh\<rparr>" "trim name \<noteq> []"
    "\<exists>u. identity_persist lib (identity_path dir (ni_name r)) r h = (Inr u, h')" by auto
qed

lemma load_or_create_existing:
  assumes "identity_load lib (identity_path dir (trim name)) h = (x, h)" and "trim name \<noteq> []"
    and "x \<noteq> Inr None"
  shows "load_or_create lib fresh dir name h =
    ((case x of Inl e \<Rightarrow> Inl e | Inr None \<Rightarrow> Inl [] | Inr (Some r) \<Rightarrow> Inr r), h)"
  using assms
  by (cases x) (auto simp: load_or_create_def andthen_def lift_def validate_name_def Let_def ret_def
      split: option.splits)

section \<open>Properties\<close>

text \<open>
  Claim C30. An identity whose name has no path separator is created once: whatever the second call
  draws as a key, \<open>load_or_create\<close> finds what the first call returned, key included, and writes
  nothing more. The library's printer and encoder are assumed to be read back by its parser and
  decoder.
\<close>

theorem identity_created_once:
  assumes first: "load_or_create lib fresh dir name h = (Inr r, h')"
    and json: "\<forall>f. il_parse_identity lib (il_print_identity lib f) = Inr f"
    and b64: "\<forall>k. il_b64_decode lib (il_b64_encode lib k) = Inr k"
    and key: "length fresh = 32" and plain: "CHR ''/'' \<notin> set (trim name)"
  shows "load_or_create lib fresh' dir name h' = (Inr r, h')"
proof (cases "fs_exists (ho_fs h) (identity_path dir (trim name))")
  case True
  obtain x where x: "identity_load lib (identity_path dir (trim name)) h = (x, h)"
    using loads_pure(1) by (metis prod.collapse)
  from True x have "x \<noteq> Inr None" by (auto simp: identity_load_def result_iffs)
  have "trim name \<noteq> []" using first by (auto simp: load_or_create_def andthen_Inr_iff lift_def validate_name_def split: if_splits)
  from load_or_create_existing [OF x this \<open>x \<noteq> Inr None\<close>] first show ?thesis by simp
next
  case False
  note new = load_or_create_new [OF first False]
  from new(2) obtain u where "identity_persist lib (identity_path dir (ni_name r)) r h = (Inr u, h')" ..
  from identity_persist_reload [OF this] json b64
  have "identity_load lib (identity_path dir (trim name)) h' = (Inr (Some r), h')"
    using new(1,3) key file_stem_plain [OF plain] by simp
  from load_or_create_existing [OF this new(3)] show ?thesis by simp
qed

text \<open>A concrete encoding of strings that can be read back, with the length in front in unary.\<close>

definition put_str :: "string \<Rightarrow> string" where
  "put_str s = replicate (length s) CHR ''1'' @ CHR ''0'' # s"

definition get_str :: "string \<Rightarrow> string \<times> string" where
  "get_str t =
     (let n = length (takeWhile (\<lambda>c. c = CHR ''1'') t); rest = drop (Suc n) t
      in (take n rest, drop n rest))"

lemma get_put_str [simp]: "get_str (put_str s @ rest) = (s, rest)"
proof -
  have tw: "takeWhile (\<lambda>c. c = CHR ''1'') (replicate n CHR ''1'' @ CHR ''0'' # t) = replicate n CHR ''1''"
    for n t by (induction n) auto
  show ?thesis by (simp add: get_str_def put_str_def Let_def tw)
qed

definition print_identity_file :: "IdentityFile \<Rightarrow> string" where
  "print_identity_file f =
     put_str (if_name f) @ put_str (if_created_at f) @ put_str (if_public_key f) @ if_private_key f"

definition parse_identity_file :: "string \<Rightarrow> IdentityFile result" where
  "parse_identity_file s =
     (let (a, s1) = get_str s; (b, s2) = get_str s1; (c, d) = get_str s2
      in Inr \<lparr>if_name = a, if_created_at = b, if_public_key = c, if_private_key = d\<rparr>)"

lemma identity_file_round_trip: "parse_identity_file (print_identity_file f) = Inr f"
  by (simp add: parse_identity_file_def print_identity_file_def)

definition demo_identity_lib :: identity_lib where
  "demo_identity_lib =
     \<lparr>il_verifying_key = rev, il_sign = (\<lambda>k p. k @ p), il_b64_encode = (\<lambda>s. s), il_b64_decode = Inr,
      il_pkcs8_encode = Inr, il_pkcs8_decode = Inr,
      il_parse_identity = parse_identity_file, il_print_identity = print_identity_file,
      il_parse_session = (\<lambda>s. Inl ''no session''), il_print_session = (\<lambda>s. []),
      il_parse_legacy = (\<lambda>s. Inl ''no session''), il_print_legacy = (\<lambda>s. []),
      il_debug = (\<lambda>s. s), il_now = Inr ''now''\<rparr>"

definition demo_host :: host where
  "demo_host =
     \<lparr>ho_fs = (\<lambda>_. None), ho_write = (\<lambda>_. Inr ()), ho_mkdir = (\<lambda>_. Inr ()), ho_chmod = (\<lambda>_. Inr ())\<rparr>"

definition demo_key :: string where
  "demo_key = replicate 32 CHR ''k''"

lemma demo_create:
  "\<exists>h'. load_or_create demo_identity_lib demo_key ''/ids'' name demo_host =
     (Inr \<lparr>ni_name = trim name, ni_public_key = rev demo_key, ni_signing_key = demo_key\<rparr>, h')"
  if "trim name \<noteq> []" for name
  using that
  by (simp add: load_or_create_def andthen_def lift_def validate_name_def Let_def identity_load_def
      fs_exists_def demo_host_def identity_persist_def persist_json_def demo_identity_lib_def ret_def)

theorem identity_created_once_witness:
  "\<exists>r h'. load_or_create demo_identity_lib demo_key ''/ids'' ''heimdal'' demo_host = (Inr r, h')
     \<and> load_or_create demo_identity_lib [] ''/ids'' ''heimdal'' h' = (Inr r, h')"
proof -
  have name: "trim ''heimdal'' = ''heimdal''" by code_simp
  with demo_create [of "''heimdal''"] obtain r h' where
    first: "load_or_create demo_identity_lib demo_key ''/ids'' ''heimdal'' demo_host = (Inr r, h')" by auto
  have "load_or_create demo_identity_lib [] ''/ids'' ''heimdal'' h' = (Inr r, h')"
    by (rule identity_created_once [OF first])
      (simp_all add: demo_identity_lib_def identity_file_round_trip demo_key_def name)
  with first show ?thesis by blast
qed

text \<open>
  Claim C37. An identity whose name contains a separator is lost as soon as it is created: the name
  passes validation, the file is written, and every later load of it fails, because the stem of
  its path can never be the name.
\<close>

theorem identity_with_separator_lost:
  assumes first: "load_or_create lib fresh dir name h = (Inr r, h')"
    and new: "\<not> fs_exists (ho_fs h) (identity_path dir (trim name))"
    and json: "\<forall>f. il_parse_identity lib (il_print_identity lib f) = Inr f"
    and b64: "\<forall>k. il_b64_decode lib (il_b64_encode lib k) = Inr k"
    and sep: "CHR ''/'' \<in> set (trim name)"
  shows "\<not> is_ok (fst (load_or_create lib fresh' dir name h'))"
proof -
  note r = load_or_create_new [OF first new]
  let ?stem = "unwrap_or [] (file_stem (identity_path dir (trim name)))"
  have stem: "trim name \<noteq> ?stem"
    using sep file_stem_no_slash by (cases "file_stem (identity_path dir (trim name))") fastforce+
  from r(2) obtain u where "identity_persist lib (identity_path dir (ni_name r)) r h = (Inr u, h')" ..
  from identity_persist_reload [OF this] json b64 stem obtain e where
    "identity_load lib (identity_path dir (trim name)) h' = (Inl e, h')"
    using r(1) by auto
  from load_or_create_existing [OF this r(3)] show ?thesis by simp
qed

theorem identity_with_separator_lost_witness:
  "\<exists>r h'. load_or_create demo_identity_lib demo_key ''/ids'' ''a/b'' demo_host = (Inr r, h')
     \<and> \<not> is_ok (fst (load_or_create demo_identity_lib demo_key ''/ids'' ''a/b'' h'))"
proof -
  have name: "trim ''a/b'' = ''a/b''" by code_simp
  with demo_create [of "''a/b''"] obtain r h' where
    first: "load_or_create demo_identity_lib demo_key ''/ids'' ''a/b'' demo_host = (Inr r, h')" by auto
  have "\<not> is_ok (fst (load_or_create demo_identity_lib demo_key ''/ids'' ''a/b'' h'))"
    by (rule identity_with_separator_lost [OF first])
      (simp_all add: demo_identity_lib_def identity_file_round_trip name demo_host_def fs_exists_def)
  with first show ?thesis by blast
qed

text \<open>
  Migrating a legacy session keeps who the agent is: if an identity is created from the
  session and the session is migrated to it, then the new session is for the same agent with the
  same token and expiry, refers to that identity, and the identity signs every payload as the
  legacy session did.
\<close>

theorem legacy_migration_keeps_agent:
  assumes new: "\<not> fs_exists (ho_fs h) (identity_path dir (trim name))"
    and created: "load_or_create_from_legacy lib dir name legacy h = (Inr r, h')"
  shows "\<exists>session. migrate_to_identity lib legacy r = Inr session
    \<and> se_agent_id session = lg_agent_id legacy \<and> se_identity session = ni_name r
    \<and> se_session_token session = lg_session_token legacy
    \<and> se_session_expires_at session =
        (case lg_session_token legacy of None \<Rightarrow> None | Some _ \<Rightarrow> lg_session_expires_at legacy)
    \<and> (\<forall>payload. sign_canonical_payload lib (ni_signing_key r) payload
                  = sign_canonical_payload lib (lg_signing_key legacy) payload)"
proof -
  from created new have "ni_public_key r = lg_agent_id legacy" "ni_signing_key r = lg_signing_key legacy"
    by (auto simp: load_or_create_from_legacy_def andthen_Inr_iff lift_def validate_name_def Let_def
        identity_load_def ret_def split: if_splits)
  then show ?thesis
    by (simp add: migrate_to_identity_def ensure_matches_agent_id_def session_new_def
        session_update_token_def split: option.split)
qed

theorem legacy_migration_keeps_agent_witness:
  "\<exists>r h'. load_or_create_from_legacy demo_identity_lib ''/ids'' ''heimdal''
        \<lparr>lg_agent_id = ''agent'', lg_registration_name = ''n'', lg_session_token = Some ''t'',
         lg_session_expires_at = None, lg_signing_key = demo_key\<rparr> demo_host = (Inr r, h')
     \<and> migrate_to_identity demo_identity_lib
        \<lparr>lg_agent_id = ''agent'', lg_registration_name = ''n'', lg_session_token = Some ''t'',
         lg_session_expires_at = None, lg_signing_key = demo_key\<rparr> r
       = Inr \<lparr>se_identity = ni_name r, se_agent_id = ''agent'', se_session_token = Some ''t'',
              se_session_expires_at = None\<rparr>"
proof -
  let ?l = "\<lparr>lg_agent_id = ''agent'', lg_registration_name = ''n'', lg_session_token = Some ''t'',
         lg_session_expires_at = None, lg_signing_key = demo_key\<rparr>"
  have name: "trim ''heimdal'' = ''heimdal''" by code_simp
  obtain r h' where run: "load_or_create_from_legacy demo_identity_lib ''/ids'' ''heimdal'' ?l demo_host
      = (Inr r, h')"
    by (auto simp: load_or_create_from_legacy_def andthen_def lift_def validate_name_def Let_def
        identity_load_def fs_exists_def demo_host_def identity_persist_def persist_json_def
        demo_identity_lib_def ret_def name)
  have "\<not> fs_exists (ho_fs demo_host) (identity_path ''/ids'' (trim ''heimdal''))"
    by (simp add: demo_host_def fs_exists_def)
  from legacy_migration_keeps_agent [OF this run] run show ?thesis by fastforce
qed

end
