(* ===== verification/Subspace_Auth.thy ===== *)
theory Subspace_Auth
  imports Subspace_Identity
begin

text \<open>
  Registration and re-authentication with a Subspace server, \<^verbatim>\<open>src/src/subspace/auth.rs\<close>: a
  challenge is requested, signed with the key of the identity and sent back for a session token.

  The HTTP client is library code. \<open>http\<close> holds what the server answers to the n-th request and the
  requests made so far; a body that is no JSON is \<open>None\<close>.
\<close>

datatype http_reply = HttpFailed string | HttpResponse nat "json option"

record http =
  ht_reply :: "nat \<Rightarrow> http_reply"
  ht_requests :: "(string \<times> json) list"

record SessionAuth =
  sa_token :: string
  sa_expires_at :: string

text \<open>\<open>client.post(url).json(&body).send().await.context(failure)\<close>, then status and body.\<close>

definition http_post :: "string \<Rightarrow> string \<Rightarrow> json \<Rightarrow> (http, nat \<times> json) op" where
  "http_post failure url body h =
     (let h' = h\<lparr>ht_requests := ht_requests h @ [(url, body)]\<rparr>
      in case ht_reply h (length (ht_requests h)) of
           HttpFailed e \<Rightarrow> (Inl failure, h')
         | HttpResponse code reply \<Rightarrow> (Inr (code, unwrap_or (JObj []) reply), h'))"

definition is_success :: "nat \<Rightarrow> bool" where
  "is_success code \<longleftrightarrow> 200 \<le> code \<and> code < 300"

definition read_string :: "json \<Rightarrow> string \<Rightarrow> string result" where
  "read_string v key =
     (case json_str_at key v of
        None \<Rightarrow> Inl (''expected response field: '' @ key)
      | Some s \<Rightarrow> if s = [] then Inl (''expected response field: '' @ key) else Inr s)"

definition read_session_auth :: "json \<Rightarrow> SessionAuth result" where
  "read_session_auth v =
     rbind (read_string v ''sessionToken'') (\<lambda>token.
     rbind (read_string v ''sessionExpiresAt'') (\<lambda>expires_at.
     Inr \<lparr>sa_token = token, sa_expires_at = expires_at\<rparr>))"

text \<open>The argument \<open>js\<close> is \<open>serde_json::to_string\<close> on strings.\<close>

definition register_payload :: "(string \<Rightarrow> string) \<Rightarrow> string \<Rightarrow> string \<Rightarrow> string \<Rightarrow> string" where
  "register_payload js challenge name public_key =
     ''{'' @ quoted ''challenge'' @ '':'' @ js challenge @ '','' @ quoted ''name'' @ '':'' @ js name @ '',''
     @ quoted ''owner'' @ '':'' @ js default_subspace_owner @ '','' @ quoted ''publicKey'' @ '':'' @ js public_key @ ''}''"

definition reauth_payload :: "(string \<Rightarrow> string) \<Rightarrow> string \<Rightarrow> string \<Rightarrow> string" where
  "reauth_payload js agent_id challenge =
     ''{'' @ quoted ''agentId'' @ '':'' @ js agent_id @ '','' @ quoted ''challenge'' @ '':'' @ js challenge @ ''}''"

definition register_identity :: "identity_lib \<Rightarrow> (string \<Rightarrow> string) \<Rightarrow> string \<Rightarrow> string
    \<Rightarrow> NamedIdentityRecord \<Rightarrow> (http, SessionAuth) op" where
  "register_identity lib js base_url name r =
     andthen (http_post ''subspace register/start failed'' (base_url @ ''/api/agents/register/start'')
       (JObj [(''name'', JStr name), (''owner'', JStr default_subspace_owner),
              (''publicKey'', JStr (ni_public_key r))])) (\<lambda>(start_status, start_json).
     andthen (lift (bail_if (\<not> is_success start_status)
       (''register_start failed with status '' @ digit_string start_status))) (\<lambda>_.
     andthen (lift (read_string start_json ''challenge'')) (\<lambda>challenge.
     andthen (lift (read_string start_json ''challengeId'')) (\<lambda>challenge_id.
     let signature = sign_canonical_payload lib (ni_signing_key r)
           (register_payload js challenge name (ni_public_key r))
     in andthen (http_post ''subspace register/verify failed'' (base_url @ ''/api/agents/register/verify'')
          (JObj [(''challengeId'', JStr challenge_id), (''name'', JStr name),
                 (''owner'', JStr default_subspace_owner), (''publicKey'', JStr (ni_public_key r)),
                 (''signature'', JStr signature)])) (\<lambda>(status, verify_json).
        lift (if status = 200 \<or> status = 201 then read_session_auth verify_json
              else if status = 409
              then Inl (''name '' @ il_debug lib name
                        @ '' is already registered by a different agent on this server'')
              else Inl (''register_verify failed with status '' @ digit_string status)))))))"

text \<open>The two re-authentications differ in where agent and key come from.\<close>

definition reauth_exchange :: "identity_lib \<Rightarrow> (string \<Rightarrow> string) \<Rightarrow> string \<Rightarrow> string \<Rightarrow> string
    \<Rightarrow> (http, SessionAuth) op" where
  "reauth_exchange lib js base_url agent_id key =
     andthen (http_post ''subspace reauth/start failed'' (base_url @ ''/api/agents/reauth/start'')
       (JObj [(''agentId'', JStr agent_id)])) (\<lambda>(start_status, start_json).
     andthen (lift (bail_if (\<not> is_success start_status)
       (''reauth_start failed with status '' @ digit_string start_status))) (\<lambda>_.
     andthen (lift (read_string start_json ''challenge'')) (\<lambda>challenge.
     andthen (lift (read_string start_json ''challengeId'')) (\<lambda>challenge_id.
     let signature = sign_canonical_payload lib key (reauth_payload js agent_id challenge)
     in andthen (http_post ''subspace reauth/verify failed'' (base_url @ ''/api/agents/reauth/verify'')
          (JObj [(''challengeId'', JStr challenge_id), (''agentId'', JStr agent_id),
                 (''signature'', JStr signature)])) (\<lambda>(status, verify_json).
        lift (if status = 200 \<or> status = 201 then read_session_auth verify_json
              else Inl (''reauth_verify failed with status '' @ digit_string status)))))))"

definition reauth_identity :: "identity_lib \<Rightarrow> (string \<Rightarrow> string) \<Rightarrow> string \<Rightarrow> SubspaceSessionRecord
    \<Rightarrow> NamedIdentityRecord \<Rightarrow> (http, SessionAuth) op" where
  "reauth_identity lib js base_url session r =
     reauth_exchange lib js base_url (se_agent_id session) (ni_signing_key r)"

definition reauth_legacy_identity :: "identity_lib \<Rightarrow> (string \<Rightarrow> string) \<Rightarrow> string
    \<Rightarrow> LegacySubspaceSessionRecord \<Rightarrow> (http, SessionAuth) op" where
  "reauth_legacy_identity lib js base_url session =
     reauth_exchange lib js base_url (lg_agent_id session) (lg_signing_key session)"

section \<open>Exchanges\<close>

lemma http_post_ok:
  "http_post failure url body h = (Inr (code, v), h') \<longleftrightarrow>
     (\<exists>reply. ht_reply h (length (ht_requests h)) = HttpResponse code reply \<and> v = unwrap_or (JObj []) reply)
     \<and> h' = h\<lparr>ht_requests := ht_requests h @ [(url, body)]\<rparr>"
  by (auto simp: http_post_def Let_def split: http_reply.splits)

lemma read_string_ok: "read_string v key = Inr s \<longleftrightarrow> json_str_at key v = Some s \<and> s \<noteq> []"
  by (auto simp: read_string_def split: option.splits if_splits)

lemma read_session_auth_ok:
  "read_session_auth v = Inr auth \<longleftrightarrow>
     json_str_at ''sessionToken'' v = Some (sa_token auth) \<and> sa_token auth \<noteq> []
     \<and> json_str_at ''sessionExpiresAt'' v = Some (sa_expires_at auth) \<and> sa_expires_at auth \<noteq> []"
  by (cases auth) (auto simp: read_session_auth_def rbind_Inr_iff read_string_ok)

text \<open>
  A granted session: two replies, the second to a request that carries the signature under the
  key of the payload made from the challenge in the first.
\<close>

definition granted :: "http \<Rightarrow> http \<Rightarrow> string \<Rightarrow> json \<Rightarrow> string \<Rightarrow> (string \<Rightarrow> string \<Rightarrow> json) \<Rightarrow> SessionAuth \<Rightarrow> bool" where
  "granted h h' start_url start verify_url verify auth \<longleftrightarrow>
     (\<exists>code1 body1 code2 body2 challenge challenge_id.
        ht_reply h (length (ht_requests h)) = HttpResponse code1 (Some body1) \<and> is_success code1
        \<and> json_str_at ''challenge'' body1 = Some challenge \<and> challenge \<noteq> []
        \<and> json_str_at ''challengeId'' body1 = Some challenge_id \<and> challenge_id \<noteq> []
        \<and> ht_reply h (Suc (length (ht_requests h))) = HttpResponse code2 (Some body2) \<and> code2 \<in> {200, 201}
        \<and> json_str_at ''sessionToken'' body2 = Some (sa_token auth) \<and> sa_token auth \<noteq> []
        \<and> json_str_at ''sessionExpiresAt'' body2 = Some (sa_expires_at auth) \<and> sa_expires_at auth \<noteq> []
        \<and> h' = h\<lparr>ht_requests := ht_requests h @ [(start_url, start), (verify_url, verify challenge_id challenge)]\<rparr>)"

lemma empty_body: "json_str_at k (unwrap_or (JObj []) reply) = Some s \<Longrightarrow> \<exists>body. reply = Some body"
  by (cases reply) (simp_all add: json_str_at_def json_get_def)

lemma reauth_exchange_granted:
  assumes "reauth_exchange lib js base_url agent_id key h = (Inr auth, h')"
  shows "granted h h' (base_url @ ''/api/agents/reauth/start'') (JObj [(''agentId'', JStr agent_id)])
    (base_url @ ''/api/agents/reauth/verify'')
    (\<lambda>challenge_id challenge. JObj [(''challengeId'', JStr challenge_id), (''agentId'', JStr agent_id),
       (''signature'', JStr (sign_canonical_payload lib key (reauth_payload js agent_id challenge)))]) auth"
proof -
  from assms obtain code1 reply1 code2 reply2 challenge challenge_id where
    one: "ht_reply h (length (ht_requests h)) = HttpResponse code1 reply1" "is_success code1"
      "json_str_at ''challenge'' (unwrap_or (JObj []) reply1) = Some challenge" "challenge \<noteq> []"
      "json_str_at ''challengeId'' (unwrap_or (JObj []) reply1) = Some challenge_id" "challenge_id \<noteq> []"
    and two: "ht_reply h (Suc (length (ht_requests h))) = HttpResponse code2 reply2" "code2 \<in> {200, 201}"
      "read_session_auth (unwrap_or (JObj []) reply2) = Inr auth"
    and reqs: "h' = h\<lparr>ht_requests := ht_requests h @ [(base_url @ ''/api/agents/reauth/start'',
        JObj [(''agentId'', JStr agent_id)]), (base_url @ ''/api/agents/reauth/verify'',
        JObj [(''challengeId'', JStr challenge_id), (''agentId'', JStr agent_id),
          (''signature'', JStr (sign_canonical_payload lib key (reauth_payload js agent_id challenge)))])]\<rparr>"
    unfolding reauth_exchange_def andthen_Inr_iff
    by (auto simp: http_post_ok lift_def bail_if_Inr_iff read_string_ok Let_def andthen_Inr_iff
        split: if_splits)
  from empty_body [OF one(3)] obtain body1 where "reply1 = Some body1" ..
  moreover from two(3) empty_body [of "''sessionToken''" reply2] obtain body2 where "reply2 = Some body2"
    by (auto simp: read_session_auth_ok)
  ultimately show ?thesis using one two reqs unfolding granted_def by (auto simp: read_session_auth_ok)
qed

lemma register_identity_granted:
  assumes "register_identity lib js base_url name r h = (Inr auth, h')"
  shows "granted h h' (base_url @ ''/api/agents/register/start'')
    (JObj [(''name'', JStr name), (''owner'', JStr default_subspace_owner),
           (''publicKey'', JStr (ni_public_key r))])
    (base_url @ ''/api/agents/register/verify'')
    (\<lambda>challenge_id challenge. JObj [(''challengeId'', JStr challenge_id), (''name'', JStr name),
       (''owner'', JStr default_subspace_owner), (''publicKey'', JStr (ni_public_key r)),
       (''signature'', JStr (sign_canonical_payload lib (ni_signing_key r)
          (register_payload js challenge name (ni_public_key r))))]) auth"
proof -
  from assms obtain code1 reply1 code2 reply2 challenge challenge_id where
    one: "ht_reply h (length (ht_requests h)) = HttpResponse code1 reply1" "is_success code1"
      "json_str_at ''challenge'' (unwrap_or (JObj []) reply1) = Some challenge" "challenge \<noteq> []"
      "json_str_at ''challengeId'' (unwrap_or (JObj []) reply1) = Some challenge_id" "challenge_id \<noteq> []"
    and two: "ht_reply h (Suc (length (ht_requests h))) = HttpResponse code2 reply2" "code2 \<in> {200, 201}"
      "read_session_auth (unwrap_or (JObj []) reply2) = Inr auth"
    and reqs: "h' = h\<lparr>ht_requests := ht_requests h @ [(base_url @ ''/api/agents/register/start'',
        JObj [(''name'', JStr name), (''owner'', JStr default_subspace_owner),
           (''publicKey'', JStr (ni_public_key r))]), (base_url @ ''/api/agents/register/verify'',
        JObj [(''challengeId'', JStr challenge_id), (''name'', JStr name),
       (''owner'', JStr default_subspace_owner), (''publicKey'', JStr (ni_public_key r)),
       (''signature'', JStr (sign_canonical_payload lib (ni_signing_key r)
          (register_payload js challenge name (ni_public_key r))))])]\<rparr>"
    unfolding register_identity_def andthen_Inr_iff
    by (auto simp: http_post_ok lift_def bail_if_Inr_iff read_string_ok Let_def andthen_Inr_iff
        split: if_splits)
  from empty_body [OF one(3)] obtain body1 where "reply1 = Some body1" ..
  moreover from two(3) empty_body [of "''sessionToken''" reply2] obtain body2 where "reply2 = Some body2"
    by (auto simp: read_session_auth_ok)
  ultimately show ?thesis using one two reqs unfolding granted_def by (auto simp: read_session_auth_ok)
qed

text \<open>Conversely, such replies are all it takes.\<close>

lemma granted_replies:
  assumes "granted h h' start_url start verify_url verify auth"
  obtains code1 body1 code2 body2 challenge challenge_id where
    "ht_reply h (length (ht_requests h)) = HttpResponse code1 (Some body1)" "is_success code1"
    "read_string body1 ''challenge'' = Inr challenge" "read_string body1 ''challengeId'' = Inr challenge_id"
    "ht_reply h (Suc (length (ht_requests h))) = HttpResponse code2 (Some body2)" "code2 = 200 \<or> code2 = 201"
    "read_session_auth body2 = Inr auth"
    "h' = h\<lparr>ht_requests := ht_requests h @ [(start_url, start), (verify_url, verify challenge_id challenge)]\<rparr>"
  using assms unfolding granted_def by (auto simp: read_string_ok read_session_auth_ok)

lemma reauth_exchange_iff:
  "reauth_exchange lib js base_url agent_id key h = (Inr auth, h') \<longleftrightarrow>
   granted h h' (base_url @ ''/api/agents/reauth/start'') (JObj [(''agentId'', JStr agent_id)])
    (base_url @ ''/api/agents/reauth/verify'')
    (\<lambda>challenge_id challenge. JObj [(''challengeId'', JStr challenge_id), (''agentId'', JStr agent_id),
       (''signature'', JStr (sign_canonical_payload lib key (reauth_payload js agent_id challenge)))]) auth"
  (is "?run \<longleftrightarrow> ?granted")
proof
  assume ?granted
  then show ?run
    by (rule granted_replies)
      (auto simp: reauth_exchange_def andthen_def http_post_def lift_def Let_def)
qed (rule reauth_exchange_granted)

lemma register_identity_iff:
  "register_identity lib js base_url name r h = (Inr auth, h') \<longleftrightarrow>
   granted h h' (base_url @ ''/api/agents/register/start'')
    (JObj [(''name'', JStr name), (''owner'', JStr default_subspace_owner),
           (''publicKey'', JStr (ni_public_key r))])
    (base_url @ ''/api/agents/register/verify'')
    (\<lambda>challenge_id challenge. JObj [(''challengeId'', JStr challenge_id), (''name'', JStr name),
       (''owner'', JStr default_subspace_owner), (''publicKey'', JStr (ni_public_key r)),
       (''signature'', JStr (sign_canonical_payload lib (ni_signing_key r)
          (register_payload js challenge name (ni_public_key r))))]) auth"
  (is "?run \<longleftrightarrow> ?granted")
proof
  assume ?granted
  then show ?run
    by (rule granted_replies)
      (auto simp: register_identity_def andthen_def http_post_def lift_def Let_def)
qed (rule register_identity_granted)

section \<open>Properties\<close>

text \<open>
  Claim C29. A session is granted exactly for a signed challenge: re-authentication and registration
  succeed if and only if the server accepts two requests, the first with a challenge in its reply,
  the second one carrying the signature, under the key of the identity, of the canonical payload
  with that challenge; token and expiry are the non-empty ones of the second reply, and no other
  request is made.
\<close>

theorem session_granted_for_signed_challenge:
  "(reauth_identity lib js base_url session r h = (Inr auth, h') \<longleftrightarrow>
      granted h h' (base_url @ ''/api/agents/reauth/start'') (JObj [(''agentId'', JStr (se_agent_id session))])
        (base_url @ ''/api/agents/reauth/verify'')
        (\<lambda>challenge_id challenge. JObj [(''challengeId'', JStr challenge_id),
           (''agentId'', JStr (se_agent_id session)),
           (''signature'', JStr (sign_canonical_payload lib (ni_signing_key r)
              (reauth_payload js (se_agent_id session) challenge)))]) auth)
   \<and> (register_identity lib js base_url name r h = (Inr auth, h') \<longleftrightarrow>
      granted h h' (base_url @ ''/api/agents/register/start'')
        (JObj [(''name'', JStr name), (''owner'', JStr default_subspace_owner),
               (''publicKey'', JStr (ni_public_key r))])
        (base_url @ ''/api/agents/register/verify'')
        (\<lambda>challenge_id challenge. JObj [(''challengeId'', JStr challenge_id), (''name'', JStr name),
           (''owner'', JStr default_subspace_owner), (''publicKey'', JStr (ni_public_key r)),
           (''signature'', JStr (sign_canonical_payload lib (ni_signing_key r)
              (register_payload js challenge name (ni_public_key r))))]) auth)"
  by (simp add: reauth_identity_def reauth_exchange_iff register_identity_iff)

end
