(* ===== verification/Web_Socket.thy ===== *)
theory Web_Socket
  imports Host_Env
begin

text \<open>
  Messages of a WebSocket connection as the two clients read them, and the validity of UTF-8 that
  \<open>String::from_utf8\<close> decides. The connection itself is library code: what it delivers is an input.
\<close>

section \<open>Validity of UTF-8\<close>

text \<open>The ranges of the bytes that follow a first byte (Unicode, table 3-7).\<close>

definition utf8_ranges :: "nat \<Rightarrow> (nat \<times> nat) list option" where
  "utf8_ranges b =
     (let cont = (0x80, 0xBF)
      in if b < 0x80 then Some []
         else if 0xC2 \<le> b \<and> b \<le> 0xDF then Some [cont]
         else if b = 0xE0 then Some [(0xA0, 0xBF), cont]
         else if b = 0xED then Some [(0x80, 0x9F), cont]
         else if 0xE1 \<le> b \<and> b \<le> 0xEF then Some [cont, cont]
         else if b = 0xF0 then Some [(0x90, 0xBF), cont, cont]
         else if 0xF1 \<le> b \<and> b \<le> 0xF3 then Some [cont, cont, cont]
         else if b = 0xF4 then Some [(0x80, 0x8F), cont, cont]
         else None)"

fun utf8_scan :: "(nat \<times> nat) list \<Rightarrow> nat list \<Rightarrow> bool" where
  "utf8_scan [] [] = True"
| "utf8_scan (r # rs) [] = False"
| "utf8_scan [] (b # bs) = (case utf8_ranges b of None \<Rightarrow> False | Some rs \<Rightarrow> utf8_scan rs bs)"
| "utf8_scan ((lo, hi) # rs) (b # bs) = (lo \<le> b \<and> b \<le> hi \<and> utf8_scan rs bs)"

definition from_utf8 :: "string \<Rightarrow> string option" where
  "from_utf8 bytes = (if utf8_scan [] (map of_char bytes) then Some bytes else None)"

lemma utf8_scan_append: "utf8_scan rs xs \<Longrightarrow> utf8_scan [] ys \<Longrightarrow> utf8_scan rs (xs @ ys)"
  by (induction rs xs rule: utf8_scan.induct) (auto split: option.splits)

lemma ascii_is_utf8: "\<forall>c\<in>set s. (of_char c :: nat) < 0x80 \<Longrightarrow> from_utf8 s = Some s"
proof -
  assume "\<forall>c\<in>set s. (of_char c :: nat) < 0x80"
  then have "utf8_scan [] (map of_char s)" by (induction s) (auto simp: utf8_ranges_def)
  then show ?thesis by (simp add: from_utf8_def)
qed

section \<open>Messages\<close>

datatype ws_message =
    MsgText string
  | MsgBinary string
  | MsgClose "(u16 \<times> string) option"
  | MsgPing
  | MsgPong
  | MsgFrame

text \<open>What the next read of the connection yields.\<close>

datatype incoming = StreamEnd | StreamError string | Received ws_message

end
