(* ===== verification/Config_Ops.thy ===== *)
theory Config_Ops
  imports Config_Model
begin

text \<open>
  The operations of \<^verbatim>\<open>src/src/config.rs\<close> on the records of \<open>Config_Model\<close>, and what they
  guarantee: every server key is one safe path component, the accepted configuration is well
  formed, and \<open>upsert_server\<close> updates exactly the entry of its URL.
\<close>

section \<open>Server URLs\<close>

text \<open>The loop \<open>while normalized.ends_with('/') && normalized != "/"\<close> on the reversed string.\<close>

fun pop_slashes :: "string \<Rightarrow> string" where
  "pop_slashes [] = []"
| "pop_slashes (c # cs) =
     (if c = CHR ''/'' \<and> c # cs \<noteq> ''/'' then pop_slashes cs else c # cs)"

definition normalize_path :: "string \<Rightarrow> string" where
  "normalize_path path =
     (let trimmed = trim path
      in if trimmed = [] \<or> trimmed = ''/'' then ''/''
         else let normalized = rev (pop_slashes (rev trimmed))
              in if prefix ''/'' normalized then normalized else CHR ''/'' # normalized)"

definition effective_port :: "url \<Rightarrow> u16 result" where
  "effective_port u = ok_or ''server URL missing effective port'' (u_port_or_known_default u)"

definition port_text :: "u16 \<Rightarrow> string" where
  "port_text p = digit_string (unat p)"

definition canonicalize_base_url :: "config_env \<Rightarrow> string \<Rightarrow> string result" where
  "canonicalize_base_url env raw =
     (let trimmed = trim raw
      in if trimmed = [] then Inl ''missing server base_url''
         else case ce_parse_url env trimmed of
           Inl _ \<Rightarrow> Inl ''invalid server base_url''
         | Inr parsed \<Rightarrow>
             if u_scheme parsed \<noteq> ''http'' \<and> u_scheme parsed \<noteq> ''https''
             then Inl (''unsupported server URL scheme: '' @ u_scheme parsed)
             else if u_username parsed \<noteq> [] \<or> u_password parsed \<noteq> None
             then Inl ''server URL must not include userinfo''
             else if u_query parsed \<noteq> None \<or> u_fragment parsed \<noteq> None
             then Inl ''server URL must not include query or fragment''
             else rbind (ok_or ''server URL missing host''
                           (map_option to_ascii_lowercase (u_host_str parsed)))
               (\<lambda>host. let scheme = to_ascii_lowercase (u_scheme parsed)
                 in rbind (effective_port parsed) (\<lambda>port.
                      let default_port = (if scheme = ''http'' then 80 else 443);
                          path = normalize_path (u_path parsed);
                          port_suffix = (if port = default_port then [] else '':'' @ port_text port);
                          path_suffix = (if path = ''/'' then [] else path)
                      in Inr (scheme @ ''://'' @ host @ port_suffix @ path_suffix))))"

definition derive_subspace_ws_url :: "config_env \<Rightarrow> string \<Rightarrow> string result" where
  "derive_subspace_ws_url env base_url =
     rbind (canonicalize_base_url env base_url) (\<lambda>canonical.
     rbind (ce_parse_url env canonical) (\<lambda>parsed.
     rbind (if u_scheme parsed = ''http'' then Inr ''ws''
            else if u_scheme parsed = ''https'' then Inr ''wss''
            else Inl (''unsupported server URL scheme: '' @ u_scheme parsed)) (\<lambda>ws_scheme.
     rbind (ok_or ''server URL missing host'' (u_host_str parsed)) (\<lambda>host.
     let path = normalize_path (u_path parsed);
         port_suffix = (case u_port parsed of None \<Rightarrow> [] | Some p \<Rightarrow> '':'' @ port_text p);
         base_path = (if path = ''/'' then [] else path)
     in Inr (ws_scheme @ ''://'' @ host @ port_suffix @ base_path
             @ ''/api/firehose/stream/websocket'')))))"

text \<open>
  \<open>sanitize_server_key_component\<close>. The loop runs over characters, and replaces a run of unsafe
  ones by a single underscore; on UTF-8 bytes, all of which are unsafe outside ASCII, a run of
  unsafe characters is the same run of unsafe bytes.
\<close>

definition is_safe :: "char \<Rightarrow> bool" where
  "is_safe c \<longleftrightarrow> c \<in> set ''abcdefghijklmnopqrstuvwxyz0123456789''"

fun sanitize_loop :: "bool \<Rightarrow> string \<Rightarrow> string" where
  "sanitize_loop last_was_underscore [] = []"
| "sanitize_loop last_was_underscore (ch # rest) =
     (let normalized = ascii_lower ch
      in if is_safe normalized then normalized # sanitize_loop False rest
         else if \<not> last_was_underscore then CHR ''_'' # sanitize_loop True rest
         else sanitize_loop last_was_underscore rest)"

definition trim_underscores :: "string \<Rightarrow> string" where
  "trim_underscores s =
     rev (dropWhile (\<lambda>c. c = CHR ''_'') (rev (dropWhile (\<lambda>c. c = CHR ''_'') s)))"

definition sanitize_server_key_component :: "string \<Rightarrow> string option" where
  "sanitize_server_key_component raw =
     (let trimmed = trim_underscores (sanitize_loop False raw)
      in if trimmed = [] then None else Some trimmed)"

definition derive_server_key :: "config_env \<Rightarrow> string \<Rightarrow> string result" where
  "derive_server_key env base_url =
     rbind (canonicalize_base_url env base_url) (\<lambda>canonical.
     rbind (ce_parse_url env canonical) (\<lambda>parsed.
     rbind (ok_or ''server URL missing scheme'' (sanitize_server_key_component (u_scheme parsed)))
       (\<lambda>scheme.
     rbind (ok_or ''server URL missing host''
             (Option.bind (u_host_str parsed) sanitize_server_key_component)) (\<lambda>host.
     rbind (effective_port parsed) (\<lambda>port.
     let segments = filter (\<lambda>s. s \<noteq> []) (case u_path_segments parsed of None \<Rightarrow> [] | Some ss \<Rightarrow> ss)
     in Inr (join ''_'' ([scheme, host, port_text port]
               @ List.map_filter sanitize_server_key_component segments)))))))"

section \<open>Paths and defaults\<close>

definition default_registration_name :: "fsys \<Rightarrow> string" where
  "default_registration_name fs =
     (let host = (case fs_read fs ''/etc/hostname'' of
                    Inl _ \<Rightarrow> ''host''
                  | Inr value \<Rightarrow> unwrap_or ''host'' (trim_nonempty (Some value)))
      in ''subspace-daemon-'' @ host)"

definition default_config_path :: "config_env \<Rightarrow> string" where
  "default_config_path env = expand_tilde (ce_home env) ''~/.openclaw/subspace-daemon/config.json''"

definition default_database_path :: "config_env \<Rightarrow> string" where
  "default_database_path env =
     expand_tilde (ce_home env) ''~/.openclaw/subspace-daemon/data/daemon.sqlite3''"

definition default_artifact_root :: "config_env \<Rightarrow> string" where
  "default_artifact_root env = expand_tilde (ce_home env) ''~/.openclaw/subspace-daemon/artifacts''"

definition derive_app_paths :: "config_env \<Rightarrow> string \<Rightarrow> string option \<Rightarrow> AppPaths result" where
  "derive_app_paths env path socket_override =
     (let config_path = expand_tilde (ce_home env) path
      in rbind (ok_or ''config path must have parent directory'' (path_parent config_path)) (\<lambda>root.
         rbind (ok_or ''home directory unavailable'' (ce_home env)) (\<lambda>home.
         Inr \<lparr>ap_root = root, ap_config_path = config_path,
              ap_socket_path =
                (case socket_override of
                   None \<Rightarrow> path_join root ''daemon.sock''
                 | Some value \<Rightarrow> expand_tilde (ce_home env) value),
              ap_log_file = path_join (path_join root ''logs'') ''daemon.log'',
              ap_identities_dir = path_join root ''identities'',
              ap_gateway_private_key_path = path_join (path_join root ''device'') ''private.pem'',
              ap_gateway_public_key_path = path_join (path_join root ''device'') ''public.pem'',
              ap_gateway_device_auth_store_path = path_join root ''device-auth.json'',
              ap_launchd_plist_path =
                path_join (path_join (path_join home ''Library'') ''LaunchAgents'')
                  ''ai.openclaw.subspace-daemon.plist'',
              ap_state_lock_path = path_join root ''state.lock''\<rparr>)))"

section \<open>Gateway settings\<close>

definition require_gateway_client_id :: "config_env \<Rightarrow> string option \<Rightarrow> string result" where
  "require_gateway_client_id env raw =
     (case trim_nonempty raw of
        None \<Rightarrow> Inr ''gateway-client''
      | Some other \<Rightarrow>
          if other = ''gateway-client'' then Inr ''gateway-client''
          else Inl (''gateway.client_id must be '' @ quoted ''gateway-client'' @ ''; got ''
                    @ ce_debug env other))"

definition normalize_gateway_client_mode :: "string option \<Rightarrow> string" where
  "normalize_gateway_client_mode raw = unwrap_or ''backend'' (trim_nonempty raw)"

definition normalize_scopes :: "string list \<Rightarrow> string list" where
  "normalize_scopes scopes = remdups_adj (sort (filter (\<lambda>s. s \<noteq> []) (map trim scopes)))"

record LocalGatewayAuth =
  la_shared_token :: "string option"
  la_shared_password :: "string option"

definition load_local_gateway_auth :: "config_env \<Rightarrow> string \<Rightarrow> LocalGatewayAuth result" where
  "load_local_gateway_auth env path =
     (if \<not> fs_exists (ce_fs env) path
      then Inr \<lparr>la_shared_token = None, la_shared_password = None\<rparr>
      else case fs_read (ce_fs env) path of
             Inl _ \<Rightarrow> Inl (''failed reading '' @ path)
           | Inr raw \<Rightarrow>
               rbind (ok_or (''failed parsing '' @ path) (ce_parse_json env raw)) (\<lambda>parsed.
               let auth = Option.bind (json_get ''gateway'' parsed) (json_get ''auth'')
               in Inr \<lparr>la_shared_token = Option.bind auth (json_str_at ''token''),
                       la_shared_password = Option.bind auth (json_str_at ''password'')\<rparr>))"

section \<open>Sinks and hooks\<close>

definition sink_kind_parse :: "string \<Rightarrow> SinkKind result" where
  "sink_kind_parse raw =
     (if trim raw = ''db'' then Inr Db
      else if trim raw = ''agent_session_wake'' then Inr AgentSessionWake
      else Inl (''unsupported sink kind: '' @ trim raw))"

fun sink_kind_as_str :: "SinkKind \<Rightarrow> string" where
  "sink_kind_as_str Db = ''db''"
| "sink_kind_as_str AgentSessionWake = ''agent_session_wake''"

text \<open>The loops carry the \<open>BTreeSet\<close> of keys seen so far.\<close>

definition sink_entry :: "SinkKind \<Rightarrow> StoredSinkConfig \<Rightarrow> SinkConfig" where
  "sink_entry kind sink =
     \<lparr>sk_key = trim (unwrap_or (sink_kind_as_str kind) (sks_key sink)), sk_kind = kind,
      sk_enabled = unwrap_or True (sks_enabled sink),
      sk_destination = trim_nonempty (sks_destination sink)\<rparr>"

fun normalize_sinks_loop :: "string list \<Rightarrow> StoredSinkConfig list \<Rightarrow> SinkConfig list result" where
  "normalize_sinks_loop seen [] = Inr []"
| "normalize_sinks_loop seen (sink # rest) =
     rbind (sink_kind_parse (sks_kind sink)) (\<lambda>kind.
     let entry = sink_entry kind sink; key = sk_key entry
     in if key = [] then Inl ''sink key must not be empty''
        else if key \<in> set seen then Inl (''duplicate sink key: '' @ key)
        else rbind (normalize_sinks_loop (key # seen) rest) (\<lambda>others. Inr (entry # others)))"

definition normalize_sinks :: "StoredSinkConfig list option \<Rightarrow> SinkConfig list result" where
  "normalize_sinks stored = normalize_sinks_loop [] (unwrap_or [] stored)"

definition hook_entry :: "nat \<Rightarrow> StoredHardFailureHookConfig \<Rightarrow> HardFailureHookConfig" where
  "hook_entry index hook =
     \<lparr>hk_key = trim (unwrap_or (''hook-'' @ digit_string (index + 1)) (shk_key hook)),
      hk_command = trim (shk_command hook), hk_args = shk_args hook, hk_env = shk_env hook,
      hk_template = unwrap_or ''{{payload}}'' (shk_template hook),
      hk_timeout_ms = unwrap_or 10000 (shk_timeout_ms hook),
      hk_throttle_ms = unwrap_or 300000 (shk_throttle_ms hook),
      hk_enabled = unwrap_or True (shk_enabled hook)\<rparr>"

fun normalize_hooks_loop :: "string list \<Rightarrow> nat \<Rightarrow> StoredHardFailureHookConfig list
    \<Rightarrow> HardFailureHookConfig list result" where
  "normalize_hooks_loop seen index [] = Inr []"
| "normalize_hooks_loop seen index (hook # rest) =
     (let entry = hook_entry index hook; key = hk_key entry
      in if key = [] then Inl ''hard_failure_hooks key must not be empty''
         else if key \<in> set seen then Inl (''duplicate hard_failure_hooks key: '' @ key)
         else if hk_command entry = [] then Inl ''hard_failure_hooks command must not be empty''
         else rbind (normalize_hooks_loop (key # seen) (index + 1) rest)
                (\<lambda>others. Inr (entry # others)))"

definition normalize_hard_failure_hooks ::
  "StoredHardFailureHookConfig list option \<Rightarrow> HardFailureHookConfig list result" where
  "normalize_hard_failure_hooks stored = normalize_hooks_loop [] 0 (unwrap_or [] stored)"

section \<open>From the stored to the validated configuration\<close>

definition gateway_of_stored :: "config_env \<Rightarrow> StoredGatewayConfig \<Rightarrow> LocalGatewayAuth
    \<Rightarrow> GatewayConfig result" where
  "gateway_of_stored env g auth =
     rbind (require_gateway_client_id env (sg_client_id g)) (\<lambda>client_id.
     Inr \<lparr>gw_ws_url = unwrap_or ''ws://127.0.0.1:18789'' (sg_ws_url g),
          gw_client_id = client_id,
          gw_client_mode = normalize_gateway_client_mode (sg_client_mode g),
          gw_display_name = unwrap_or ''Subspace Daemon'' (sg_display_name g),
          gw_device_id = sg_device_id g,
          gw_shared_token = la_shared_token auth,
          gw_shared_password = la_shared_password auth,
          gw_requested_role = unwrap_or ''operator'' (sg_requested_role g),
          gw_requested_scopes =
            normalize_scopes (unwrap_or [''operator.write''] (sg_requested_scopes g))\<rparr>)"

definition server_of_stored :: "config_env \<Rightarrow> AppPaths \<Rightarrow> string \<Rightarrow> StoredServerConfig
    \<Rightarrow> ServerConfig result" where
  "server_of_stored env paths base_url server =
     rbind (derive_server_key env base_url) (\<lambda>server_key.
     let server_dir = path_join (path_join (ap_root paths) ''servers'') server_key
     in rbind (derive_subspace_ws_url env base_url) (\<lambda>ws.
        Inr \<lparr>sv_base_url = base_url, sv_websocket_url = ws,
             sv_enabled = unwrap_or True (ss_enabled server),
             sv_server_key = server_key,
             sv_registration_name =
               unwrap_or (default_registration_name (ce_fs env)) (ss_registration_name server),
             sv_identity = ss_identity server,
             sv_local_pack_paths = ss_local_pack_paths server,
             sv_session_path = path_join server_dir ''subspace-session.json'',
             sv_runtime_path = path_join server_dir ''runtime.json'',
             sv_wake_session_key = ss_wake_session_key server\<rparr>))"

fun servers_of_stored :: "config_env \<Rightarrow> AppPaths \<Rightarrow> string list \<Rightarrow> StoredServerConfig list
    \<Rightarrow> ServerConfig list result" where
  "servers_of_stored env paths seen [] = Inr []"
| "servers_of_stored env paths seen (server # rest) =
     rbind (canonicalize_base_url env (ss_base_url server)) (\<lambda>base_url.
     if base_url \<in> set seen then Inl (''duplicate server base_url: '' @ base_url)
     else rbind (server_of_stored env paths base_url server) (\<lambda>s.
          rbind (servers_of_stored env paths (base_url # seen) rest) (\<lambda>others.
          Inr (s # others))))"

definition backend_of_stored :: "config_env \<Rightarrow> StoredEmbeddingBackend \<Rightarrow> EmbeddingBackendConfig" where
  "backend_of_stored env b =
     \<lparr>eb_backend_id = sb_backend_id b, eb_exec_path = expand_tilde (ce_home env) (sb_exec b),
      eb_args = sb_args b, eb_default_space_id = sb_default_space_id b, eb_enabled = sb_enabled b,
      eb_env = sb_env b\<rparr>"

definition retry_of_stored :: "StoredRetryConfig \<Rightarrow> RetryConfig" where
  "retry_of_stored r =
     (let g = sr_storm_guard r
      in \<lparr>rc_base_ms = unwrap_or 1000 (sr_base_ms r), rc_max_ms = unwrap_or 60000 (sr_max_ms r),
          rc_jitter_ratio = unwrap_or (fround F64 (1 / 5)) (sr_jitter_ratio r),
          rc_storm_guard =
            \<lparr>sg_failure_window_ms = unwrap_or 300000 (sw_failure_window_ms g),
             sg_consecutive_failure_threshold = unwrap_or 10 (sw_consecutive_failure_threshold g),
             sg_cooldown_ms = unwrap_or 300000 (sw_cooldown_ms g),
             sg_max_cooldown_ms = unwrap_or 3600000 (sw_max_cooldown_ms g)\<rparr>\<rparr>)"

definition storage_of_stored :: "config_env \<Rightarrow> StoredConfig \<Rightarrow> StorageConfig" where
  "storage_of_stored env stored =
     \<lparr>sc_database_path = unwrap_or (default_database_path env)
        (map_option (expand_tilde (ce_home env)) (so_database_path stored)),
      sc_artifact_root = unwrap_or (default_artifact_root env)
        (map_option (expand_tilde (ce_home env)) (so_artifact_root stored)),
      sc_auto_migrate = unwrap_or True (so_auto_migrate stored)\<rparr>"

definition from_stored :: "config_env \<Rightarrow> StoredConfig \<Rightarrow> AppPaths \<Rightarrow> Config result" where
  "from_stored env stored paths =
     rbind (ok_or ''home directory unavailable'' (ce_home env)) (\<lambda>home.
     rbind (load_local_gateway_auth env (path_join (path_join home ''.openclaw'') ''openclaw.json''))
       (\<lambda>auth.
     rbind (gateway_of_stored env (so_gateway stored) auth) (\<lambda>gateway.
     rbind (bail_if (gw_requested_scopes gateway \<noteq> [''operator.write''])
             (''gateway.requested_scopes must be ['' @ quoted ''operator.write'' @ ''] in v1''))
       (\<lambda>_.
     rbind (servers_of_stored env paths [] (so_servers stored)) (\<lambda>servers.
     rbind (normalize_sinks (so_sinks stored)) (\<lambda>sinks.
     rbind (normalize_hard_failure_hooks (so_hard_failure_hooks stored)) (\<lambda>hooks.
     Inr \<lparr>cf_gateway = gateway, cf_servers = servers,
          cf_attention =
            \<lparr>ac_local_pack_paths = sa_local_pack_paths (so_attention stored),
             ac_embedding_backends =
               map (backend_of_stored env) (sa_embedding_backends (so_attention stored))\<rparr>,
          cf_wake_session_key = unwrap_or ''agent:main:main'' (so_wake_session_key stored),
          cf_replay =
            \<lparr>rp_dedupe_window_size = unwrap_or 500 (so_dedupe_window_size stored),
             rp_discard_before_ts = trim_nonempty (so_discard_before_ts stored)\<rparr>,
          cf_logging =
            \<lparr>lg_level = unwrap_or ''info'' (so_logging_level stored),
             lg_json = unwrap_or True (so_logging_json stored)\<rparr>,
          cf_retry = retry_of_stored (so_retry stored),
          cf_storage = storage_of_stored env stored,
          cf_sinks = sinks, cf_hard_failure_hooks = hooks, cf_paths = paths\<rparr>)))))))"

section \<open>Loading, saving and updating\<close>

definition stored_load :: "config_env \<Rightarrow> string \<Rightarrow> StoredConfig result" where
  "stored_load env path =
     (case fs_read (ce_fs env) path of
        Inl _ \<Rightarrow> Inl (''failed reading config '' @ path)
      | Inr raw \<Rightarrow> ok_or (''failed parsing config '' @ path) (ce_parse_stored env raw))"

definition stored_load_or_default :: "config_env \<Rightarrow> string \<Rightarrow> StoredConfig result" where
  "stored_load_or_default env path =
     (if \<not> fs_exists (ce_fs env) path then Inr default_stored_config else stored_load env path)"

definition stored_save :: "config_env \<Rightarrow> StoredConfig \<Rightarrow> string \<Rightarrow> fs_call list" where
  "stored_save env stored path = write_json_atomic path (ce_print_stored env stored)"

definition config_load :: "config_env \<Rightarrow> string \<Rightarrow> Config result" where
  "config_load env path =
     rbind (derive_app_paths env path None) (\<lambda>paths.
     rbind (stored_load env (ap_config_path paths)) (\<lambda>stored.
     from_stored env stored paths))"

definition names_url :: "config_env \<Rightarrow> string \<Rightarrow> StoredServerConfig \<Rightarrow> bool" where
  "names_url env base_url server =
     (case canonicalize_base_url env (ss_base_url server) of
        Inl _ \<Rightarrow> False | Inr value \<Rightarrow> value = base_url)"

text \<open>The first entry that names the URL is updated in place, or a new one is appended.\<close>

fun upsert_in :: "config_env \<Rightarrow> string \<Rightarrow> string \<Rightarrow> string \<Rightarrow> StoredServerConfig list
    \<Rightarrow> StoredServerConfig list" where
  "upsert_in env base_url name ident [] =
     [\<lparr>ss_base_url = base_url, ss_registration_name = Some name, ss_identity = Some ident,
       ss_local_pack_paths = None, ss_enabled = Some True, ss_wake_session_key = None\<rparr>]"
| "upsert_in env base_url name ident (server # rest) =
     (if names_url env base_url server
      then server\<lparr>ss_base_url := base_url, ss_registration_name := Some name,
                  ss_identity := Some ident, ss_enabled := Some True\<rparr> # rest
      else server # upsert_in env base_url name ident rest)"

definition upsert_server :: "config_env \<Rightarrow> string \<Rightarrow> string \<Rightarrow> string \<Rightarrow> StoredConfig \<Rightarrow> StoredConfig" where
  "upsert_server env base_url name ident stored =
     stored\<lparr>so_servers := upsert_in env base_url name ident (so_servers stored)\<rparr>"

definition effective_local_pack_paths :: "ServerConfig \<Rightarrow> string list \<Rightarrow> string list" where
  "effective_local_pack_paths server global_paths = unwrap_or global_paths (sv_local_pack_paths server)"

section \<open>Path components\<close>

definition plain_component :: "string \<Rightarrow> bool" where
  "plain_component s \<longleftrightarrow> s \<noteq> [] \<and> CHR ''/'' \<notin> set s"

lemma path_join_plain: "plain_component b \<Longrightarrow> \<not> prefix ''/'' b"
  by (cases b) (auto simp: plain_component_def)

lemma path_join_ends_plain:
  "plain_component b \<Longrightarrow> path_join a b \<noteq> [] \<and> last (path_join a b) \<noteq> CHR ''/''"
  using path_join_plain [of b]
  by (auto simp: path_join_def plain_component_def) (metis last_in_set)+

lemma path_parent_join:
  assumes "plain_component b" and "a \<noteq> []" and "last a \<noteq> CHR ''/''"
  shows "path_parent (path_join a b) = Some a"
proof -
  have "\<not> suffix ''/'' a"
    using assms(2,3) by (auto simp: suffix_def)
  then have join: "path_join a b = a @ CHR ''/'' # b"
    using assms by (simp add: path_join_def path_join_plain)
  have hd_b: "dropWhile (\<lambda>c. c = CHR ''/'') (rev b @ xs) = rev b @ xs" for xs
    using assms(1) by (cases b rule: rev_cases) (auto simp: plain_component_def)
  have skip_b: "dropWhile (\<lambda>c. c \<noteq> CHR ''/'') (rev b @ CHR ''/'' # xs) = CHR ''/'' # xs" for xs
    using assms(1) by (induction b rule: rev_induct) (auto simp: plain_component_def dropWhile_append)
  have "dropWhile (\<lambda>c. c = CHR ''/'') (rev a) = rev a"
    using assms(2,3) by (cases a rule: rev_cases) auto
  then show ?thesis
    using assms(1,2) hd_b skip_b
    by (simp add: path_parent_def join Let_def plain_component_def)
qed

lemma pop_slashes_no_slash: "s \<noteq> [] \<Longrightarrow> pop_slashes s = ''/'' \<or> (pop_slashes s \<noteq> [] \<and> hd (pop_slashes s) \<noteq> CHR ''/'')"
  by (induction s rule: pop_slashes.induct) auto

text \<open>A normalised path is absolute and has no trailing slash, except the root itself.\<close>

lemma normalize_path_shape:
  "prefix ''/'' (normalize_path p) \<and> (normalize_path p = ''/'' \<or> last (normalize_path p) \<noteq> CHR ''/'')"
proof (cases "trim p = [] \<or> trim p = ''/''")
  case True
  then show ?thesis by (auto simp: normalize_path_def)
next
  case False
  let ?n = "rev (pop_slashes (rev (trim p)))"
  have "?n = ''/'' \<or> (?n \<noteq> [] \<and> last ?n \<noteq> CHR ''/'')"
    using pop_slashes_no_slash [of "rev (trim p)"] False by (auto simp: last_rev)
  with False show ?thesis
    by (auto simp: normalize_path_def Let_def)
qed

section \<open>Server keys\<close>

definition safe_key :: "string \<Rightarrow> bool" where
  "safe_key s \<longleftrightarrow> s \<noteq> [] \<and> (\<forall>c\<in>set s. is_safe c \<or> c = CHR ''_'')"

lemma sanitize_loop_safe: "c \<in> set (sanitize_loop b s) \<Longrightarrow> is_safe c \<or> c = CHR ''_''"
  by (induction b s rule: sanitize_loop.induct) (auto simp: Let_def split: if_splits)

lemma sanitize_component_safe:
  assumes "sanitize_server_key_component raw = Some k"
  shows "safe_key k"
proof -
  have k: "k = trim_underscores (sanitize_loop False raw)" "k \<noteq> []"
    using assms by (auto simp: sanitize_server_key_component_def Let_def split: if_splits)
  have "set k \<subseteq> set (sanitize_loop False raw)"
    unfolding k(1) trim_underscores_def by (auto dest!: set_dropWhileD)
  with k(2) show ?thesis using sanitize_loop_safe by (auto simp: safe_key_def)
qed

lemma digit_string_safe: "safe_key (digit_string n)"
proof (induction n rule: digit_string.induct)
  case (1 n)
  have digit: "is_safe (''0123456789'' ! m)" if "m < 10" for m
  proof -
    have "''0123456789'' ! m \<in> set ''0123456789''"
      using that by (intro nth_mem) simp
    then show ?thesis unfolding is_safe_def by auto
  qed
  show ?case
  proof (cases "n < 10")
    case True
    then show ?thesis using digit [of n] by (subst digit_string.simps) (simp add: safe_key_def)
  next
    case False
    then show ?thesis
      using 1 digit [of "n mod 10"] by (subst digit_string.simps) (auto simp: safe_key_def)
  qed
qed

lemma join_safe: "xs \<noteq> [] \<Longrightarrow> \<forall>x\<in>set xs. safe_key x \<Longrightarrow> safe_key (join ''_'' xs)"
proof (induction xs)
  case Nil
  then show ?case by simp
next
  case (Cons x xs)
  have append: "safe_key a \<Longrightarrow> safe_key b \<Longrightarrow> safe_key (a @ ''_'' @ b)" for a b
    by (auto simp: safe_key_def)
  show ?case
  proof (cases xs)
    case Nil
    with Cons.prems show ?thesis by simp
  next
    case (Cons y ys)
    with Cons.IH Cons.prems have "safe_key x" "safe_key (join ''_'' (y # ys))" by simp_all
    from append [OF this] show ?thesis by (simp add: Cons)
  qed
qed

lemma derive_server_key_safe:
  assumes "derive_server_key env base_url = Inr key"
  shows "safe_key key"
proof -
  obtain scheme host port segs where key:
      "key = join ''_'' ([scheme, host, port_text port]
                @ List.map_filter sanitize_server_key_component segs)"
    and parts: "\<exists>raw. sanitize_server_key_component raw = Some scheme"
      "\<exists>raw. sanitize_server_key_component raw = Some host"
    using assms
    by (fastforce simp: derive_server_key_def result_iffs Let_def Option.bind_eq_Some_conv)
  have "\<forall>x\<in>set ([scheme, host, port_text port]
            @ List.map_filter sanitize_server_key_component segs). safe_key x"
    using parts sanitize_component_safe digit_string_safe
    by (auto simp: port_text_def List.map_filter_def)
  then show ?thesis unfolding key by (intro join_safe) simp
qed

text \<open>Of a host, the key keeps the letters and digits, and where something else stands between them.\<close>

lemma sanitize_loop_unsafe:
  assumes "\<not> is_safe (ascii_lower a)" and "\<not> is_safe (ascii_lower b)"
  shows "sanitize_loop f (pre @ a # suf) = sanitize_loop f (pre @ b # suf)"
  using assms by (induction pre arbitrary: f) (simp_all add: Let_def)

definition url_key :: "url \<Rightarrow> string result" where
  "url_key parsed =
     rbind (ok_or ''server URL missing scheme'' (sanitize_server_key_component (u_scheme parsed))) (\<lambda>scheme.
     rbind (ok_or ''server URL missing host''
             (Option.bind (u_host_str parsed) sanitize_server_key_component)) (\<lambda>host.
     rbind (effective_port parsed) (\<lambda>port.
     Inr (join ''_'' ([scheme, host, port_text port]
       @ List.map_filter sanitize_server_key_component
           (filter (\<lambda>s. s \<noteq> []) (case u_path_segments parsed of None \<Rightarrow> [] | Some ss \<Rightarrow> ss)))))))"

lemma derive_server_key_url:
  "derive_server_key env base_url = rbind (rbind (canonicalize_base_url env base_url) (ce_parse_url env)) url_key"
  by (cases "canonicalize_base_url env base_url")
    (auto simp: derive_server_key_def url_key_def [abs_def] Let_def)

lemma safe_key_plain: "safe_key s \<Longrightarrow> plain_component s"
proof -
  assume s: "safe_key s"
  have "\<not> is_safe CHR ''/''" unfolding is_safe_def by simp
  with s show ?thesis by (auto simp: safe_key_def plain_component_def)
qed

section \<open>Accepted configurations\<close>

lemma servers_of_stored_props:
  assumes "servers_of_stored env paths seen ss = Inr servers"
  shows "distinct (map sv_base_url servers) \<and> set (map sv_base_url servers) \<inter> set seen = {}
    \<and> (\<forall>s\<in>set servers. \<exists>base server. server_of_stored env paths base server = Inr s)"
  using assms
proof (induction ss arbitrary: seen servers)
  case Nil
  then show ?case by simp
next
  case (Cons server rest)
  from Cons.prems obtain base s others where
    canon: "canonicalize_base_url env (ss_base_url server) = Inr base" and new: "base \<notin> set seen"
    and s: "server_of_stored env paths base server = Inr s"
    and rest: "servers_of_stored env paths (base # seen) rest = Inr others"
    and eq: "servers = s # others"
    by (auto simp: result_iffs split: if_splits)
  have base: "sv_base_url s = base" using s by (auto simp: server_of_stored_def result_iffs Let_def)
  from Cons.IH [OF rest] show ?case
    using new s base by (auto simp: eq)
qed

lemma server_of_stored_paths:
  assumes "server_of_stored env paths base server = Inr s"
  shows "safe_key (sv_server_key s)
    \<and> sv_runtime_path s
        = path_join (path_join (path_join (ap_root paths) ''servers'') (sv_server_key s)) ''runtime.json''
    \<and> sv_session_path s
        = path_join (path_join (path_join (ap_root paths) ''servers'') (sv_server_key s))
            ''subspace-session.json''"
  using assms derive_server_key_safe by (auto simp: server_of_stored_def result_iffs Let_def)

lemma server_key_of_url:
  assumes "servers_of_stored env paths [] ss = Inr servers" and "s \<in> set servers"
    and "rbind (canonicalize_base_url env (sv_base_url s)) (ce_parse_url env) = Inr u"
  shows "url_key u = Inr (sv_server_key s)"
    and "sv_runtime_path s
        = path_join (path_join (path_join (ap_root paths) ''servers'') (sv_server_key s)) ''runtime.json''"
    and "sv_session_path s
        = path_join (path_join (path_join (ap_root paths) ''servers'') (sv_server_key s))
            ''subspace-session.json''"
proof -
  from servers_of_stored_props [OF assms(1)] assms(2) obtain base server where
    s: "server_of_stored env paths base server = Inr s" by blast
  then have "derive_server_key env (sv_base_url s) = Inr (sv_server_key s)"
    by (auto simp: server_of_stored_def result_iffs Let_def)
  with assms(3) show "url_key u = Inr (sv_server_key s)" by (simp add: derive_server_key_url)
qed (use server_of_stored_paths in \<open>metis assms(1,2) servers_of_stored_props\<close>)+

lemma sink_entry_trimmed:
  "trim (sk_key (sink_entry kind sink)) = sk_key (sink_entry kind sink)"
  "sk_destination (sink_entry kind sink) = Some d \<Longrightarrow> d \<noteq> [] \<and> trim d = d"
  using trim_nonempty_Some by (auto simp: sink_entry_def)

lemma normalize_sinks_loop_props:
  assumes "normalize_sinks_loop seen ss = Inr sinks"
  shows "distinct (map sk_key sinks) \<and> set (map sk_key sinks) \<inter> set seen = {}
    \<and> (\<forall>s\<in>set sinks. sk_key s \<noteq> [] \<and> (\<exists>kind sink. s = sink_entry kind sink))"
  using assms
proof (induction ss arbitrary: seen sinks)
  case Nil
  then show ?case by simp
next
  case (Cons sink rest)
  then obtain e others kind where
    rest: "normalize_sinks_loop (sk_key e # seen) rest = Inr others"
    and e: "sinks = e # others" "sk_key e \<noteq> []" "sk_key e \<notin> set seen" "e = sink_entry kind sink"
    by (auto simp: result_iffs Let_def split: if_splits)
  from Cons.IH [OF rest] show ?case using e by auto
qed

lemma normalize_hooks_loop_props:
  assumes "normalize_hooks_loop seen n hs = Inr hooks"
  shows "distinct (map hk_key hooks) \<and> set (map hk_key hooks) \<inter> set seen = {}
    \<and> (\<forall>h\<in>set hooks. hk_key h \<noteq> [] \<and> hk_command h \<noteq> [])"
  using assms
proof (induction hs arbitrary: seen n hooks)
  case Nil
  then show ?case by simp
next
  case (Cons hook rest)
  then obtain e others where
    rest: "normalize_hooks_loop (hk_key e # seen) (n + 1) rest = Inr others"
    and e: "hooks = e # others" "hk_key e \<noteq> []" "hk_key e \<notin> set seen" "hk_command e \<noteq> []"
    by (auto simp: result_iffs Let_def split: if_splits)
  from Cons.IH [OF rest] show ?case using e by auto
qed

definition config_well_formed :: "Config \<Rightarrow> bool" where
  "config_well_formed cfg \<longleftrightarrow>
     gw_client_id (cf_gateway cfg) = ''gateway-client'' \<and>
     gw_requested_scopes (cf_gateway cfg) = [''operator.write''] \<and>
     distinct (map sv_base_url (cf_servers cfg)) \<and>
     distinct (map sk_key (cf_sinks cfg)) \<and>
     (\<forall>s\<in>set (cf_sinks cfg). sk_key s \<noteq> [] \<and>
        (case sk_destination s of None \<Rightarrow> True | Some d \<Rightarrow> d \<noteq> [] \<and> trim d = d)) \<and>
     distinct (map hk_key (cf_hard_failure_hooks cfg)) \<and>
     (\<forall>h\<in>set (cf_hard_failure_hooks cfg). hk_key h \<noteq> [] \<and> hk_command h \<noteq> []) \<and>
     (case rp_discard_before_ts (cf_replay cfg) of None \<Rightarrow> True | Some d \<Rightarrow> d \<noteq> [])"

lemma from_stored_parts:
  assumes "from_stored env stored paths = Inr cfg"
  obtains auth where "gateway_of_stored env (so_gateway stored) auth = Inr (cf_gateway cfg)"
    and "gw_requested_scopes (cf_gateway cfg) = [''operator.write'']"
    and "servers_of_stored env paths [] (so_servers stored) = Inr (cf_servers cfg)"
    and "normalize_sinks (so_sinks stored) = Inr (cf_sinks cfg)"
    and "normalize_hard_failure_hooks (so_hard_failure_hooks stored) = Inr (cf_hard_failure_hooks cfg)"
    and "rp_discard_before_ts (cf_replay cfg) = trim_nonempty (so_discard_before_ts stored)"
    and "cf_paths cfg = paths"
  using assms by (auto simp: from_stored_def result_iffs)

lemma gateway_client_id:
  assumes "gateway_of_stored env g auth = Inr gw"
  shows "gw_client_id gw = ''gateway-client''"
proof -
  obtain client_id where "require_gateway_client_id env (sg_client_id g) = Inr client_id"
    "gw_client_id gw = client_id"
    using assms by (auto simp: gateway_of_stored_def result_iffs)
  then show ?thesis
    by (auto simp: require_gateway_client_id_def split: option.splits if_splits)
qed

section \<open>Concrete configurations\<close>

text \<open>A parser for the two URLs below.\<close>

definition demo_url :: "string \<Rightarrow> url" where
  "demo_url host =
     \<lparr>u_scheme = ''https'', u_username = [], u_password = None, u_host_str = Some host,
      u_port = None, u_port_or_known_default = Some 443, u_path = ''/'',
      u_path_segments = Some [[]], u_query = None, u_fragment = None\<rparr>"

definition demo_config_env :: config_env where
  "demo_config_env =
     \<lparr>ce_home = Some ''/h'', ce_fs = (\<lambda>_. None),
      ce_parse_url = (\<lambda>s. if s = ''https://a.b'' then Inr (demo_url ''a.b'')
                         else if s = ''https://a-b'' then Inr (demo_url ''a-b'')
                         else Inl ''relative URL without a base''),
      ce_parse_json = (\<lambda>_. None), ce_parse_stored = (\<lambda>_. None), ce_print_stored = (\<lambda>_. []),
      ce_debug = quoted\<rparr>"

definition demo_stored :: StoredConfig where
  "demo_stored = upsert_server demo_config_env ''https://a-b'' ''two'' ''id''
     (upsert_server demo_config_env ''https://a.b'' ''one'' ''id'' default_stored_config)"

definition demo_paths :: AppPaths where
  "demo_paths = (case derive_app_paths demo_config_env ''/h/d/config.json'' None of
     Inr p \<Rightarrow> p
   | Inl _ \<Rightarrow> \<lparr>ap_root = [], ap_config_path = [], ap_socket_path = [], ap_log_file = [],
       ap_identities_dir = [], ap_gateway_private_key_path = [], ap_gateway_public_key_path = [],
       ap_gateway_device_auth_store_path = [], ap_launchd_plist_path = [], ap_state_lock_path = []\<rparr>)"

lemma demo_canonical:
  "canonicalize_base_url demo_config_env ''https://a.b'' = Inr ''https://a.b''"
  "canonicalize_base_url demo_config_env ''https://a-b'' = Inr ''https://a-b''"
  by code_simp+

lemma demo_keys:
  "derive_server_key demo_config_env ''https://a.b'' = Inr ''https_a_b_443''"
  "derive_server_key demo_config_env ''https://a-b'' = Inr ''https_a_b_443''"
  by code_simp+

lemma demo_ws:
  "derive_subspace_ws_url demo_config_env ''https://a.b''
     = Inr ''wss://a.b/api/firehose/stream/websocket''"
  "derive_subspace_ws_url demo_config_env ''https://a-b''
     = Inr ''wss://a-b/api/firehose/stream/websocket''"
  by code_simp+

lemma demo_path_values:
  "ap_root demo_paths = ''/h/d''"
  by code_simp

lemma demo_stored_fields:
  "map ss_base_url (so_servers demo_stored) = [''https://a.b'', ''https://a-b'']"
  "so_sinks demo_stored = None" "so_hard_failure_hooks demo_stored = None"
  "so_gateway demo_stored = so_gateway default_stored_config"
  by (simp_all add: demo_stored_def upsert_server_def default_stored_config_def names_url_def
      demo_canonical)

lemma demo_servers:
  "\<exists>s1 s2. servers_of_stored demo_config_env demo_paths [] (so_servers demo_stored) = Inr [s1, s2]
     \<and> sv_base_url s1 = ''https://a.b'' \<and> sv_base_url s2 = ''https://a-b''"
proof -
  obtain a b where "so_servers demo_stored = [a, b]" "ss_base_url a = ''https://a.b''"
    "ss_base_url b = ''https://a-b''"
    using demo_stored_fields(1) by auto
  then show ?thesis
    by (auto simp: demo_canonical server_of_stored_def demo_keys demo_ws Let_def)
qed

lemma demo_gateway:
  "\<exists>g. gateway_of_stored demo_config_env (so_gateway demo_stored) auth = Inr g
     \<and> gw_requested_scopes g = [''operator.write'']"
proof -
  have "normalize_scopes [''operator.write''] = [''operator.write'']" by code_simp
  then show ?thesis
    unfolding demo_stored_fields
    by (simp add: gateway_of_stored_def default_stored_config_def require_gateway_client_id_def
        trim_nonempty_def)
qed

lemma demo_accepted:
  "\<exists>cfg s1 s2. from_stored demo_config_env demo_stored demo_paths = Inr cfg
     \<and> cf_servers cfg = [s1, s2] \<and> sv_base_url s1 = ''https://a.b'' \<and> sv_base_url s2 = ''https://a-b''"
proof -
  have auth: "load_local_gateway_auth demo_config_env p
      = Inr \<lparr>la_shared_token = None, la_shared_password = None\<rparr>" for p
    by (simp add: load_local_gateway_auth_def demo_config_env_def fs_exists_def)
  have home: "ce_home demo_config_env = Some ''/h''" by (simp add: demo_config_env_def)
  from demo_servers demo_gateway [of "\<lparr>la_shared_token = None, la_shared_password = None\<rparr>"]
  show ?thesis
    by (auto simp: from_stored_def home auth normalize_sinks_def normalize_hard_failure_hooks_def
        demo_stored_fields)
qed

section \<open>Properties\<close>

text \<open>
  Claim C24. A stored configuration that \<open>Config::from_stored\<close> accepts is well formed: the gateway
  client id and scopes are the only permitted ones, server URLs, sink keys and hook keys are
  unique, keys, hook commands and destinations are not empty, and the replay floor is absent or
  not empty.
\<close>

theorem from_stored_well_formed:
  assumes "from_stored env stored paths = Inr cfg"
  shows "config_well_formed cfg"
proof -
  from assms obtain auth where
    gw: "gateway_of_stored env (so_gateway stored) auth = Inr (cf_gateway cfg)"
    and scopes: "gw_requested_scopes (cf_gateway cfg) = [''operator.write'']"
    and servers: "servers_of_stored env paths [] (so_servers stored) = Inr (cf_servers cfg)"
    and sinks: "normalize_sinks (so_sinks stored) = Inr (cf_sinks cfg)"
    and hooks: "normalize_hard_failure_hooks (so_hard_failure_hooks stored)
                  = Inr (cf_hard_failure_hooks cfg)"
    and floor_ts: "rp_discard_before_ts (cf_replay cfg) = trim_nonempty (so_discard_before_ts stored)"
    by (rule from_stored_parts)
  have "gw_client_id (cf_gateway cfg) = ''gateway-client''"
    using gw by (rule gateway_client_id)
  moreover note servers_of_stored_props [OF servers]
    normalize_sinks_loop_props [OF sinks [unfolded normalize_sinks_def]]
    normalize_hooks_loop_props [OF hooks [unfolded normalize_hard_failure_hooks_def]]
  moreover have "case rp_discard_before_ts (cf_replay cfg) of None \<Rightarrow> True | Some d \<Rightarrow> d \<noteq> []"
    unfolding floor_ts using trim_nonempty_Some by (auto split: option.splits)
  ultimately show ?thesis using scopes sink_entry_trimmed
    unfolding config_well_formed_def by (force split: option.splits)
qed

theorem from_stored_well_formed_witness:
  "\<exists>cfg. from_stored demo_config_env demo_stored demo_paths = Inr cfg \<and> config_well_formed cfg"
  using demo_accepted from_stored_well_formed [of demo_config_env demo_stored demo_paths] by blast

text \<open>
  Claim C25. The state of a server stays below \<open>servers/\<close>: whatever the configured URL, the server
  key is a non-empty string over \<open>a-z\<close>, \<open>0-9\<close> and \<open>_\<close>, so that it is a single path component, and
  the session and the runtime file are placed in the directory that it names directly below
  \<open>servers/\<close>.
\<close>

theorem server_files_confined:
  assumes "from_stored env stored paths = Inr cfg" and "s \<in> set (cf_servers cfg)"
  defines "dir \<equiv> path_join (path_join (ap_root paths) ''servers'') (sv_server_key s)"
  shows "safe_key (sv_server_key s)
    \<and> path_parent dir = Some (path_join (ap_root paths) ''servers'')
    \<and> path_parent (sv_runtime_path s) = Some dir \<and> path_parent (sv_session_path s) = Some dir"
proof -
  from assms(1) have "servers_of_stored env paths [] (so_servers stored) = Inr (cf_servers cfg)"
    by (rule from_stored_parts)
  from servers_of_stored_props [OF this] assms(2) obtain base server where
    s: "server_of_stored env paths base server = Inr s" by blast
  note p = server_of_stored_paths [OF s]
  have key: "plain_component (sv_server_key s)" using p safe_key_plain by blast
  have files: "plain_component ''servers''" "plain_component ''runtime.json''"
    "plain_component ''subspace-session.json''"
    by (simp_all add: plain_component_def)
  have dir: "dir \<noteq> []" "last dir \<noteq> CHR ''/''"
    using path_join_ends_plain [OF key] unfolding dir_def by auto
  show ?thesis
    using p path_parent_join [OF key] path_join_ends_plain [OF files(1)]
      path_parent_join [OF files(2) dir] path_parent_join [OF files(3) dir]
    by (simp add: dir_def)
qed

theorem server_files_confined_witness:
  "\<exists>cfg s. from_stored demo_config_env demo_stored demo_paths = Inr cfg \<and> s \<in> set (cf_servers cfg)
     \<and> safe_key (sv_server_key s)
     \<and> path_parent (sv_runtime_path s)
         = Some (path_join (path_join (ap_root demo_paths) ''servers'') (sv_server_key s))"
proof -
  from demo_accepted obtain cfg s1 s2 where
    "from_stored demo_config_env demo_stored demo_paths = Inr cfg" "cf_servers cfg = [s1, s2]"
    by blast
  with server_files_confined [of demo_config_env demo_stored demo_paths cfg s1] show ?thesis
    by auto
qed

text \<open>
  Claim C40. Server keys do not tell servers apart: in every accepted configuration, two servers
  whose URLs have the same scheme, port and path, and hosts that differ only in one character for
  another that is neither a letter nor a digit, as \<open>a.b\<close> and \<open>a-b\<close>, have different base URLs and
  the same server key; they share their session file and their runtime file.
\<close>

theorem server_key_collision:
  assumes accepted: "from_stored env stored paths = Inr cfg" "s1 \<in> set (cf_servers cfg)" "s2 \<in> set (cf_servers cfg)"
    and urls: "rbind (canonicalize_base_url env (sv_base_url s1)) (ce_parse_url env) = Inr u1"
      "rbind (canonicalize_base_url env (sv_base_url s2)) (ce_parse_url env) = Inr u2"
    and same: "u_scheme u1 = u_scheme u2" "effective_port u1 = effective_port u2"
      "u_path_segments u1 = u_path_segments u2"
    and hosts: "u_host_str u1 = Some (pre @ a # suf)" "u_host_str u2 = Some (pre @ b # suf)" "a \<noteq> b"
      "\<not> is_safe (ascii_lower a)" "\<not> is_safe (ascii_lower b)"
  shows "sv_base_url s1 \<noteq> sv_base_url s2 \<and> sv_server_key s1 = sv_server_key s2
    \<and> sv_session_path s1 = sv_session_path s2 \<and> sv_runtime_path s1 = sv_runtime_path s2"
proof -
  have servers: "servers_of_stored env paths [] (so_servers stored) = Inr (cf_servers cfg)"
    using accepted(1) by (rule from_stored_parts)
  note made = server_key_of_url [OF servers]
  have "sanitize_server_key_component (pre @ a # suf) = sanitize_server_key_component (pre @ b # suf)"
    using sanitize_loop_unsafe [OF hosts(4,5)] by (simp add: sanitize_server_key_component_def)
  with same hosts(1,2) have "url_key u1 = url_key u2" by (simp add: url_key_def)
  with made [OF accepted(2) urls(1)] made [OF accepted(3) urls(2)]
  have "sv_server_key s1 = sv_server_key s2" by simp
  moreover have "sv_base_url s1 \<noteq> sv_base_url s2" using urls hosts(1-3) by auto
  ultimately show ?thesis
    using made [OF accepted(2) urls(1)] made [OF accepted(3) urls(2)] by simp
qed

theorem server_key_collision_witness:
  "\<exists>cfg s1 s2. from_stored demo_config_env demo_stored demo_paths = Inr cfg
     \<and> cf_servers cfg = [s1, s2] \<and> sv_base_url s1 = ''https://a.b'' \<and> sv_base_url s2 = ''https://a-b''
     \<and> sv_server_key s1 = sv_server_key s2 \<and> sv_runtime_path s1 = sv_runtime_path s2"
proof -
  obtain cfg s1 s2 where cfg: "from_stored demo_config_env demo_stored demo_paths = Inr cfg"
    "cf_servers cfg = [s1, s2]" "sv_base_url s1 = ''https://a.b''" "sv_base_url s2 = ''https://a-b''"
    using demo_accepted by blast
  have "sv_server_key s1 = sv_server_key s2 \<and> sv_runtime_path s1 = sv_runtime_path s2"
    using server_key_collision [OF cfg(1), of s1 s2 "demo_url ''a.b''" "demo_url ''a-b''" "''a''" "CHR ''.''" "''b''" "CHR ''-''"]
    by (simp add: cfg demo_canonical demo_config_env_def [THEN arg_cong [of _ _ ce_parse_url]] demo_url_def
        effective_port_def is_safe_def ascii_lower_def)
  with cfg show ?thesis by blast
qed

text \<open>
  \<open>upsert_server\<close> registers a server once: afterwards exactly the first entry that names
  the URL, or a new entry at the end, is enabled with the given name and identity; every other
  entry is unchanged and keeps its position, and pack paths and session key of an updated entry
  are kept.
\<close>

theorem upsert_server_effect:
  "\<exists>before target after updated.
     so_servers stored = before @ target @ after
   \<and> so_servers (upsert_server env base_url name ident stored) = before @ [updated] @ after
   \<and> list_all (\<lambda>s. \<not> names_url env base_url s) before
   \<and> ss_base_url updated = base_url \<and> ss_registration_name updated = Some name
   \<and> ss_identity updated = Some ident \<and> ss_enabled updated = Some True
   \<and> (case target of
        [] \<Rightarrow> after = [] \<and> ss_local_pack_paths updated = None \<and> ss_wake_session_key updated = None
      | s # others \<Rightarrow> others = [] \<and> names_url env base_url s
          \<and> ss_local_pack_paths updated = ss_local_pack_paths s
          \<and> ss_wake_session_key updated = ss_wake_session_key s)"
proof -
  define unnamed where "unnamed = (\<lambda>s. \<not> names_url env base_url s)"
  define before where "before = takeWhile unnamed (so_servers stored)"
  define rest where "rest = dropWhile unnamed (so_servers stored)"
  have split: "so_servers stored = before @ rest" by (simp add: before_def rest_def)
  have pre: "list_all unnamed before"
    by (auto simp: before_def list_all_iff dest: set_takeWhileD)
  have skip: "upsert_in env base_url name ident (before @ xs)
      = before @ upsert_in env base_url name ident xs" for xs
    using pre by (induction before) (auto simp: unnamed_def)
  show ?thesis
  proof (cases rest)
    case Nil
    then show ?thesis
      by (rule_tac x = before in exI, rule_tac x = "[]" in exI, rule_tac x = "[]" in exI)
        (use pre skip [of "[]"] in \<open>simp add: upsert_server_def split unnamed_def\<close>)
  next
    case (Cons s after)
    then have "names_url env base_url s"
      using hd_dropWhile [of unnamed "so_servers stored"] by (simp add: rest_def unnamed_def)
    then show ?thesis
      by (rule_tac x = before in exI, rule_tac x = "[s]" in exI, rule_tac x = after in exI)
        (use Cons pre in \<open>simp add: upsert_server_def split skip unnamed_def\<close>)
  qed
qed


end
