(* ===== verification/Hard_Failure.thy ===== *)
theory Hard_Failure
  imports Config_Ops
begin

text \<open>
  Hard failure hooks, \<^verbatim>\<open>src/src/hard_failure.rs\<close>: which hooks run for an event, with which
  command line, and the throttle. The clock and the printing of the event are arguments; the
  outcome of a hook process is only logged by the daemon and has no effect on its state.
\<close>

section \<open>Data\<close>

record HardFailureEvent =
  he_kind :: string
  he_component :: string
  he_target :: "string option"
  he_message :: string
  he_metadata :: json

text \<open>The enabled hooks, and when each throttle key was last let through (in nanoseconds).\<close>

record HardFailureHooks =
  hh_hooks :: "HardFailureHookConfig list"
  hh_last_sent :: "string \<rightharpoonup> int"

record hook_run =
  hr_hook_key :: string
  hr_command :: string
  hr_args :: "string list"
  hr_env :: "string \<rightharpoonup> string"
  hr_stdin :: string

section \<open>Operations\<close>

definition dedupe_key :: "HardFailureEvent \<Rightarrow> string" where
  "dedupe_key e = he_kind e @ '':'' @ he_component e @ '':'' @ unwrap_or [] (he_target e)"

definition hooks_new :: "HardFailureHookConfig list \<Rightarrow> HardFailureHooks" where
  "hooks_new hooks = \<lparr>hh_hooks = filter hk_enabled hooks, hh_last_sent = Map.empty\<rparr>"

definition hooks_is_empty :: "HardFailureHooks \<Rightarrow> bool" where
  "hooks_is_empty hs \<longleftrightarrow> hh_hooks hs = []"

definition render_template :: "string \<Rightarrow> HardFailureEvent \<Rightarrow> string \<Rightarrow> string" where
  "render_template template e payload =
     replace_all ''{{message}}'' (he_message e)
       (replace_all ''{{target}}'' (unwrap_or [] (he_target e))
         (replace_all ''{{component}}'' (he_component e)
           (replace_all ''{{kind}}'' (he_kind e)
             (replace_all ''{{payload}}'' payload template))))"

text \<open>\<open>run_hook\<close> up to the start of the process: what is executed.\<close>

definition run_hook :: "HardFailureHookConfig \<Rightarrow> HardFailureEvent \<Rightarrow> string \<Rightarrow> hook_run" where
  "run_hook hook e payload =
     \<lparr>hr_hook_key = hk_key hook,
      hr_command = render_template (hk_command hook) e payload,
      hr_args = map (\<lambda>arg. render_template arg e payload) (hk_args hook),
      hr_env = (\<lambda>k. map_option (\<lambda>v. render_template v e payload) (hk_env hook k)),
      hr_stdin = render_template (hk_template hook) e payload\<rparr>"

definition throttle_key :: "HardFailureHookConfig \<Rightarrow> HardFailureEvent \<Rightarrow> string" where
  "throttle_key hook e = hk_key hook @ '':'' @ dedupe_key e"

definition throttle_ns :: "HardFailureHookConfig \<Rightarrow> int" where
  "throttle_ns hook = uint (hk_throttle_ms hook) * 1000000"

text \<open>\<open>duration_since\<close> is zero when the clock reads earlier than the recorded instant.\<close>

definition throttled :: "int \<Rightarrow> HardFailureHookConfig \<Rightarrow> HardFailureEvent \<Rightarrow> HardFailureHooks
    \<Rightarrow> bool \<times> HardFailureHooks" where
  "throttled now hook e hs =
     (if throttle_ns hook = 0 then (False, hs)
      else let key = throttle_key hook e
           in if (case hh_last_sent hs key of
                    None \<Rightarrow> False
                  | Some prev \<Rightarrow> max 0 (now - prev) < throttle_ns hook)
              then (True, hs)
              else (False, hs\<lparr>hh_last_sent := (hh_last_sent hs)(key \<mapsto> now)\<rparr>))"

text \<open>The loop of \<open>fire\<close>; the \<open>i\<close>-th call to \<open>throttled\<close> reads the clock as \<open>clock i\<close>.\<close>

fun fire_loop :: "(nat \<Rightarrow> int) \<Rightarrow> nat \<Rightarrow> HardFailureEvent \<Rightarrow> string \<Rightarrow> HardFailureHookConfig list
    \<Rightarrow> HardFailureHooks \<Rightarrow> hook_run list \<times> HardFailureHooks" where
  "fire_loop clock i e payload [] hs = ([], hs)"
| "fire_loop clock i e payload (hook # rest) hs =
     (let (skip, hs1) = throttled (clock i) hook e hs;
          (runs, hs2) = fire_loop clock (Suc i) e payload rest hs1
      in (if skip then runs else run_hook hook e payload # runs, hs2))"

definition fire :: "(HardFailureEvent \<Rightarrow> string result) \<Rightarrow> (nat \<Rightarrow> int) \<Rightarrow> HardFailureEvent
    \<Rightarrow> HardFailureHooks \<Rightarrow> hook_run list \<times> HardFailureHooks" where
  "fire print_event clock e hs =
     (if hooks_is_empty hs then ([], hs)
      else case print_event e of
             Inl _ \<Rightarrow> ([], hs)
           | Inr payload \<Rightarrow> fire_loop clock 0 e payload (hh_hooks hs) hs)"

section \<open>One fire\<close>

text \<open>The throttle key of the hook was let through less than the throttle before.\<close>

definition held :: "int \<Rightarrow> HardFailureHookConfig \<Rightarrow> HardFailureEvent \<Rightarrow> HardFailureHooks \<Rightarrow> bool" where
  "held now hook e hs \<longleftrightarrow>
     (\<exists>prev. hh_last_sent hs (throttle_key hook e) = Some prev \<and> max 0 (now - prev) < throttle_ns hook)"

lemma throttle_ns_nonneg: "0 \<le> throttle_ns hook"
  by (simp add: throttle_ns_def)

lemma throttled_skip: "fst (throttled now hook e hs) \<longleftrightarrow> held now hook e hs"
  by (auto simp: throttled_def held_def Let_def split: option.splits)

lemma throttled_sent:
  "hh_last_sent (snd (throttled now hook e hs)) k =
     (if k = throttle_key hook e \<and> throttle_ns hook \<noteq> 0 \<and> \<not> held now hook e hs then Some now else hh_last_sent hs k)"
  by (auto simp: throttled_def held_def Let_def split: option.splits)

lemma throttled_hooks: "hh_hooks (snd (throttled now hook e hs)) = hh_hooks hs"
  by (simp add: throttled_def Let_def)

lemma throttle_key_hook: "throttle_key h e = throttle_key h' e \<longleftrightarrow> hk_key h = hk_key h'"
  by (simp add: throttle_key_def)

lemma throttle_key_others:
  assumes "distinct (map hk_key (h # hooks))" and "h' \<in> set hooks"
  shows "throttle_key h' e \<noteq> throttle_key h e"
proof -
  from assms(2) have "hk_key h' \<in> hk_key ` set hooks" by (rule imageI)
  moreover from assms(1) have "hk_key h \<notin> hk_key ` set hooks" by simp
  ultimately have "hk_key h' \<noteq> hk_key h" by metis
  then show ?thesis by (simp add: throttle_key_hook)
qed

text \<open>Hooks with different keys do not disturb each other within one fire.\<close>

lemma fire_loop_runs:
  assumes "distinct (map hk_key hooks)"
  shows "fst (fire_loop clock i e payload hooks hs) =
     map (\<lambda>(n, h). run_hook h e payload) (filter (\<lambda>(n, h). \<not> held (clock n) h e hs) (enumerate i hooks))"
  using assms
proof (induction hooks arbitrary: i hs)
  case Nil
  show ?case by simp
next
  case (Cons h hooks)
  let ?hs1 = "snd (throttled (clock i) h e hs)"
  have "held (clock n) h' e ?hs1 \<longleftrightarrow> held (clock n) h' e hs" if "(n, h') \<in> set (enumerate (Suc i) hooks)" for n h'
  proof -
    from that have "h' \<in> set hooks" by (auto simp: in_set_enumerate_eq)
    with Cons.prems have "throttle_key h' e \<noteq> throttle_key h e" by (rule throttle_key_others)
    then show ?thesis by (simp add: held_def throttled_sent)
  qed
  then have same: "filter (\<lambda>a. \<not> held (clock (fst a)) (snd a) e ?hs1) (enumerate (Suc i) hooks)
      = filter (\<lambda>a. \<not> held (clock (fst a)) (snd a) e hs) (enumerate (Suc i) hooks)"
    by (intro filter_cong) auto
  from Cons.IH [of "Suc i" ?hs1] Cons.prems throttled_skip [of "clock i" h e hs] same show ?case
    by (simp add: case_prod_unfold)
qed

lemma fire_loop_hooks: "hh_hooks (snd (fire_loop clock i e payload hooks hs)) = hh_hooks hs"
  by (induction hooks arbitrary: i hs) (simp_all add: case_prod_beta throttled_hooks)

lemma fire_loop_sent:
  "hh_last_sent (snd (fire_loop clock i e payload hooks hs)) k = hh_last_sent hs k
   \<or> (\<exists>n<length hooks. hh_last_sent (snd (fire_loop clock i e payload hooks hs)) k = Some (clock (i + n)))"
proof (induction hooks arbitrary: i hs)
  case Nil
  show ?case by simp
next
  case (Cons h hooks)
  let ?hs1 = "snd (throttled (clock i) h e hs)"
  have "hh_last_sent ?hs1 k = hh_last_sent hs k \<or> hh_last_sent ?hs1 k = Some (clock (i + 0))"
    by (simp add: throttled_sent)
  with Cons.IH [of "Suc i" ?hs1] show ?case
    by (simp add: case_prod_beta) (metis Suc_less_eq add.right_neutral add_Suc_right zero_less_Suc)
qed

lemma fire_loop_records:
  assumes "distinct (map hk_key hooks)" and "p < length hooks" and "0 < throttle_ns (hooks ! p)"
    and "\<not> held (clock (i + p)) (hooks ! p) e hs"
  shows "hh_last_sent (snd (fire_loop clock i e payload hooks hs)) (throttle_key (hooks ! p) e) = Some (clock (i + p))"
  using assms
proof (induction hooks arbitrary: i hs p)
  case Nil
  then show ?case by simp
next
  case (Cons h hooks)
  let ?hs1 = "snd (throttled (clock i) h e hs)"
  have others: "hh_last_sent (snd (fire_loop clock j e payload hooks hs')) (throttle_key h e)
      = hh_last_sent hs' (throttle_key h e)" for j hs'
  proof -
    have "\<forall>h'\<in>set hooks. throttle_key h e \<noteq> throttle_key h' e"
      using throttle_key_others [OF Cons.prems(1)] by metis
    then show ?thesis
      by (induction hooks arbitrary: j hs') (auto simp: case_prod_beta throttled_sent)
  qed
  show ?case
  proof (cases p)
    case 0
    with Cons.prems others show ?thesis by (simp add: case_prod_beta throttled_sent)
  next
    case (Suc q)
    then have "throttle_key (hooks ! q) e \<noteq> throttle_key h e"
      using Cons.prems(2) by (intro throttle_key_others [OF Cons.prems(1)]) simp
    then have "\<not> held (clock (Suc i + q)) (hooks ! q) e ?hs1"
      using Cons.prems(4) Suc by (simp add: held_def throttled_sent)
    from Cons.IH [OF _ _ _ this] Cons.prems Suc show ?thesis by (simp add: case_prod_beta)
  qed
qed

lemma fire_runs:
  assumes "distinct (map hk_key (hh_hooks hs))"
  shows "fst (fire print_event clock e hs) =
     (case print_event e of
        Inl _ \<Rightarrow> []
      | Inr payload \<Rightarrow> map (\<lambda>(n, h). run_hook h e payload)
          (filter (\<lambda>(n, h). \<not> held (clock n) h e hs) (enumerate 0 (hh_hooks hs))))"
  using fire_loop_runs [OF assms, of clock 0] by (auto simp: fire_def hooks_is_empty_def split: sum.splits)

lemma fire_hooks: "hh_hooks (snd (fire print_event clock e hs)) = hh_hooks hs"
  by (simp add: fire_def fire_loop_hooks split: sum.split)

section \<open>Many fires\<close>

text \<open>Failures that are fired one after the other, with the runs of the hooks for each.\<close>

fun fire_all :: "(HardFailureEvent \<Rightarrow> string result) \<Rightarrow> ((nat \<Rightarrow> int) \<times> HardFailureEvent) list \<Rightarrow> HardFailureHooks
    \<Rightarrow> hook_run list list" where
  "fire_all print_event [] hs = []"
| "fire_all print_event ((clock, e) # calls) hs =
     (let (runs, hs1) = fire print_event clock e hs in runs # fire_all print_event calls hs1)"

lemma length_fire_all [simp]: "length (fire_all print_event calls hs) = length calls"
  by (induction calls arbitrary: hs) (auto simp: case_prod_beta)

text \<open>The readings of the clock, one per hook, in the order of the calls.\<close>

definition readings :: "nat \<Rightarrow> ((nat \<Rightarrow> int) \<times> HardFailureEvent) list \<Rightarrow> int list" where
  "readings n calls = concat (map (\<lambda>(clock, e). map clock [0..<n]) calls)"

lemma readings_Cons [simp]: "readings n ((clock, e) # calls) = map clock [0..<n] @ readings n calls"
  by (simp add: readings_def)

lemma ran_not_held:
  assumes "distinct (map hk_key (hh_hooks hs))" and "p < length (hh_hooks hs)"
    and "hk_key (hh_hooks hs ! p) \<in> hr_hook_key ` set (fst (fire print_event clock e hs))"
  shows "\<not> held (clock p) (hh_hooks hs ! p) e hs" and "\<exists>payload. print_event e = Inr payload"
proof -
  from assms(3) show "\<exists>payload. print_event e = Inr payload"
    by (cases "print_event e") (auto simp: fire_runs [OF assms(1)])
  from assms(3) obtain n h where n: "(n, h) \<in> set (enumerate 0 (hh_hooks hs))" "\<not> held (clock n) h e hs"
    "hk_key h = hk_key (hh_hooks hs ! p)"
    by (auto simp: fire_runs [OF assms(1)] run_hook_def split: sum.splits)
  then have "n < length (hh_hooks hs)" "h = hh_hooks hs ! n" by (auto simp: in_set_enumerate_eq)
  with n(3) assms(1,2) have "n = p" by (auto simp: distinct_conv_nth)
  with n(2) \<open>h = _\<close> show "\<not> held (clock p) (hh_hooks hs ! p) e hs" by simp
qed

lemma fire_later:
  assumes "hh_last_sent hs k = Some t" and "sorted (t # map clock [0..<length (hh_hooks hs)] @ ts)"
  shows "\<exists>t'\<ge>t. hh_last_sent (snd (fire print_event clock e hs)) k = Some t' \<and> sorted (t' # ts)"
proof -
  have loop: "hh_last_sent (snd (fire print_event clock e hs)) k = Some t
      \<or> (\<exists>n<length (hh_hooks hs). hh_last_sent (snd (fire print_event clock e hs)) k = Some (clock n))"
    using fire_loop_sent [of clock 0 e _ "hh_hooks hs" hs k] assms(1)
    by (auto simp: fire_def split: sum.splits)
  from loop show ?thesis
  proof (elim disjE exE conjE)
    assume "hh_last_sent (snd (fire print_event clock e hs)) k = Some t"
    with assms(2) show ?thesis by (auto simp: sorted_append)
  next
    fix n assume "n < length (hh_hooks hs)" "hh_last_sent (snd (fire print_event clock e hs)) k = Some (clock n)"
    moreover from this assms(2) have "t \<le> clock n" "\<forall>x\<in>set ts. clock n \<le> x" by (auto simp: sorted_append)
    ultimately show ?thesis using assms(2) by (auto simp: sorted_append)
  qed
qed

lemma next_run_spaced:
  assumes "hh_last_sent hs (throttle_key hook e) = Some t" and "0 < throttle_ns hook"
    and "distinct (map hk_key (hh_hooks hs))" and "p < length (hh_hooks hs)" "hh_hooks hs ! p = hook"
    and "j < length calls" "calls ! j = (clock, e')" "dedupe_key e' = dedupe_key e"
    and "hk_key hook \<in> hr_hook_key ` set (fire_all print_event calls hs ! j)"
    and "sorted (t # readings (length (hh_hooks hs)) calls)"
  shows "throttle_ns hook \<le> clock p - t"
  using assms
proof (induction calls arbitrary: hs t j)
  case Nil
  then show ?case by simp
next
  case (Cons c calls)
  obtain cl f where c: "c = (cl, f)" by (cases c)
  have key: "throttle_key hook e' = throttle_key hook e" using Cons.prems(8) by (simp add: throttle_key_def)
  show ?case
  proof (cases j)
    case 0
    with Cons.prems c have "hk_key (hh_hooks hs ! p) \<in> hr_hook_key ` set (fst (fire print_event clock e' hs))"
      by (simp add: case_prod_beta)
    from ran_not_held(1) [OF Cons.prems(3,4) this] Cons.prems(1,2,5) show ?thesis
      by (auto simp: held_def key)
  next
    case (Suc i)
    let ?hs1 = "snd (fire print_event cl f hs)"
    have "sorted (t # map cl [0..<length (hh_hooks hs)] @ readings (length (hh_hooks hs)) calls)"
      using Cons.prems(10) by (simp add: c)
    from fire_later [OF Cons.prems(1) this] obtain t' where t': "t \<le> t'"
      "hh_last_sent ?hs1 (throttle_key hook e) = Some t'" "sorted (t' # readings (length (hh_hooks hs)) calls)"
      by blast
    have "throttle_ns hook \<le> clock p - t'"
      using Cons.prems Suc c t' by (intro Cons.IH [of ?hs1 t' i]) (simp_all add: fire_hooks case_prod_beta)
    with t'(1) show ?thesis by simp
  qed
qed

lemma runs_spaced:
  assumes "0 < throttle_ns hook"
    and "distinct (map hk_key (hh_hooks hs))" and "p < length (hh_hooks hs)" "hh_hooks hs ! p = hook"
    and "i < j" "j < length calls"
    and "calls ! i = (clock, e)" "calls ! j = (clock', e')" "dedupe_key e' = dedupe_key e"
    and "hk_key hook \<in> hr_hook_key ` set (fire_all print_event calls hs ! i)"
    and "hk_key hook \<in> hr_hook_key ` set (fire_all print_event calls hs ! j)"
    and "sorted (readings (length (hh_hooks hs)) calls)"
  shows "throttle_ns hook \<le> clock' p - clock p"
  using assms(2-)
proof (induction calls arbitrary: hs i j)
  case Nil
  then show ?case by simp
next
  case (Cons c calls)
  obtain cl f where c: "c = (cl, f)" by (cases c)
  let ?hs1 = "snd (fire print_event cl f hs)"
  from Cons.prems(4) obtain j' where j: "j = Suc j'" by (cases j) auto
  show ?case
  proof (cases i)
    case 0
    then have cf: "cl = clock" "f = e" using Cons.prems(6) c by simp_all
    have ran: "hk_key (hh_hooks hs ! p) \<in> hr_hook_key ` set (fst (fire print_event clock e hs))"
      using Cons.prems(3,9) 0 c cf by (simp add: case_prod_beta)
    from ran_not_held [OF Cons.prems(1,2) ran] obtain payload where
      pay: "print_event e = Inr payload" "\<not> held (clock p) hook e hs" using Cons.prems(3) by auto
    have same: "throttle_key hook e' = throttle_key hook e" using Cons.prems(8) by (simp add: throttle_key_def)
    have "hh_last_sent ?hs1 (throttle_key hook e) = Some (clock p)"
      using fire_loop_records [of "hh_hooks hs" p clock 0 e hs payload] Cons.prems(1-3) assms(1) pay cf
      by (auto simp: fire_def hooks_is_empty_def)
    moreover have "sorted (clock p # readings (length (hh_hooks hs)) calls)"
      using Cons.prems(2,11) c cf by (auto simp: sorted_append)
    ultimately show ?thesis
      using Cons.prems j c cf assms(1) same
      by (intro next_run_spaced [where hs = ?hs1 and calls = calls and j = j']) (simp_all add: fire_hooks case_prod_beta)
  next
    case (Suc i')
    with Cons.prems c j show ?thesis
      by (intro Cons.IH [of ?hs1 i' j']) (simp_all add: fire_hooks case_prod_beta sorted_append)
  qed
qed

section \<open>Properties\<close>

text \<open>
  Claim C28. Throttling: a fire runs exactly the hooks that are not held back, in their order, where a
  hook is held back when its throttle key was let through less than \<open>throttle_ms\<close> before. So, however
  fires for different failures follow each other, two runs of a hook for the same kind, component and
  target are at least \<open>throttle_ms\<close> apart. Hooks have distinct keys, as in an accepted configuration,
  and the clock does not go backwards.
\<close>

theorem hook_runs_spaced:
  assumes keys: "distinct (map hk_key (hh_hooks hs))"
  shows "fst (fire print_event clock e hs) =
      (case print_event e of
         Inl _ \<Rightarrow> []
       | Inr payload \<Rightarrow> map (\<lambda>(n, h). run_hook h e payload)
           (filter (\<lambda>(n, h). \<not> held (clock n) h e hs) (enumerate 0 (hh_hooks hs))))
    \<and> (\<forall>p hook i j clock1 clock2 e1 e2.
         p < length (hh_hooks hs) \<and> hh_hooks hs ! p = hook \<and> 0 < throttle_ns hook
         \<and> i < j \<and> j < length calls \<and> calls ! i = (clock1, e1) \<and> calls ! j = (clock2, e2)
         \<and> dedupe_key e2 = dedupe_key e1 \<and> sorted (readings (length (hh_hooks hs)) calls)
         \<and> hk_key hook \<in> hr_hook_key ` set (fire_all print_event calls hs ! i)
         \<and> hk_key hook \<in> hr_hook_key ` set (fire_all print_event calls hs ! j)
         \<longrightarrow> throttle_ns hook \<le> clock2 p - clock1 p)"
  using fire_runs [OF keys] runs_spaced [OF _ keys] by blast

definition demo_hook :: HardFailureHookConfig where
  "demo_hook =
     \<lparr>hk_key = ''h'', hk_command = ''notify'', hk_args = [], hk_env = Map.empty,
      hk_template = ''{{payload}}'', hk_timeout_ms = 10000, hk_throttle_ms = 1, hk_enabled = True\<rparr>"

definition demo_failure :: HardFailureEvent where
  "demo_failure =
     \<lparr>he_kind = ''k'', he_component = ''c'', he_target = None, he_message = ''m'', he_metadata = JNull\<rparr>"

text \<open>Three fires of a failure: the second one comes too early.\<close>

definition demo_fires :: "((nat \<Rightarrow> int) \<times> HardFailureEvent) list" where
  "demo_fires = [(\<lambda>_. 0, demo_failure), (\<lambda>_. 5, demo_failure), (\<lambda>_. 2000000, demo_failure)]"

theorem hook_runs_spaced_witness:
  "map (map hr_hook_key) (fire_all (\<lambda>_. Inr ''{}'') demo_fires (hooks_new [demo_hook])) = [[''h''], [], [''h'']]
   \<and> throttle_ns demo_hook \<le> fst (demo_fires ! 2) 0 - fst (demo_fires ! 0) 0
   \<and> fst (fire (\<lambda>_. Inr ''{}'') (\<lambda>_. 0) demo_failure (hooks_new [demo_hook])) = [run_hook demo_hook demo_failure ''{}'']"
proof -
  let ?hs = "hooks_new [demo_hook]" and ?pr = "\<lambda>_ :: HardFailureEvent. Inr ''{}'' :: string result"
  have runs: "map (map hr_hook_key) (fire_all ?pr demo_fires ?hs) = [[''h''], [], [''h'']]"
    by (simp add: demo_fires_def fire_def hooks_is_empty_def hooks_new_def demo_hook_def throttled_def throttle_ns_def
        run_hook_def)
  then obtain a b c where abc: "fire_all ?pr demo_fires ?hs = [a, b, c]" "map hr_hook_key a = [''h'']"
    "map hr_hook_key c = [''h'']" by auto
  then have ran: "''h'' \<in> hr_hook_key ` set a" "''h'' \<in> hr_hook_key ` set c"
    by (metis list.set_intros(1) list.set_map)+
  have hooks: "hh_hooks ?hs = [demo_hook]" "hk_key demo_hook = ''h''" "0 < throttle_ns demo_hook"
    "distinct (map hk_key (hh_hooks ?hs))"
    by (simp_all add: hooks_new_def demo_hook_def throttle_ns_def)
  note spaced = hook_runs_spaced [OF hooks(4), of ?pr "\<lambda>_. 0" demo_failure demo_fires]
  have calls: "demo_fires ! 0 = (\<lambda>_. 0, demo_failure)" "demo_fires ! 2 = (\<lambda>_. 2000000, demo_failure)"
    "length demo_fires = 3" "readings (Suc 0) demo_fires = [0, 5, 2000000]"
    by (simp_all add: demo_fires_def readings_def)
  from conjunct2 [OF spaced, rule_format, of 0 demo_hook 0 2 "\<lambda>_. 0" demo_failure "\<lambda>_. 2000000" demo_failure]
  have "throttle_ns demo_hook \<le> fst (demo_fires ! 2) 0 - fst (demo_fires ! 0) 0"
    by (simp add: hooks ran abc calls)
  moreover have "\<not> held 0 demo_hook demo_failure ?hs" by (simp add: held_def hooks_new_def)
  ultimately show ?thesis using runs conjunct1 [OF spaced] by (simp add: hooks(1))
qed

text \<open>
  The substitutions of \<open>render_template\<close> are applied one after the other, so that text
  which an event brings in through the payload is itself expanded: a payload that contains
  \<open>{{kind}}\<close> does not reach the hook's standard input as it is.
\<close>

theorem payload_placeholders_expanded:
  "hr_stdin (run_hook demo_hook demo_failure ''saw {{kind}}'') = ''saw k''"
  by code_simp

end
