(* ===== verification/Runtime_Store.thy ===== *)
theory Runtime_Store
  imports Retry
begin

text \<open>
  The per-server runtime store, \<^verbatim>\<open>src/src/runtime_store.rs\<close>: the dedupe window over message
  ids, the replay floor, the reconnect storm guard, and loading and flushing of the file.

  Instants are integers (nanoseconds since the Unix epoch). The \<open>time\<close> crate's RFC 3339 parser
  and printers, and serde's codec for the file, are arguments. The set fields are kept beside the
  queue as in the code; the invariant \<open>runtime_ok\<close> says how they agree.
\<close>

section \<open>Data\<close>

record time_lib =
  parse_rfc3339 :: "string \<Rightarrow> int option"
  format_rfc3339 :: "int \<Rightarrow> string option"
  time_to_string :: "int \<Rightarrow> string"

record ReconnectStormState =
  rs_consecutive_failures :: u32
  rs_cooldown_ms :: "u64 option"
  rs_next_attempt_at :: "string option"
  rs_last_error_kind :: "string option"

record RuntimeStore =
  st_path :: string
  st_dedupe_window_size :: nat
  st_discard_before_ts :: "string option"
  st_last_seen_ts :: "string option"
  st_recent_ids_order :: "string list"
  st_recent_ids_set :: "string set"
  st_pending_ids :: "string set"
  st_reconnect_storm :: ReconnectStormState
  st_failure_window_started_at :: "int option"

record RuntimeFile =
  rf_last_seen_ts :: "string option"
  rf_recent_ids :: "string list"
  rf_reconnect_storm :: ReconnectStormState

record ReconnectCooldown =
  cd_consecutive_failures :: u32
  cd_cooldown_ms :: u64
  cd_next_attempt_at :: string
  cd_last_error_kind :: "string option"

definition default_storm :: ReconnectStormState where
  "default_storm =
     \<lparr>rs_consecutive_failures = 0, rs_cooldown_ms = None, rs_next_attempt_at = None,
      rs_last_error_kind = None\<rparr>"

record runtime_codec =
  print_runtime :: "RuntimeFile \<Rightarrow> string"
  parse_runtime :: "string \<Rightarrow> RuntimeFile option"

section \<open>The dedupe window\<close>

text \<open>The \<open>while\<close> loop of \<open>insert_recent\<close>: \<open>pop_front\<close> until the queue fits the window.\<close>

fun evict :: "nat \<Rightarrow> string list \<Rightarrow> string set \<Rightarrow> string list \<times> string set" where
  "evict w [] s = ([], s)"
| "evict w (oldest # rest) s =
     (if w < length (oldest # rest) then evict w rest (s - {oldest}) else (oldest # rest, s))"

definition insert_recent :: "string \<Rightarrow> RuntimeStore \<Rightarrow> RuntimeStore" where
  "insert_recent message_id st =
     (let fresh = message_id \<notin> st_recent_ids_set st;
          order = (if fresh then st_recent_ids_order st @ [message_id] else st_recent_ids_order st);
          (order', set') = evict (st_dedupe_window_size st) order (insert message_id (st_recent_ids_set st))
      in st\<lparr>st_recent_ids_order := order', st_recent_ids_set := set'\<rparr>)"

definition timestamp_before_floor :: "time_lib \<Rightarrow> string \<Rightarrow> string option \<Rightarrow> bool" where
  "timestamp_before_floor lib timestamp floor_ts =
     (case floor_ts of
        None \<Rightarrow> False
      | Some f \<Rightarrow>
          (case (parse_rfc3339 lib timestamp, parse_rfc3339 lib f) of
             (Some t, Some t') \<Rightarrow> t < t'
           | _ \<Rightarrow> timestamp < f))"

definition should_enqueue ::
  "time_lib \<Rightarrow> string \<Rightarrow> string \<Rightarrow> RuntimeStore \<Rightarrow> bool \<times> RuntimeStore" where
  "should_enqueue lib message_id timestamp st =
     (if timestamp_before_floor lib timestamp (st_discard_before_ts st) then (False, st)
      else if message_id \<in> st_recent_ids_set st \<or> message_id \<in> st_pending_ids st then (False, st)
      else (True, st\<lparr>st_pending_ids := insert message_id (st_pending_ids st)\<rparr>))"

definition mark_failed :: "string \<Rightarrow> RuntimeStore \<Rightarrow> RuntimeStore" where
  "mark_failed message_id st = st\<lparr>st_pending_ids := st_pending_ids st - {message_id}\<rparr>"

definition mark_processed :: "string \<Rightarrow> string \<Rightarrow> RuntimeStore \<Rightarrow> RuntimeStore" where
  "mark_processed message_id timestamp st =
     (let st1 = insert_recent message_id
                  (st\<lparr>st_pending_ids := st_pending_ids st - {message_id}\<rparr>)
      in case st_last_seen_ts st1 of
           Some current \<Rightarrow>
             if timestamp \<le> current then st1 else st1\<lparr>st_last_seen_ts := Some timestamp\<rparr>
         | None \<Rightarrow> st1\<lparr>st_last_seen_ts := Some timestamp\<rparr>)"

section \<open>Loading and flushing\<close>

definition empty_store :: "string \<Rightarrow> nat \<Rightarrow> string option \<Rightarrow> RuntimeStore" where
  "empty_store path window discard =
     \<lparr>st_path = path, st_dedupe_window_size = window, st_discard_before_ts = discard,
      st_last_seen_ts = None, st_recent_ids_order = [], st_recent_ids_set = {},
      st_pending_ids = {}, st_reconnect_storm = default_storm,
      st_failure_window_started_at = None\<rparr>"

text \<open>The store a parsed file gives; \<open>now\<close> is the clock at that moment.\<close>

definition store_of_file :: "int \<Rightarrow> string \<Rightarrow> nat \<Rightarrow> string option \<Rightarrow> RuntimeFile \<Rightarrow> RuntimeStore" where
  "store_of_file now path window discard parsed =
     fold insert_recent (rf_recent_ids parsed)
       ((empty_store path window discard)
          \<lparr>st_last_seen_ts := rf_last_seen_ts parsed,
           st_reconnect_storm := rf_reconnect_storm parsed,
           st_failure_window_started_at :=
             (if 0 < rs_consecutive_failures (rf_reconnect_storm parsed)
                 \<and> rs_cooldown_ms (rf_reconnect_storm parsed) = None then Some now else None)\<rparr>)"

definition runtime_load :: "runtime_codec \<Rightarrow> int \<Rightarrow> fsys \<Rightarrow> string \<Rightarrow> nat \<Rightarrow> string option
    \<Rightarrow> RuntimeStore result" where
  "runtime_load codec now fs path window discard =
     (if \<not> fs_exists fs path then Inr (empty_store path window discard)
      else case fs_read fs path of
             Inl _ \<Rightarrow> Inl (''failed reading runtime store '' @ path)
           | Inr raw \<Rightarrow>
               (case parse_runtime codec raw of
                  None \<Rightarrow> Inl (''failed parsing runtime store '' @ path)
                | Some parsed \<Rightarrow> Inr (store_of_file now path window discard parsed)))"

definition runtime_file :: "RuntimeStore \<Rightarrow> RuntimeFile" where
  "runtime_file st =
     \<lparr>rf_last_seen_ts = st_last_seen_ts st, rf_recent_ids = st_recent_ids_order st,
      rf_reconnect_storm = st_reconnect_storm st\<rparr>"

definition flush :: "runtime_codec \<Rightarrow> RuntimeStore \<Rightarrow> fs_call list" where
  "flush codec st = write_json_atomic (st_path st) (print_runtime codec (runtime_file st))"

section \<open>The storm guard\<close>

definition reconnect_cooldown :: "RuntimeStore \<Rightarrow> ReconnectCooldown option" where
  "reconnect_cooldown st =
     (case (rs_cooldown_ms (st_reconnect_storm st), rs_next_attempt_at (st_reconnect_storm st)) of
        (Some c, Some t) \<Rightarrow>
          Some \<lparr>cd_consecutive_failures = rs_consecutive_failures (st_reconnect_storm st),
                cd_cooldown_ms = c, cd_next_attempt_at = t,
                cd_last_error_kind = rs_last_error_kind (st_reconnect_storm st)\<rparr>
      | _ \<Rightarrow> None)"

text \<open>
  \<open>OffsetDateTime + Duration\<close> panics outside the years -9999 to 9999; \<open>None\<close> stands for the panic.
\<close>

definition time_add_ms :: "int \<Rightarrow> int \<Rightarrow> int option" where
  "time_add_ms now ms =
     (let t = now + ms * 1000000
      in if - 377705116800 * 1000000000 \<le> t \<and> t < 253402300800 * 1000000000
         then Some t else None)"

definition reset_failure_window :: "int \<Rightarrow> RetryConfig \<Rightarrow> RuntimeStore \<Rightarrow> RuntimeStore" where
  "reset_failure_window now retry st =
     (let window = sint (sg_failure_window_ms (rc_storm_guard retry)) * 1000000;
          storm = st_reconnect_storm st
      in if rs_cooldown_ms storm = None
            \<and> (case st_failure_window_started_at st of
                 None \<Rightarrow> True | Some started_at \<Rightarrow> window < now - started_at)
         then st\<lparr>st_failure_window_started_at := Some now,
                 st_reconnect_storm := storm\<lparr>rs_consecutive_failures := 0\<rparr>\<rparr>
         else st)"

definition count_failure :: "string \<Rightarrow> RuntimeStore \<Rightarrow> RuntimeStore" where
  "count_failure last_error_kind st =
     (let storm = st_reconnect_storm st
      in st\<lparr>st_reconnect_storm := storm
              \<lparr>rs_consecutive_failures := saturating_add (rs_consecutive_failures storm) 1,
               rs_last_error_kind := Some last_error_kind\<rparr>\<rparr>)"

definition effective_cooldown :: "f64 \<Rightarrow> RetryConfig \<Rightarrow> u64 option \<Rightarrow> u64" where
  "effective_cooldown rnd retry previous =
     (let guard = rc_storm_guard retry;
          base_cooldown_ms =
            min (case previous of None \<Rightarrow> sg_cooldown_ms guard | Some c \<Rightarrow> saturating_mul c 2)
              (sg_max_cooldown_ms guard)
      in min (jitter rnd base_cooldown_ms (rc_jitter_ratio retry)) (sg_max_cooldown_ms guard))"

definition record_reconnect_failure :: "time_lib \<Rightarrow> f64 \<Rightarrow> int \<Rightarrow> RetryConfig \<Rightarrow> string
    \<Rightarrow> RuntimeStore \<Rightarrow> (ReconnectCooldown option \<times> RuntimeStore) option" where
  "record_reconnect_failure lib rnd now retry last_error_kind st =
     (let st2 = count_failure last_error_kind (reset_failure_window now retry st);
          guard = rc_storm_guard retry
      in if rs_consecutive_failures (st_reconnect_storm st2) < sg_consecutive_failure_threshold guard
         then Some (None, st2)
         else let cooldown = effective_cooldown rnd retry (rs_cooldown_ms (st_reconnect_storm st2))
              in case time_add_ms now (min (uint cooldown) (2 ^ 63 - 1)) of
                   None \<Rightarrow> None
                 | Some next \<Rightarrow>
                     let text = (case format_rfc3339 lib next of
                                   None \<Rightarrow> time_to_string lib next | Some s \<Rightarrow> s);
                         st3 = st2\<lparr>st_reconnect_storm := (st_reconnect_storm st2)
                                     \<lparr>rs_cooldown_ms := Some cooldown,
                                      rs_next_attempt_at := Some text\<rparr>\<rparr>
                     in Some (reconnect_cooldown st3, st3))"

definition clear_reconnect_storm :: "RuntimeStore \<Rightarrow> RuntimeStore" where
  "clear_reconnect_storm st =
     st\<lparr>st_reconnect_storm := default_storm, st_failure_window_started_at := None\<rparr>"

section \<open>Invariant\<close>

definition runtime_ok :: "RuntimeStore \<Rightarrow> bool" where
  "runtime_ok st \<longleftrightarrow>
     distinct (st_recent_ids_order st) \<and>
     st_recent_ids_set st = set (st_recent_ids_order st) \<and>
     length (st_recent_ids_order st) \<le> st_dedupe_window_size st"

text \<open>The window as a function on the queue alone: append what is new, drop what is too old.\<close>

definition window_push :: "nat \<Rightarrow> 'a \<Rightarrow> 'a list \<Rightarrow> 'a list" where
  "window_push w x xs =
     (let ys = (if x \<in> set xs then xs else xs @ [x]) in drop (length ys - w) ys)"

lemma evict_drop:
  "distinct xs \<Longrightarrow> evict w xs (set xs) = (drop (length xs - w) xs, set (drop (length xs - w) xs))"
proof (induction xs)
  case Nil
  then show ?case by simp
next
  case (Cons x xs)
  have "insert x (set xs) - {x} = set xs" using Cons.prems by auto
  with Cons show ?case by (cases "w < Suc (length xs)") (simp_all add: Suc_diff_le)
qed

lemma insert_recent_window:
  assumes "runtime_ok st"
  shows "insert_recent i st =
     st\<lparr>st_recent_ids_order := window_push (st_dedupe_window_size st) i (st_recent_ids_order st),
        st_recent_ids_set :=
          set (window_push (st_dedupe_window_size st) i (st_recent_ids_order st))\<rparr>"
proof -
  let ?xs = "st_recent_ids_order st" and ?w = "st_dedupe_window_size st"
  define ys where "ys = (if i \<in> set ?xs then ?xs else ?xs @ [i])"
  have "distinct ys" "insert i (st_recent_ids_set st) = set ys"
    using assms by (auto simp: runtime_ok_def ys_def)
  then have "evict ?w ys (insert i (st_recent_ids_set st))
      = (drop (length ys - ?w) ys, set (drop (length ys - ?w) ys))"
    by (simp add: evict_drop)
  moreover have "(if i \<notin> st_recent_ids_set st then ?xs @ [i] else ?xs) = ys"
    using assms by (simp add: runtime_ok_def ys_def)
  ultimately have "insert_recent i st = st\<lparr>st_recent_ids_order := drop (length ys - ?w) ys,
      st_recent_ids_set := set (drop (length ys - ?w) ys)\<rparr>"
    by (simp add: insert_recent_def del: not_not split del: if_split)
  then show ?thesis by (simp add: window_push_def ys_def Let_def split del: if_split)
qed

lemma window_push_ok:
  assumes "distinct xs"
  shows "distinct (window_push w x xs) \<and> length (window_push w x xs) \<le> w"
  using assms by (auto simp: window_push_def Let_def)

lemma insert_recent_ok: "runtime_ok st \<Longrightarrow> runtime_ok (insert_recent i st)"
  using window_push_ok [of "st_recent_ids_order st"]
  by (simp add: insert_recent_window) (simp add: runtime_ok_def)

lemma should_enqueue_ok: "runtime_ok st \<Longrightarrow> runtime_ok (snd (should_enqueue lib i t st))"
  by (simp add: should_enqueue_def runtime_ok_def)

lemma mark_failed_ok: "runtime_ok st \<Longrightarrow> runtime_ok (mark_failed i st)"
  by (simp add: mark_failed_def runtime_ok_def)

lemma runtime_ok_update:
  "runtime_ok (st\<lparr>st_pending_ids := P\<rparr>) = runtime_ok st"
  "runtime_ok (st\<lparr>st_last_seen_ts := L\<rparr>) = runtime_ok st"
  "runtime_ok (st\<lparr>st_reconnect_storm := S\<rparr>) = runtime_ok st"
  "runtime_ok (st\<lparr>st_failure_window_started_at := F\<rparr>) = runtime_ok st"
  by (simp_all add: runtime_ok_def)

lemma mark_processed_ok: "runtime_ok st \<Longrightarrow> runtime_ok (mark_processed i t st)"
  by (auto simp: mark_processed_def Let_def runtime_ok_update insert_recent_ok split: option.splits)

lemma empty_store_ok: "runtime_ok (empty_store path window discard)"
  by (simp add: runtime_ok_def empty_store_def)

lemma store_of_file_ok: "runtime_ok (store_of_file now path window discard parsed)"
proof -
  have "runtime_ok st \<Longrightarrow> runtime_ok (fold insert_recent ids st)" for ids st
    by (induction ids arbitrary: st) (simp_all add: insert_recent_ok)
  then show ?thesis by (simp add: store_of_file_def runtime_ok_update empty_store_ok)
qed

lemma record_reconnect_failure_ok:
  assumes "runtime_ok st" and "record_reconnect_failure lib rnd now retry k st = Some (c, st')"
  shows "runtime_ok st'"
  using assms
  by (auto simp: record_reconnect_failure_def count_failure_def reset_failure_window_def Let_def
      runtime_ok_update split: if_splits option.splits)

section \<open>The dedupe contract\<close>

text \<open>
  What a consumer of messages relies on: an offered message is taken at most once while it is in
  progress, or finished and still inside the window. The laws are those of the three operations;
  the run lemmas are proved once from them.
\<close>

datatype ('i, 't) dedupe_step = Offer 'i 't | Finish 'i 't | Cancel 'i

text \<open>The completions of other messages, and what follows the first completion of a message.\<close>

fun finishes_other :: "'i \<Rightarrow> ('i, 't) dedupe_step \<Rightarrow> bool" where
  "finishes_other i (Finish j t) \<longleftrightarrow> j \<noteq> i"
| "finishes_other i (Offer j t) \<longleftrightarrow> False"
| "finishes_other i (Cancel j) \<longleftrightarrow> False"

fun since_finished :: "'i \<Rightarrow> ('i, 't) dedupe_step list \<Rightarrow> ('i, 't) dedupe_step list option" where
  "since_finished i [] = None"
| "since_finished i (c # cs) = (if \<exists>t. c = Finish i t then Some cs else since_finished i cs)"

fun apply_step :: "('i \<Rightarrow> 't \<Rightarrow> 's \<Rightarrow> bool \<times> 's) \<Rightarrow> ('i \<Rightarrow> 't \<Rightarrow> 's \<Rightarrow> 's) \<Rightarrow> ('i \<Rightarrow> 's \<Rightarrow> 's)
    \<Rightarrow> ('i, 't) dedupe_step \<Rightarrow> 's \<Rightarrow> 's" where
  "apply_step offer finish cancel (Offer i t) s = snd (offer i t s)"
| "apply_step offer finish cancel (Finish i t) s = finish i t s"
| "apply_step offer finish cancel (Cancel i) s = cancel i s"

locale dedupe =
  fixes offer :: "'i \<Rightarrow> 't \<Rightarrow> 's \<Rightarrow> bool \<times> 's"
    and finish :: "'i \<Rightarrow> 't \<Rightarrow> 's \<Rightarrow> 's"
    and cancel :: "'i \<Rightarrow> 's \<Rightarrow> 's"
    and busy :: "'s \<Rightarrow> 'i set"
    and recent :: "'s \<Rightarrow> 'i list"
    and window :: "'s \<Rightarrow> nat"
    and inv :: "'s \<Rightarrow> bool"
  assumes offer_inv: "inv s \<Longrightarrow> inv (snd (offer i t s))"
    and finish_inv: "inv s \<Longrightarrow> inv (finish i t s)"
    and cancel_inv: "inv s \<Longrightarrow> inv (cancel i s)"
    and offer_refused: "inv s \<Longrightarrow> i \<in> busy s \<or> i \<in> set (recent s) \<Longrightarrow> \<not> fst (offer i t s)"
    and offer_busy: "inv s \<Longrightarrow>
      busy (snd (offer i t s)) = (if fst (offer i t s) then insert i (busy s) else busy s)"
    and offer_recent: "inv s \<Longrightarrow> recent (snd (offer i t s)) = recent s"
    and finish_busy: "inv s \<Longrightarrow> busy (finish i t s) = busy s - {i}"
    and finish_recent: "inv s \<Longrightarrow> recent (finish i t s) = window_push (window s) i (recent s)"
    and cancel_busy: "inv s \<Longrightarrow> busy (cancel i s) = busy s - {i}"
    and cancel_recent: "inv s \<Longrightarrow> recent (cancel i s) = recent s"
    and same_window: "window (snd (offer i t s)) = window s" "window (finish i t s) = window s"
      "window (cancel i s) = window s"
begin

abbreviation dedupe_apply :: "('i, 't) dedupe_step \<Rightarrow> 's \<Rightarrow> 's" where
  "dedupe_apply \<equiv> apply_step offer finish cancel"

lemma apply_inv: "inv s \<Longrightarrow> inv (dedupe_apply c s)"
  by (cases c) (simp_all add: offer_inv finish_inv cancel_inv)

lemma run_inv: "inv s \<Longrightarrow> inv (fold dedupe_apply cs s)"
  by (induction cs arbitrary: s) (simp_all add: apply_inv)

lemma apply_window: "window (dedupe_apply c s) = window s"
  by (cases c) (simp_all add: same_window)

text \<open>An id with at most \<open>n\<close> younger ids behind it.\<close>

definition kept_within :: "nat \<Rightarrow> 'i \<Rightarrow> 's \<Rightarrow> bool" where
  "kept_within n i s \<longleftrightarrow> (\<exists>pre suf. recent s = pre @ i # suf \<and> length suf \<le> n)"

lemma within_finish:
  assumes "inv s" and "kept_within n i s" and "Suc (Suc n) \<le> window s"
  shows "kept_within (Suc n) i (finish j t s)"
proof -
  from assms(2) obtain pre suf where rec: "recent s = pre @ i # suf" and len: "length suf \<le> n"
    by (auto simp: kept_within_def)
  define ys where "ys = (if j \<in> set (recent s) then recent s else recent s @ [j])"
  obtain suf' where ys: "ys = pre @ i # suf'" and len': "length suf' \<le> Suc n"
    using rec len by (cases "j \<in> set (recent s)") (force simp: ys_def)+
  have "length ys - window s \<le> length pre" using ys len' assms(3) by simp
  then have "drop (length ys - window s) ys = drop (length ys - window s) pre @ i # suf'"
    by (simp add: ys)
  with len' show ?thesis
    using finish_recent [OF assms(1)] by (auto simp: kept_within_def window_push_def ys_def Let_def)
qed

lemma within_own:
  assumes "inv s" and "kept_within n i s" and "Suc n \<le> window s"
  shows "kept_within n i (finish i t s)"
proof -
  from assms(2) obtain pre suf where rec: "recent s = pre @ i # suf" and len: "length suf \<le> n"
    by (auto simp: kept_within_def)
  have "drop (length (recent s) - window s) (recent s) = drop (length (recent s) - window s) pre @ i # suf"
    using rec len assms(3) by simp
  with rec len show ?thesis
    using finish_recent [OF assms(1), of i t] by (auto simp: kept_within_def window_push_def Let_def)
qed

lemma within_run:
  assumes "inv s" and "kept_within n i s" and "n + length (filter (finishes_other i) cs) < window s"
  shows "i \<in> set (recent (fold dedupe_apply cs s))"
  using assms
proof (induction cs arbitrary: s n)
  case Nil
  then show ?case by (auto simp: kept_within_def)
next
  case (Cons c cs)
  have keep: "kept_within n i (dedupe_apply c s)" if "\<not> finishes_other i c"
    using that Cons.prems by (cases c) (simp_all add: kept_within_def [of _ _ "snd _"]
      kept_within_def [of _ _ "cancel _ _"] kept_within_def [of _ _ s] offer_recent cancel_recent within_own)
  have push: "kept_within (Suc n) i (dedupe_apply c s)" if "finishes_other i c"
    using that Cons.prems by (cases c) (simp_all add: within_finish)
  show ?case
    using Cons.IH [of "dedupe_apply c s" n] Cons.IH [of "dedupe_apply c s" "Suc n"]
      Cons.prems keep push apply_inv apply_window
    by (cases "finishes_other i c") simp_all
qed

lemma finish_within:
  assumes "inv s" and "i \<notin> set (recent s)" and "0 < window s"
  shows "kept_within 0 i (finish i t s)"
  using assms finish_recent [OF assms(1)]
  by (auto simp: kept_within_def window_push_def Let_def)

text \<open>
  A message that was taken is not taken again, as long as it was not given up and, once it is
  finished, fewer other messages finished since than the window holds.
\<close>

lemma taken_once:
  assumes "inv s" and "i \<in> busy s" and "i \<notin> set (recent s)" and "Cancel i \<notin> set cs"
    and "\<And>ds. since_finished i cs = Some ds \<Longrightarrow> length (filter (finishes_other i) ds) < window s"
  shows "\<not> fst (offer i t (fold dedupe_apply cs s))"
  using assms
proof (induction cs arbitrary: s)
  case Nil
  then show ?case by (simp add: offer_refused)
next
  case (Cons c cs)
  show ?case
  proof (cases "\<exists>u. c = Finish i u")
    case True
    then obtain u where c: "c = Finish i u" by blast
    with Cons.prems(5) [of cs] have few: "length (filter (finishes_other i) cs) < window s" by simp
    with Cons.prems c have "kept_within 0 i (finish i u s)" by (simp add: finish_within)
    then have "i \<in> set (recent (fold dedupe_apply cs (finish i u s)))"
      using Cons.prems(1) few by (intro within_run [of _ 0]) (simp_all add: finish_inv same_window)
    then show ?thesis
      using Cons.prems(1) c by (simp add: offer_refused run_inv finish_inv)
  next
    case False
    have inv': "inv (dedupe_apply c s)" using Cons.prems by (simp add: apply_inv)
    have busy: "i \<in> busy (dedupe_apply c s)"
      using False Cons.prems by (cases c) (auto simp: offer_busy finish_busy cancel_busy)
    have rec: "i \<notin> set (recent (dedupe_apply c s))"
      using False Cons.prems
      by (cases c)
        (auto simp: offer_recent cancel_recent finish_recent window_push_def Let_def dest: in_set_dropD)
    have few: "length (filter (finishes_other i) ds) < window (dedupe_apply c s)"
      if "since_finished i cs = Some ds" for ds
      using Cons.prems(5) [of ds] that False by (simp add: apply_window)
    show ?thesis
      using Cons.IH [OF inv' busy rec _ few] Cons.prems(4) by simp
  qed
qed

lemma offer_taken:
  assumes "inv s" and "offer i t s = (True, s')"
  shows "inv s' \<and> i \<in> busy s' \<and> i \<notin> set (recent s') \<and> window s' = window s"
  using offer_inv [OF assms(1), of i t] offer_busy [OF assms(1), of i t]
    offer_recent [OF assms(1), of i t] offer_refused [OF assms(1), of i t] same_window(1) [of i t s]
    assms(2) by auto

end

lemma mark_processed_fields:
  assumes "runtime_ok st"
  shows "st_pending_ids (mark_processed i t st) = st_pending_ids st - {i}"
    and "st_recent_ids_order (mark_processed i t st)
           = window_push (st_dedupe_window_size st) i (st_recent_ids_order st)"
    and "st_dedupe_window_size (mark_processed i t st) = st_dedupe_window_size st"
    and "st_last_seen_ts (mark_processed i t st)
           = Some (case st_last_seen_ts st of None \<Rightarrow> t | Some u \<Rightarrow> max u t)"
  using assms
  by (auto simp: mark_processed_def insert_recent_window runtime_ok_update Let_def max_def
      split: option.splits)

lemma window_size_insert_recent [simp]:
  "st_dedupe_window_size (insert_recent i st) = st_dedupe_window_size st"
  by (simp add: insert_recent_def Let_def split: prod.splits)

interpretation store: dedupe "should_enqueue lib" mark_processed mark_failed
  st_pending_ids st_recent_ids_order st_dedupe_window_size runtime_ok for lib
proof unfold_locales
  show "st_dedupe_window_size (mark_processed i t st) = st_dedupe_window_size st" for i t st
    by (simp add: mark_processed_def Let_def split: option.splits)
  show "\<not> fst (should_enqueue lib i t st)"
    if "runtime_ok st" "i \<in> st_pending_ids st \<or> i \<in> set (st_recent_ids_order st)" for st i t
    using that by (auto simp: should_enqueue_def runtime_ok_def)
qed (auto simp: mark_processed_ok mark_processed_fields mark_failed_def should_enqueue_def
    runtime_ok_update)

section \<open>The view of a client\<close>

text \<open>
  The store as a client sees it: the messages in progress, and the finished ones that are still
  remembered, oldest first. It forgets which structures keep them and everything about reconnects.
\<close>

record dedupe_view =
  dv_busy :: "string set"
  dv_done :: "string list"

definition view :: "RuntimeStore \<Rightarrow> dedupe_view" where
  "view st = \<lparr>dv_busy = st_pending_ids st, dv_done = st_recent_ids_order st\<rparr>"

text \<open>One operation on the view; an offer has an answer.\<close>

fun view_step :: "time_lib \<Rightarrow> string option \<Rightarrow> nat \<Rightarrow> (string, string) dedupe_step \<Rightarrow> dedupe_view
    \<Rightarrow> bool option \<times> dedupe_view" where
  "view_step lib floor_ts w (Offer i t) v =
     (if timestamp_before_floor lib t floor_ts \<or> i \<in> dv_busy v \<or> i \<in> set (dv_done v) then (Some False, v)
      else (Some True, v\<lparr>dv_busy := insert i (dv_busy v)\<rparr>))"
| "view_step lib floor_ts w (Finish i t) v =
     (None, \<lparr>dv_busy = dv_busy v - {i}, dv_done = window_push w i (dv_done v)\<rparr>)"
| "view_step lib floor_ts w (Cancel i) v = (None, v\<lparr>dv_busy := dv_busy v - {i}\<rparr>)"

fun store_step :: "time_lib \<Rightarrow> (string, string) dedupe_step \<Rightarrow> RuntimeStore \<Rightarrow> bool option \<times> RuntimeStore" where
  "store_step lib (Offer i t) st = (let (taken, st') = should_enqueue lib i t st in (Some taken, st'))"
| "store_step lib (Finish i t) st = (None, mark_processed i t st)"
| "store_step lib (Cancel i) st = (None, mark_failed i st)"

text \<open>A run of operations with the answers it gives.\<close>

fun answers :: "('c \<Rightarrow> 's \<Rightarrow> 'a \<times> 's) \<Rightarrow> 'c list \<Rightarrow> 's \<Rightarrow> 'a list \<times> 's" where
  "answers step [] s = ([], s)"
| "answers step (c # cs) s = (let (a, s1) = step c s; (as, s2) = answers step cs s1 in (a # as, s2))"

lemma store_step_view:
  assumes "runtime_ok st" and "store_step lib c st = (a, st')"
  shows "view_step lib (st_discard_before_ts st) (st_dedupe_window_size st) c (view st) = (a, view st')"
    and "runtime_ok st'" and "st_discard_before_ts st' = st_discard_before_ts st"
    and "st_dedupe_window_size st' = st_dedupe_window_size st"
proof -
  have floor_kept: "st_discard_before_ts (mark_processed i t st) = st_discard_before_ts st" for i t
    by (simp add: mark_processed_def insert_recent_def Let_def split: option.splits prod.splits)
  show "view_step lib (st_discard_before_ts st) (st_dedupe_window_size st) c (view st) = (a, view st')"
  proof (cases c)
    case (Offer i t)
    have "i \<in> st_recent_ids_set st \<longleftrightarrow> i \<in> set (st_recent_ids_order st)" using assms(1) by (simp add: runtime_ok_def)
    with Offer assms(2) show ?thesis by (auto simp: view_def should_enqueue_def split: if_splits)
  next
    case (Finish i t)
    with assms show ?thesis by (auto simp: view_def mark_processed_fields)
  next
    case (Cancel i)
    with assms(2) show ?thesis by (auto simp: view_def mark_failed_def)
  qed
  show "runtime_ok st'" "st_discard_before_ts st' = st_discard_before_ts st"
    "st_dedupe_window_size st' = st_dedupe_window_size st"
    using assms mark_processed_ok mark_failed_ok should_enqueue_ok
    by (cases c; auto simp: should_enqueue_def mark_failed_def mark_processed_fields floor_kept runtime_ok_update
        split: if_splits)+
qed

lemma store_run_view:
  assumes "runtime_ok st"
  shows "answers (view_step lib (st_discard_before_ts st) (st_dedupe_window_size st)) cs (view st)
    = map_prod (\<lambda>as. as) view (answers (store_step lib) cs st)"
  using assms
proof (induction cs arbitrary: st)
  case (Cons c cs)
  obtain a st' where s: "store_step lib c st = (a, st')" by fastforce
  note step = store_step_view [OF Cons.prems s]
  from Cons.IH [OF step(2)] step show ?case by (simp add: s split: prod.splits)
qed simp

lemma store_run_ok:
  "runtime_ok st \<Longrightarrow> answers (store_step lib) cs st = (as, st') \<Longrightarrow>
     runtime_ok st' \<and> st_dedupe_window_size st' = st_dedupe_window_size st"
proof (induction cs arbitrary: st as)
  case (Cons c cs)
  obtain a st1 where s: "store_step lib c st = (a, st1)" by fastforce
  from Cons.prems s Cons.IH [OF store_step_view(2) [OF Cons.prems(1) s]] store_step_view(4) [OF Cons.prems(1) s]
  show ?case by (auto split: prod.splits)
qed simp

lemma runtime_load_ok:
  assumes "runtime_load codec now fs path w floor_ts = Inr st"
  shows "runtime_ok st" "st_discard_before_ts st = floor_ts" "st_dedupe_window_size st = w"
proof -
  have keep: "st_discard_before_ts (fold insert_recent ids s) = st_discard_before_ts s"
    "st_dedupe_window_size (fold insert_recent ids s) = st_dedupe_window_size s" for ids s
    by (induction ids arbitrary: s) (simp_all add: insert_recent_def Let_def split: prod.split)
  from assms show "runtime_ok st" "st_discard_before_ts st = floor_ts" "st_dedupe_window_size st = w"
    by (auto simp: runtime_load_def empty_store_ok store_of_file_ok split: if_splits sum.splits option.splits)
      (auto simp: store_of_file_def empty_store_def keep)
qed

section \<open>Restart\<close>

lemma window_push_snoc:
  "x \<notin> set xs \<Longrightarrow> length xs < w \<Longrightarrow> window_push w x xs = xs @ [x]"
  by (simp add: window_push_def)

lemma fold_insert_recent:
  assumes "runtime_ok st" and "distinct (st_recent_ids_order st @ ids)"
    and "length (st_recent_ids_order st @ ids) \<le> st_dedupe_window_size st"
  shows "fold insert_recent ids st =
    st\<lparr>st_recent_ids_order := st_recent_ids_order st @ ids,
       st_recent_ids_set := set (st_recent_ids_order st @ ids)\<rparr>"
  using assms
proof (induction ids arbitrary: st)
  case Nil
  then show ?case by (simp add: runtime_ok_def)
next
  case (Cons i ids)
  let ?xs = "st_recent_ids_order st"
  have step: "insert_recent i st =
      st\<lparr>st_recent_ids_order := ?xs @ [i], st_recent_ids_set := set (?xs @ [i])\<rparr>"
    using Cons.prems by (simp add: insert_recent_window window_push_snoc)
  have "runtime_ok (insert_recent i st)" using Cons.prems(1) by (rule insert_recent_ok)
  from Cons.IH [OF this] Cons.prems show ?case by (simp add: step)
qed

text \<open>What a restart keeps of a store: everything but the pending ids and the window start.\<close>

definition restarted :: "int \<Rightarrow> RuntimeStore \<Rightarrow> RuntimeStore" where
  "restarted now st =
     st\<lparr>st_pending_ids := {},
        st_failure_window_started_at :=
          (if 0 < rs_consecutive_failures (st_reconnect_storm st)
              \<and> rs_cooldown_ms (st_reconnect_storm st) = None then Some now else None)\<rparr>"

lemma store_of_file_restarted:
  assumes "runtime_ok st"
  shows "store_of_file now (st_path st) (st_dedupe_window_size st) (st_discard_before_ts st)
           (runtime_file st) = restarted now st"
  using assms
  by (subst store_of_file_def, subst fold_insert_recent)
    (auto simp: runtime_ok_update empty_store_ok empty_store_def runtime_file_def runtime_ok_def
      restarted_def)

section \<open>The cooldown schedule\<close>

lemma effective_cooldown_le:
  "effective_cooldown rnd retry p \<le> sg_max_cooldown_ms (rc_storm_guard retry)"
  by (simp add: effective_cooldown_def Let_def)

lemma cooldown_end_exists:
  assumes "0 \<le> now" "now < 221000000000 * 1000000000"
    and "uint (sg_max_cooldown_ms (rc_storm_guard retry)) < 3153600000000"
  shows "\<exists>t. time_add_ms now (min (uint (effective_cooldown rnd retry p)) (2 ^ 63 - 1)) = Some t"
proof -
  define c where "c = uint (effective_cooldown rnd retry p)"
  have "c < 3153600000000"
    using assms(3) effective_cooldown_le [of rnd retry p] unfolding c_def
    by (meson le_less_trans word_le_def)
  moreover have "0 \<le> c" by (simp add: c_def)
  ultimately show ?thesis
    using assms(1,2) by (simp add: time_add_ms_def Let_def min_def flip: c_def)
qed

text \<open>Failures one after the other; each has its time, its draw for the jitter and its kind.\<close>

fun fail_run :: "time_lib \<Rightarrow> RetryConfig \<Rightarrow> (int \<times> f64 \<times> string) list \<Rightarrow> RuntimeStore
    \<Rightarrow> RuntimeStore option" where
  "fail_run lib retry [] st = Some st"
| "fail_run lib retry ((t, rnd, kind) # fs) st =
     (case record_reconnect_failure lib rnd t retry kind st of
        None \<Rightarrow> None
      | Some (_, st') \<Rightarrow> fail_run lib retry fs st')"

lemma fail_run_append:
  "fail_run lib retry (fs @ gs) st = Option.bind (fail_run lib retry fs st) (fail_run lib retry gs)"
  by (induction fs arbitrary: st) (auto split: option.splits)

definition first_cooldown :: "StormGuardConfig \<Rightarrow> nat" where
  "first_cooldown guard = max 1 (unat (sg_consecutive_failure_threshold guard))"

definition scheduled_cooldown :: "StormGuardConfig \<Rightarrow> nat \<Rightarrow> nat option" where
  "scheduled_cooldown guard n =
     (if n < first_cooldown guard then None
      else Some (min (unat (sg_cooldown_ms guard) * 2 ^ (n - first_cooldown guard))
                   (unat (sg_max_cooldown_ms guard))))"

lemma scheduled_cooldown_Suc:
  assumes "first_cooldown guard \<le> Suc n"
  shows "scheduled_cooldown guard (Suc n) =
    Some (min (case scheduled_cooldown guard n of None \<Rightarrow> unat (sg_cooldown_ms guard) | Some c \<Rightarrow> 2 * c)
            (unat (sg_max_cooldown_ms guard)))"
proof (cases "n < first_cooldown guard")
  case True
  with assms have "Suc n = first_cooldown guard" by simp
  with True show ?thesis by (simp add: scheduled_cooldown_def)
next
  case False
  then have "Suc n - first_cooldown guard = Suc (n - first_cooldown guard)" by (simp add: Suc_diff_le)
  with False assms show ?thesis by (auto simp: scheduled_cooldown_def min_def)
qed

text \<open>
  After \<open>n\<close> failures, the first at \<open>t0\<close>: the count is exact, there is a cooldown if and only if the
  threshold is reached, it is within its limit and, without jitter, the scheduled one.
\<close>

definition storm_at :: "RetryConfig \<Rightarrow> int \<Rightarrow> nat \<Rightarrow> RuntimeStore \<Rightarrow> bool" where
  "storm_at retry t0 n st \<longleftrightarrow>
     (n < first_cooldown (rc_storm_guard retry) \<longrightarrow> st_failure_window_started_at st = Some t0) \<and>
     unat (rs_consecutive_failures (st_reconnect_storm st)) = n \<and>
     (rs_cooldown_ms (st_reconnect_storm st) = None \<longleftrightarrow> n < first_cooldown (rc_storm_guard retry)) \<and>
     (\<forall>c. rs_cooldown_ms (st_reconnect_storm st) = Some c \<longrightarrow> c \<le> sg_max_cooldown_ms (rc_storm_guard retry)) \<and>
     (fle (rc_jitter_ratio retry) (FFin 0) \<longrightarrow>
        map_option unat (rs_cooldown_ms (st_reconnect_storm st))
          = scheduled_cooldown (rc_storm_guard retry) n)"

lemma unat_effective_cooldown:
  assumes "fle (rc_jitter_ratio retry) (FFin 0)"
  shows "unat (effective_cooldown rnd retry p) =
    min (case p of None \<Rightarrow> unat (sg_cooldown_ms (rc_storm_guard retry)) | Some c \<Rightarrow> 2 * unat c)
      (unat (sg_max_cooldown_ms (rc_storm_guard retry)))"
proof -
  have m: "unat (min a b) = min (unat a) (unat b)" for a b :: u64
    by (simp add: min_def word_le_nat_alt)
  have "unat (sg_max_cooldown_ms (rc_storm_guard retry)) \<le> 2 ^ 64 - 1"
    using unsigned_less [of "sg_max_cooldown_ms (rc_storm_guard retry)", where 'a = nat] by simp
  then show ?thesis
    using assms
    by (auto simp: effective_cooldown_def Let_def jitter_off m unat_saturating_mul mult.commute
        split: option.splits)
qed

text \<open>One more failure, from the store as the check of the failure window leaves it.\<close>

lemma record_failure_advances:
  assumes limit: "uint (sg_max_cooldown_ms (rc_storm_guard retry)) < 3153600000000"
    and clock: "0 \<le> t" "t < 221000000000 * 1000000000"
    and storm: "storm_at retry t0 n (reset_failure_window t retry st)"
    and count: "Suc n < 2 ^ 32"
  shows "\<exists>c st'. record_reconnect_failure lib rnd t retry kind st = Some (c, st')
           \<and> storm_at retry t0 (Suc n) st'"
proof -
  define st1 where "st1 = reset_failure_window t retry st"
  define st2 where "st2 = count_failure kind st1"
  let ?p = "rs_cooldown_ms (st_reconnect_storm st1)" and ?guard = "rc_storm_guard retry"
  have fields: "st_failure_window_started_at st2 = st_failure_window_started_at st1"
    "rs_cooldown_ms (st_reconnect_storm st2) = ?p"
    by (simp_all add: st2_def count_failure_def Let_def)
  have n: "unat (rs_consecutive_failures (st_reconnect_storm st2)) = Suc n"
    using storm count
    by (simp add: st2_def st1_def count_failure_def Let_def unat_saturating_add storm_at_def)
  have below: "rs_consecutive_failures (st_reconnect_storm st2) < sg_consecutive_failure_threshold ?guard
      \<longleftrightarrow> Suc n < first_cooldown ?guard"
    using n by (auto simp: first_cooldown_def word_less_nat_alt)
  have storm1: "storm_at retry t0 n st1" using storm by (simp add: st1_def)
  show ?thesis
  proof (cases "Suc n < first_cooldown ?guard")
    case True
    then have "record_reconnect_failure lib rnd t retry kind st = Some (None, st2)"
      using below by (simp add: record_reconnect_failure_def Let_def st2_def st1_def)
    moreover have "storm_at retry t0 (Suc n) st2"
      using storm1 n fields True by (simp add: storm_at_def scheduled_cooldown_def)
    ultimately show ?thesis by blast
  next
    case False
    define cd where "cd = effective_cooldown rnd retry ?p"
    obtain next_t where t: "time_add_ms t (min (uint cd) (2 ^ 63 - 1)) = Some next_t"
      unfolding cd_def using cooldown_end_exists [OF clock limit] by blast
    have cd: "Some (unat cd) = scheduled_cooldown ?guard (Suc n)" if "fle (rc_jitter_ratio retry) (FFin 0)"
    proof -
      have p: "scheduled_cooldown ?guard n = map_option unat ?p" using storm1 that by (simp add: storm_at_def)
      show ?thesis
        using scheduled_cooldown_Suc [of ?guard n] False p
        by (cases ?p) (simp_all add: cd_def unat_effective_cooldown [OF that])
    qed
    obtain c st' where "record_reconnect_failure lib rnd t retry kind st = Some (c, st')"
      "rs_cooldown_ms (st_reconnect_storm st') = Some cd"
      "rs_consecutive_failures (st_reconnect_storm st') = rs_consecutive_failures (st_reconnect_storm st2)"
      using below False t fields(2)
      by (simp add: record_reconnect_failure_def Let_def cd_def flip: st1_def st2_def)
    then show ?thesis
      using n cd False by (auto simp: storm_at_def cd_def effective_cooldown_le)
  qed
qed

lemma storm_first:
  assumes "uint (sg_max_cooldown_ms (rc_storm_guard retry)) < 3153600000000"
    and "0 \<le> t" "t < 221000000000 * 1000000000"
  shows "\<exists>c st'. record_reconnect_failure lib rnd t retry kind (clear_reconnect_storm st)
             = Some (c, st') \<and> storm_at retry t (Suc 0) st'"
  using assms
  by (intro record_failure_advances)
    (simp_all add: storm_at_def reset_failure_window_def clear_reconnect_storm_def default_storm_def
      Let_def scheduled_cooldown_def first_cooldown_def)

lemma storm_next:
  assumes "uint (sg_max_cooldown_ms (rc_storm_guard retry)) < 3153600000000"
    and "storm_at retry t0 n st"
    and "0 \<le> t" "t < 221000000000 * 1000000000"
    and "n < first_cooldown (rc_storm_guard retry)
      \<Longrightarrow> t - t0 \<le> sint (sg_failure_window_ms (rc_storm_guard retry)) * 1000000"
    and "Suc n < 2 ^ 32"
  shows "\<exists>c st'. record_reconnect_failure lib rnd t retry kind st = Some (c, st')
           \<and> storm_at retry t0 (Suc n) st'"
proof -
  have "reset_failure_window t retry st = st"
    using assms(2,5) by (cases "n < first_cooldown (rc_storm_guard retry)")
      (auto simp: reset_failure_window_def storm_at_def Let_def)
  then show ?thesis
    using assms by (intro record_failure_advances) simp_all
qed

lemma storm_run:
  assumes limit: "uint (sg_max_cooldown_ms (rc_storm_guard retry)) < 3153600000000"
    and "\<forall>(t, rnd, kind)\<in>set ((t0, rnd0, kind0) # fs). 0 \<le> t \<and> t < 221000000000 * 1000000000"
    and "\<forall>(t, rnd, kind)\<in>set (take (first_cooldown (rc_storm_guard retry) - 1) fs).
           t - t0 \<le> sint (sg_failure_window_ms (rc_storm_guard retry)) * 1000000"
    and "Suc (length fs) < 2 ^ 32"
  shows "\<exists>st'. fail_run lib retry ((t0, rnd0, kind0) # fs) (clear_reconnect_storm st) = Some st'
           \<and> storm_at retry t0 (Suc (length fs)) st'"
  using assms(2-)
proof (induction fs rule: rev_induct)
  case Nil
  then show ?case
    using storm_first [OF limit, of t0 lib rnd0 kind0 st] by (auto split: option.splits)
next
  case (snoc f fs)
  obtain t rnd kind where f: "f = (t, rnd, kind)" by (cases f)
  have "set (take (first_cooldown (rc_storm_guard retry) - 1) fs)
      \<subseteq> set (take (first_cooldown (rc_storm_guard retry) - 1) (fs @ [f]))" by simp
  with snoc obtain st' where st': "fail_run lib retry ((t0, rnd0, kind0) # fs) (clear_reconnect_storm st) = Some st'"
    "storm_at retry t0 (Suc (length fs)) st'" by auto
  have "t - t0 \<le> sint (sg_failure_window_ms (rc_storm_guard retry)) * 1000000"
    if "Suc (length fs) < first_cooldown (rc_storm_guard retry)"
    using snoc.prems(2) that by (force simp: f)
  with snoc.prems(1,3) f storm_next [OF limit st'(2), of t lib rnd kind]
  obtain c st'' where "record_reconnect_failure lib rnd t retry kind st' = Some (c, st'')"
    "storm_at retry t0 (Suc (Suc (length fs))) st''" by auto
  with st'(1) f show ?case
    using fail_run_append [of lib retry "(t0, rnd0, kind0) # fs" "[f]"] by simp
qed

section \<open>Properties\<close>

text \<open>
  Claim C19. Deduplication: once a message id has been accepted for processing, it is refused
  from then on, however offers, completions and failures of this and other messages interleave,
  as long as its own processing was not marked failed and, once it was marked processed, fewer
  than \<open>dedupe_window_size\<close> completions of other messages followed. This covers both the time it is
  pending, however many other messages complete meanwhile, and the time it is remembered as
  processed.
\<close>

theorem message_taken_once:
  assumes "runtime_ok st" and "should_enqueue lib message_id ts st = (True, st1)"
    and "Cancel message_id \<notin> set steps"
    and "case since_finished message_id steps of
           None \<Rightarrow> True
         | Some later \<Rightarrow> length (filter (finishes_other message_id) later) < st_dedupe_window_size st"
  shows "\<not> fst (should_enqueue lib message_id ts'
           (fold (apply_step (should_enqueue lib) mark_processed mark_failed) steps st1))"
proof -
  note taken = store.offer_taken [OF assms(1,2)]
  with assms(3,4) show ?thesis by (intro store.taken_once) auto
qed

definition demo_time :: time_lib where
  "demo_time =
     \<lparr>parse_rfc3339 = (\<lambda>_. None), format_rfc3339 = (\<lambda>_. None), time_to_string = (\<lambda>_. ''t'')\<rparr>"

theorem message_taken_once_witness:
  "\<not> fst (should_enqueue demo_time ''m1'' ''2026''
     (fold (apply_step (should_enqueue demo_time) mark_processed mark_failed)
       [Offer ''m2'' ''2025'', Offer ''m3'' ''2025'', Finish ''m3'' ''2025'', Finish ''m1'' ''2024'',
        Finish ''m2'' ''2025'']
       (snd (should_enqueue demo_time ''m1'' ''2024'' (empty_store ''/r.json'' 2 None)))))"
  by (rule message_taken_once [where st = "empty_store ''/r.json'' 2 None" and ts = "''2024''"])
    (simp_all add: runtime_ok_def should_enqueue_def empty_store_def timestamp_before_floor_def)


definition demo_store :: RuntimeStore where
  "demo_store = empty_store ''/d/r.json'' 2 None"

definition demo_codec :: runtime_codec where
  "demo_codec =
     \<lparr>print_runtime = (\<lambda>f. if rf_recent_ids f = [] then ''old'' else ''new''),
      parse_runtime = (\<lambda>s. if s = ''old'' then Some (runtime_file demo_store)
        else Some (runtime_file (mark_processed ''m1'' ''2024'' demo_store)))\<rparr>"

definition demo_fs :: fsys where
  "demo_fs = (\<lambda>p. if p = ''/d/r.json'' then Some (RegularFile (Inr ''old'')) else None)"

text \<open>
  The process dies after one byte of the temporary file is written; or the power fails when the
  write is done and not yet synced, and the temporary file holds something else.
\<close>

definition demo_disk :: disk where
  "demo_disk = \<lparr>dk_live = demo_fs, dk_data = (\<lambda>p. {demo_fs p}), dk_old = (\<lambda>p. {})\<rparr>"


text \<open>
  The storm guard bounds the cooldown: recording a failure never fails while the clock
  is before the year 9000 and the cooldown limit is below a hundred years; it returns no
  cooldown exactly when the failures counted are still below the threshold, and a returned
  cooldown is at most \<open>max_cooldown_ms\<close>.
\<close>

theorem storm_cooldown_bounded:
  assumes clock: "0 \<le> now" "now < 221000000000 * 1000000000"
    and limit: "uint (sg_max_cooldown_ms (rc_storm_guard retry)) < 3153600000000"
  shows "\<exists>c st'. record_reconnect_failure lib rnd now retry kind st = Some (c, st')
    \<and> (c = None \<longleftrightarrow> rs_consecutive_failures (st_reconnect_storm st')
                     < sg_consecutive_failure_threshold (rc_storm_guard retry))
    \<and> (\<forall>cd. c = Some cd \<longrightarrow> cd_cooldown_ms cd \<le> sg_max_cooldown_ms (rc_storm_guard retry)
          \<and> c = reconnect_cooldown st')"
proof -
  define st2 where "st2 = count_failure kind (reset_failure_window now retry st)"
  obtain t where t: "time_add_ms now (min (uint (effective_cooldown rnd retry
      (rs_cooldown_ms (st_reconnect_storm st2)))) (2 ^ 63 - 1)) = Some t"
    using cooldown_end_exists [OF clock limit] by blast
  show ?thesis
    using effective_cooldown_le t
    by (auto simp: record_reconnect_failure_def Let_def reconnect_cooldown_def simp flip: st2_def)
qed

definition demo_retry :: RetryConfig where
  "demo_retry =
     \<lparr>rc_base_ms = 1000, rc_max_ms = 60000, rc_jitter_ratio = FFin 0,
      rc_storm_guard = default_storm_guard\<rparr>"

theorem storm_cooldown_bounded_witness:
  "\<exists>c st'. record_reconnect_failure demo_time (FFin 0) 0 demo_retry ''io''
             (empty_store ''/r.json'' 2 None) = Some (c, st')
    \<and> (c = None \<longleftrightarrow> rs_consecutive_failures (st_reconnect_storm st')
                     < sg_consecutive_failure_threshold (rc_storm_guard demo_retry))
    \<and> (\<forall>cd. c = Some cd \<longrightarrow> cd_cooldown_ms cd \<le> sg_max_cooldown_ms (rc_storm_guard demo_retry)
          \<and> c = reconnect_cooldown st')"
  by (rule storm_cooldown_bounded) (simp_all add: demo_retry_def default_storm_guard_def)

text \<open>
  Claim C26. The storm guard follows its schedule, whatever the jitter: when the failures up to the
  threshold come within the failure window of the first one, every failure is counted, there is no
  cooldown as long as fewer than the threshold were counted and one from then on, however late the
  further failures come, and it is at most \<open>max_cooldown_ms\<close>. When the jitter ratio is not positive
  the cooldown is exact: the failure that reaches the threshold sets \<open>cooldown_ms\<close>, and every further
  one doubles it, up to \<open>max_cooldown_ms\<close>. The clock is between 1970 and the year 8900 and
  \<open>max_cooldown_ms\<close> below a hundred years, so that the time of the next attempt is a date.
\<close>

theorem storm_schedule:
  assumes limit: "uint (sg_max_cooldown_ms (rc_storm_guard retry)) < 3153600000000"
    and clock: "\<forall>(t, rnd, kind)\<in>set ((t0, rnd0, kind0) # fs). 0 \<le> t \<and> t < 221000000000 * 1000000000"
    and window: "\<forall>(t, rnd, kind)\<in>set (take (first_cooldown (rc_storm_guard retry) - 1) fs).
           t - t0 \<le> sint (sg_failure_window_ms (rc_storm_guard retry)) * 1000000"
    and count: "Suc (length fs) < 2 ^ 32"
  shows "\<exists>st'. fail_run lib retry ((t0, rnd0, kind0) # fs) (clear_reconnect_storm st) = Some st'
    \<and> unat (rs_consecutive_failures (st_reconnect_storm st')) = Suc (length fs)
    \<and> (rs_cooldown_ms (st_reconnect_storm st') = None
         \<longleftrightarrow> Suc (length fs) < first_cooldown (rc_storm_guard retry))
    \<and> (\<forall>c. rs_cooldown_ms (st_reconnect_storm st') = Some c
         \<longrightarrow> c \<le> sg_max_cooldown_ms (rc_storm_guard retry))
    \<and> (fle (rc_jitter_ratio retry) (FFin 0)
         \<longrightarrow> map_option unat (rs_cooldown_ms (st_reconnect_storm st'))
               = scheduled_cooldown (rc_storm_guard retry) (Suc (length fs)))"
proof -
  obtain st' where "fail_run lib retry ((t0, rnd0, kind0) # fs) (clear_reconnect_storm st) = Some st'"
    "storm_at retry t0 (Suc (length fs)) st'"
    using storm_run [OF assms, of lib st] by blast
  then show ?thesis by (intro exI [of _ st']) (simp add: storm_at_def)
qed

text \<open>The third and fourth failure come an hour apart, long after the failure window of a minute.\<close>

theorem storm_schedule_witness:
  "\<exists>st'. fail_run demo_time (demo_retry\<lparr>rc_storm_guard := default_storm_guard
              \<lparr>sg_consecutive_failure_threshold := 2\<rparr>\<rparr>)
            [(0, FFin 0, ''io''), (1, FFin 0, ''io''), (3600000000000, FFin 0, ''io''), (7200000000000, FFin 0, ''io'')]
            (clear_reconnect_storm (empty_store ''/r.json'' 2 None)) = Some st'
    \<and> unat (rs_consecutive_failures (st_reconnect_storm st')) = 4
    \<and> map_option unat (rs_cooldown_ms (st_reconnect_storm st')) = Some 1200000"
proof -
  let ?retry = "demo_retry\<lparr>rc_storm_guard := default_storm_guard\<lparr>sg_consecutive_failure_threshold := 2\<rparr>\<rparr>"
  have guard: "first_cooldown (rc_storm_guard ?retry) = 2"
    "scheduled_cooldown (rc_storm_guard ?retry) (Suc (Suc (Suc (Suc 0)))) = Some 1200000" "fle (rc_jitter_ratio ?retry) (FFin 0)"
    "uint (sg_max_cooldown_ms (rc_storm_guard ?retry)) < 3153600000000"
    "1 \<le> sint (sg_failure_window_ms (rc_storm_guard ?retry)) * 1000000"
    by (simp_all add: demo_retry_def default_storm_guard_def scheduled_cooldown_def first_cooldown_def)
  obtain st' where "fail_run demo_time ?retry
      [(0, FFin 0, ''io''), (1, FFin 0, ''io''), (3600000000000, FFin 0, ''io''), (7200000000000, FFin 0, ''io'')]
      (clear_reconnect_storm (empty_store ''/r.json'' 2 None)) = Some st'"
    "unat (rs_consecutive_failures (st_reconnect_storm st')) = 4"
    "map_option unat (rs_cooldown_ms (st_reconnect_storm st')) = Some 1200000"
    using storm_schedule [of ?retry 0 "FFin 0" "''io''"
            "[(1, FFin 0, ''io''), (3600000000000, FFin 0, ''io''), (7200000000000, FFin 0, ''io'')]"
            demo_time "empty_store ''/r.json'' 2 None"] guard by (auto simp del: fail_run.simps)
  then show ?thesis by blast
qed

text \<open>
  Claim C20. The store refines its view. A store that was loaded, from whatever file, answers every
  sequence of offers, completions and cancellations as the view does, in which a message is refused
  if and only if it is too old, in progress, or among the last finished ones; at the end the store
  shows the view that was reached, whose finished messages are distinct and no more than the window
  holds.
\<close>

theorem store_refines_view:
  "case runtime_load codec now fs path w floor_ts of
     Inl e \<Rightarrow> True
   | Inr st \<Rightarrow>
       (let (as, st') = answers (store_step lib) cs st;
            (as', v) = answers (view_step lib floor_ts w) cs (view st)
        in as = as' \<and> view st' = v \<and> distinct (dv_done v) \<and> length (dv_done v) \<le> w)"
proof (cases "runtime_load codec now fs path w floor_ts")
  case (Inr st)
  note load = runtime_load_ok [OF this]
  obtain as st' where run: "answers (store_step lib) cs st = (as, st')" by fastforce
  from store_run_ok [OF load(1) run] load have ok: "runtime_ok st'" "st_dedupe_window_size st' = w" by simp_all
  from store_run_view [OF load(1), of lib cs] run load
  have "answers (view_step lib floor_ts w) cs (view st) = (as, view st')" by simp
  with Inr run ok show ?thesis by (simp add: view_def runtime_ok_def)
qed simp

end
