(* ===== verification/Daemon_Status.thy ===== *)
theory Daemon_Status
  imports Config_Ops Runtime_Store
begin

text \<open>
  The status the daemon reports, first part of \<^verbatim>\<open>src/src/supervisor.rs\<close>: health of the gateway
  connection and of every server, kept in a map ordered by base URL. The current time is an
  argument (nanoseconds), the RFC 3339 parser that of \<open>time_lib\<close>.
\<close>

section \<open>Data\<close>

record AttentionHealth =
  ah_receptor_count :: nat
  ah_interest_receptor_count :: nat
  ah_veto_receptor_count :: nat
  ah_wildcard_receptor_count :: nat
  ah_delivery_mode :: string
  ah_degraded :: bool

record ServerHealth =
  sh_server :: string
  sh_server_key :: string
  sh_subspace_state :: string
  sh_session_expires_at :: "string option"
  sh_veto_enforcement_state :: string
  sh_attention :: AttentionHealth
  sh_consecutive_failures :: "u32 option"
  sh_cooldown_ms :: "u64 option"
  sh_next_attempt_at :: "string option"
  sh_last_error_kind :: "string option"

record DaemonStatus =
  st_gateway_state :: string
  st_wake_session_key :: string
  st_servers :: "(string, ServerHealth) omap"

section \<open>Attention health\<close>

definition health_from_layer :: "AttentionLayer \<Rightarrow> AttentionHealth" where
  "health_from_layer layer =
     \<lparr>ah_receptor_count = receptor_count layer,
      ah_interest_receptor_count = interest_receptor_count layer,
      ah_veto_receptor_count = veto_receptor_count layer,
      ah_wildcard_receptor_count = wildcard_receptor_count layer,
      ah_delivery_mode = delivery_mode layer, ah_degraded = al_degraded layer\<rparr>"

definition health_not_configured :: AttentionHealth where
  "health_not_configured =
     \<lparr>ah_receptor_count = 0, ah_interest_receptor_count = 0, ah_veto_receptor_count = 0,
      ah_wildcard_receptor_count = 0, ah_delivery_mode = ''no_active_receptors'',
      ah_degraded = False\<rparr>"

definition health_veto_enforcement_state :: "AttentionHealth \<Rightarrow> string" where
  "health_veto_enforcement_state h =
     (if ah_delivery_mode h = ''veto_enforcement_unavailable'' then ''unavailable''
      else if 0 < ah_veto_receptor_count h then ''ready''
      else ''not_configured'')"

section \<open>Operations\<close>

definition connecting_health :: "string \<Rightarrow> string \<Rightarrow> ServerHealth" where
  "connecting_health base_url server_key =
     \<lparr>sh_server = base_url, sh_server_key = server_key, sh_subspace_state = ''connecting'',
      sh_session_expires_at = None, sh_veto_enforcement_state = ''not_configured'',
      sh_attention = health_not_configured, sh_consecutive_failures = None, sh_cooldown_ms = None,
      sh_next_attempt_at = None, sh_last_error_kind = None\<rparr>"

definition daemon_status_new :: "Config \<Rightarrow> DaemonStatus" where
  "daemon_status_new cfg =
     \<lparr>st_gateway_state = ''connecting'', st_wake_session_key = cf_wake_session_key cfg,
      st_servers = omap_insert_all
        (map (\<lambda>s. (sv_base_url s, connecting_health (sv_base_url s) (sv_server_key s)))
          (filter sv_enabled (cf_servers cfg))) []\<rparr>"

definition session_expires_soon :: "time_lib \<Rightarrow> int \<Rightarrow> string option \<Rightarrow> bool" where
  "session_expires_soon lib now expires =
     (case expires of
        None \<Rightarrow> True
      | Some s \<Rightarrow>
          (case parse_rfc3339 lib s of
             None \<Rightarrow> True
           | Some t \<Rightarrow> t - now \<le> 24 * 3600 * 1000000000))"

definition server_healthy :: "time_lib \<Rightarrow> int \<Rightarrow> ServerHealth \<Rightarrow> bool" where
  "server_healthy lib now s =
     (if sh_subspace_state s = ''live'' then \<not> session_expires_soon lib now (sh_session_expires_at s)
      else sh_subspace_state s
             \<in> set [''reconnecting'', ''reconnect_cooldown'', ''subspace_auth_required''])"

definition is_healthy :: "time_lib \<Rightarrow> int \<Rightarrow> DaemonStatus \<Rightarrow> bool" where
  "is_healthy lib now status \<longleftrightarrow>
     (st_gateway_state status = ''live'' \<or> st_gateway_state status = ''pairing_required'')
     \<and> list_all (server_healthy lib now) (omap_values (st_servers status))"

definition set_gateway_state :: "string \<Rightarrow> DaemonStatus \<Rightarrow> DaemonStatus" where
  "set_gateway_state value status = status\<lparr>st_gateway_state := value\<rparr>"

text \<open>
  What \<open>set_server_state\<close> and \<open>set_server_reconnect_cooldown\<close> carry over from the entry before.
\<close>

definition carried_health :: "string \<Rightarrow> string \<Rightarrow> DaemonStatus \<Rightarrow> ServerHealth" where
  "carried_health base_url server_key status =
     (let old = omap_get (st_servers status) base_url
      in (connecting_health base_url server_key)
           \<lparr>sh_session_expires_at := Option.bind old sh_session_expires_at,
            sh_veto_enforcement_state :=
              unwrap_or ''not_configured'' (map_option sh_veto_enforcement_state old),
            sh_attention := unwrap_or health_not_configured (map_option sh_attention old)\<rparr>)"

definition set_server_state :: "string \<Rightarrow> string \<Rightarrow> string \<Rightarrow> DaemonStatus \<Rightarrow> DaemonStatus" where
  "set_server_state base_url server_key value status =
     status\<lparr>st_servers := omap_insert base_url
       ((carried_health base_url server_key status)\<lparr>sh_subspace_state := value\<rparr>) (st_servers status)\<rparr>"

definition set_server_reconnect_cooldown :: "string \<Rightarrow> string \<Rightarrow> u32 \<Rightarrow> u64 \<Rightarrow> string
    \<Rightarrow> string option \<Rightarrow> DaemonStatus \<Rightarrow> DaemonStatus" where
  "set_server_reconnect_cooldown base_url server_key failures cooldown next_attempt kind status =
     status\<lparr>st_servers := omap_insert base_url
       ((carried_health base_url server_key status)
          \<lparr>sh_subspace_state := ''reconnect_cooldown'', sh_consecutive_failures := Some failures,
           sh_cooldown_ms := Some cooldown, sh_next_attempt_at := Some next_attempt,
           sh_last_error_kind := kind\<rparr>) (st_servers status)\<rparr>"

text \<open>The other setters update the entry in place, or start from a connecting one.\<close>

definition entry_or_connecting :: "string \<Rightarrow> string \<Rightarrow> DaemonStatus \<Rightarrow> ServerHealth" where
  "entry_or_connecting base_url server_key status =
     (case omap_get (st_servers status) base_url of
        Some server \<Rightarrow> server\<lparr>sh_server_key := server_key\<rparr>
      | None \<Rightarrow> connecting_health base_url server_key)"

definition set_server_veto_enforcement_state :: "string \<Rightarrow> string \<Rightarrow> string \<Rightarrow> DaemonStatus
    \<Rightarrow> DaemonStatus" where
  "set_server_veto_enforcement_state base_url server_key state status =
     status\<lparr>st_servers := omap_insert base_url
       ((entry_or_connecting base_url server_key status)\<lparr>sh_veto_enforcement_state := state\<rparr>)
       (st_servers status)\<rparr>"

definition set_server_attention_health :: "string \<Rightarrow> string \<Rightarrow> AttentionHealth \<Rightarrow> DaemonStatus
    \<Rightarrow> DaemonStatus" where
  "set_server_attention_health base_url server_key h status =
     status\<lparr>st_servers := omap_insert base_url
       ((entry_or_connecting base_url server_key status)
          \<lparr>sh_veto_enforcement_state := health_veto_enforcement_state h, sh_attention := h\<rparr>)
       (st_servers status)\<rparr>"

definition set_server_session_expires_at :: "string \<Rightarrow> string \<Rightarrow> string option \<Rightarrow> DaemonStatus
    \<Rightarrow> DaemonStatus" where
  "set_server_session_expires_at base_url server_key expires status =
     status\<lparr>st_servers := omap_insert base_url
       ((entry_or_connecting base_url server_key status)\<lparr>sh_session_expires_at := expires\<rparr>)
       (st_servers status)\<rparr>"

definition server_state :: "string \<Rightarrow> DaemonStatus \<Rightarrow> string option" where
  "server_state base_url status = map_option sh_subspace_state (omap_get (st_servers status) base_url)"

definition servers_snapshot :: "DaemonStatus \<Rightarrow> ServerHealth list" where
  "servers_snapshot status = omap_values (st_servers status)"

section \<open>Invariant\<close>

text \<open>
  Entries are filed under their own URL, and the veto state reported for a server is the one
  its attention health implies.
\<close>

definition status_ok :: "DaemonStatus \<Rightarrow> bool" where
  "status_ok status \<longleftrightarrow>
     omap_ok (st_servers status) \<and>
     (\<forall>url s. omap_get (st_servers status) url = Some s \<longrightarrow>
        sh_server s = url \<and> sh_veto_enforcement_state s = health_veto_enforcement_state (sh_attention s))"

lemma health_not_configured_veto:
  "health_veto_enforcement_state health_not_configured = ''not_configured''"
  by (simp add: health_veto_enforcement_state_def health_not_configured_def)

lemma status_ok_insert:
  assumes "status_ok status" and "sh_server s = url"
    and "sh_veto_enforcement_state s = health_veto_enforcement_state (sh_attention s)"
  shows "status_ok (status\<lparr>st_servers := omap_insert url s (st_servers status)\<rparr>)"
  using assms by (auto simp: status_ok_def omap.get_ins omap.invar_ins)

lemma carried_health_ok:
  assumes "status_ok status"
  shows "sh_server (carried_health url key status) = url"
    and "sh_veto_enforcement_state (carried_health url key status)
           = health_veto_enforcement_state (sh_attention (carried_health url key status))"
  using assms
  by (cases "omap_get (st_servers status) url";
      auto simp: carried_health_def connecting_health_def status_ok_def health_not_configured_veto
        Let_def)+

lemma entry_or_connecting_ok:
  assumes "status_ok status"
  shows "sh_server (entry_or_connecting url key status) = url"
    and "sh_veto_enforcement_state (entry_or_connecting url key status)
           = health_veto_enforcement_state (sh_attention (entry_or_connecting url key status))"
  using assms
  by (auto simp: entry_or_connecting_def connecting_health_def status_ok_def
      health_not_configured_veto split: option.splits)

lemma setters_ok:
  assumes "status_ok status"
  shows "status_ok (set_gateway_state v status)"
    and "status_ok (set_server_state url key v status)"
    and "status_ok (set_server_reconnect_cooldown url key f c t k status)"
    and "status_ok (set_server_attention_health url key h status)"
    and "status_ok (set_server_session_expires_at url key x status)"
proof -
  show "status_ok (set_gateway_state v status)"
    using assms by (simp add: set_gateway_state_def status_ok_def)
qed (use assms carried_health_ok [OF assms, of url key] entry_or_connecting_ok [OF assms, of url key] in
    \<open>auto intro!: status_ok_insert simp: set_server_state_def set_server_reconnect_cooldown_def
      set_server_attention_health_def set_server_session_expires_at_def\<close>)

lemma daemon_status_new_ok: "status_ok (daemon_status_new cfg)"
proof -
  have "map_of (rev (map (\<lambda>s. (sv_base_url s, connecting_health (sv_base_url s) (sv_server_key s))) ss)) url
      = Some h \<Longrightarrow> \<exists>key. h = connecting_health url key" for ss url h
    by (auto dest!: map_of_SomeD)
  then show ?thesis
    by (fastforce simp: status_ok_def daemon_status_new_def omap_ok_insert_all omap_get_insert_all
        connecting_health_def health_not_configured_veto)
qed

section \<open>Properties\<close>

text \<open>
  The veto state that the health endpoint derives from the reported counts and mode is
  the veto state of the attention layer itself.
\<close>

theorem reported_veto_state_is_layer_state:
  "health_veto_enforcement_state (health_from_layer layer) = veto_enforcement_state layer"
proof -
  have "0 < veto_receptor_count layer \<longleftrightarrow> list_ex is_veto (al_receptors layer)"
    by (auto simp: veto_receptor_count_def list_ex_iff filter_empty_conv)
  then show ?thesis
    by (simp add: health_veto_enforcement_state_def health_from_layer_def veto_enforcement_state_def
        delivery_mode_def)
qed

text \<open>
  The status map stays consistent: from the initial status, every update by the
  connection code (states, cooldowns, attention health and session expiry of any server) keeps
  each entry under its own URL with the veto state its attention health implies, and touches no
  other server.
\<close>

theorem status_updates_consistent:
  "status_ok (daemon_status_new cfg)
   \<and> keeps status_ok (update (set_gateway_state v))
   \<and> keeps status_ok (update (set_server_state url key v))
   \<and> keeps status_ok (update (set_server_reconnect_cooldown url key f c t k))
   \<and> keeps status_ok (update (set_server_attention_health url key h))
   \<and> keeps status_ok (update (set_server_session_expires_at url key x))
   \<and> (other = url \<or> omap_get (st_servers (set_server_state url key v status)) other
                     = omap_get (st_servers status) other)
   \<and> server_state url (set_server_state url key v status) = Some v"
proof -
  have "omap_get (st_servers (set_server_state url key v status)) other
      = (if other = url then Some ((carried_health url key status)\<lparr>sh_subspace_state := v\<rparr>)
         else omap_get (st_servers status) other)" for other
    by (simp add: set_server_state_def omap.get_ins)
  then show ?thesis
    by (simp add: keeps_def update_def setters_ok daemon_status_new_ok server_state_def)
qed

end
