(* ===== verification/Outbound_Embeddings.thy ===== *)
theory Outbound_Embeddings
  imports Attention
begin

text \<open>
  Embeddings of an outbound message, the second half of \<^verbatim>\<open>src/src/attention/mod.rs\<close>: the
  spaces a request may ask for, the clients that can generate them, and the merge of supplied
  and generated embeddings. The reference description is \<open>outbound_choice\<close>, which says for one
  space where its embedding comes from.
\<close>

section \<open>Operations\<close>

definition small_space_id :: string where
  "small_space_id = ''openai:text-embedding-3-small:1536:v1''"

definition large_space_id :: string where
  "large_space_id = ''openai:text-embedding-3-large:3072:v1''"

definition is_supported_generated_space :: "string \<Rightarrow> bool" where
  "is_supported_generated_space sp \<longleftrightarrow> sp = small_space_id \<or> sp = large_space_id"

fun validate_generated_spaces :: "string list \<Rightarrow> unit result" where
  "validate_generated_spaces [] = Inr ()"
| "validate_generated_spaces (raw # rest) =
     (let space_id = trim raw
      in if space_id = [] then Inl ''generate_for_spaces entries must not be empty''
         else if \<not> is_supported_generated_space space_id
         then Inl (''unsupported generated embedding space: '' @ space_id
                   @ ''; supported spaces are '' @ small_space_id @ '' and '' @ large_space_id)
         else validate_generated_spaces rest)"

definition configured_generated_embedding_clients ::
  "fsys \<Rightarrow> AttentionConfig \<Rightarrow> (string, EmbeddingPluginClient) omap" where
  "configured_generated_embedding_clients fs cfg =
     omap_insert_all
       (map (\<lambda>b. (eb_default_space_id b, b))
         (filter (plugin_is_available fs)
           (filter (\<lambda>b. is_supported_generated_space (eb_default_space_id b))
             (filter eb_enabled (ac_embedding_backends cfg))))) []"

text \<open>The distinct requested spaces in the order of the \<open>BTreeSet\<close>.\<close>

definition requested_spaces :: "OutboundEmbeddingRequest \<Rightarrow> string list" where
  "requested_spaces request =
     sort (remdups (filter (\<lambda>s. s \<noteq> []) (map trim (oe_generate_for_spaces request))))"

fun generate_embeddings :: "plugin_io \<Rightarrow> string \<Rightarrow> OutboundEmbeddingRequest
    \<Rightarrow> (string, EmbeddingPluginClient) omap \<Rightarrow> string list \<Rightarrow> MessageEmbedding list" where
  "generate_embeddings io txt request clients [] = []"
| "generate_embeddings io txt request clients (sp # rest) =
     (let others = generate_embeddings io txt request clients rest
      in if \<not> oe_generated_embeddings_override_supplied request
            \<and> list_ex (\<lambda>e. me_space_id e = sp) (oe_embeddings request)
         then others
         else case omap_get clients sp of
                None \<Rightarrow> others
              | Some client \<Rightarrow>
                  (case embed io client [txt] of
                     Inl _ \<Rightarrow> others
                   | Inr [] \<Rightarrow> others
                   | Inr (v # _) \<Rightarrow> \<lparr>me_space_id = sp, me_vector = v\<rparr> # others))"

definition by_space :: "MessageEmbedding list \<Rightarrow> (string \<times> MessageEmbedding) list" where
  "by_space es = map (\<lambda>e. (me_space_id e, e)) es"

definition merge_outbound_embeddings ::
  "MessageEmbedding list \<Rightarrow> MessageEmbedding list \<Rightarrow> bool \<Rightarrow> MessageEmbedding list" where
  "merge_outbound_embeddings supplied generated override =
     omap_values
       (if override
        then omap_insert_all (by_space generated) (omap_insert_all (by_space supplied) [])
        else omap_insert_all (by_space supplied) (omap_insert_all (by_space generated) []))"

definition compose_outbound_embeddings :: "plugin_io \<Rightarrow> string \<Rightarrow> OutboundEmbeddingRequest
    \<Rightarrow> (string, EmbeddingPluginClient) omap \<Rightarrow> MessageEmbedding list" where
  "compose_outbound_embeddings io txt request clients =
     merge_outbound_embeddings (oe_embeddings request)
       (generate_embeddings io txt request clients (requested_spaces request))
       (oe_generated_embeddings_override_supplied request)"

section \<open>Where the embedding of a space comes from\<close>

definition supplied_for :: "OutboundEmbeddingRequest \<Rightarrow> string \<Rightarrow> MessageEmbedding option" where
  "supplied_for request sp = find (\<lambda>e. me_space_id e = sp) (rev (oe_embeddings request))"

definition generated_for :: "plugin_io \<Rightarrow> string \<Rightarrow> OutboundEmbeddingRequest
    \<Rightarrow> (string, EmbeddingPluginClient) omap \<Rightarrow> string \<Rightarrow> MessageEmbedding option" where
  "generated_for io txt request clients sp =
     (if sp = [] \<or> sp \<notin> trim ` set (oe_generate_for_spaces request) then None
      else case omap_get clients sp of
             None \<Rightarrow> None
           | Some client \<Rightarrow>
               (case embed io client [txt] of
                  Inr (v # _) \<Rightarrow> Some \<lparr>me_space_id = sp, me_vector = v\<rparr>
                | _ \<Rightarrow> None))"

definition outbound_choice :: "plugin_io \<Rightarrow> string \<Rightarrow> OutboundEmbeddingRequest
    \<Rightarrow> (string, EmbeddingPluginClient) omap \<Rightarrow> string \<Rightarrow> MessageEmbedding option" where
  "outbound_choice io txt request clients sp =
     (let s = supplied_for request sp; g = generated_for io txt request clients sp
      in if oe_generated_embeddings_override_supplied request
         then (case g of None \<Rightarrow> s | Some e \<Rightarrow> Some e)
         else (case s of None \<Rightarrow> g | Some e \<Rightarrow> Some e))"

section \<open>Lemmas\<close>

lemma validate_generated_spaces_ok_iff:
  "validate_generated_spaces rs = Inr () \<longleftrightarrow> (\<forall>r\<in>set rs. is_supported_generated_space (trim r))"
  by (induction rs) (auto simp: Let_def is_supported_generated_space_def small_space_id_def large_space_id_def)

lemma supported_space_nonempty: "is_supported_generated_space sp \<Longrightarrow> sp \<noteq> []"
  by (auto simp: is_supported_generated_space_def small_space_id_def large_space_id_def)

lemma configured_clients_ok: "omap_ok (configured_generated_embedding_clients fs cfg)"
  by (simp add: configured_generated_embedding_clients_def omap_ok_insert_all)

lemma configured_clients_get:
  assumes "omap_get (configured_generated_embedding_clients fs cfg) sp = Some c"
  shows "c \<in> set (ac_embedding_backends cfg) \<and> eb_enabled c \<and> eb_default_space_id c = sp
    \<and> is_supported_generated_space sp \<and> plugin_is_available fs c"
  using assms
  by (auto simp: configured_generated_embedding_clients_def omap_get_insert_all
      dest!: map_of_SomeD)

lemma map_of_by_space_rev:
  "map_of (rev (by_space es)) sp = find (\<lambda>e. me_space_id e = sp) (rev es)"
proof -
  have "map_of (by_space es) sp = find (\<lambda>e. me_space_id e = sp) es" for es
    by (induction es) (auto simp: by_space_def)
  then show ?thesis by (simp add: by_space_def rev_map)
qed

lemma set_requested_spaces:
  "set (requested_spaces request) = {s. s \<noteq> [] \<and> s \<in> trim ` set (oe_generate_for_spaces request)}"
  by (auto simp: requested_spaces_def)

text \<open>What is generated, space by space: the duplicate-free list makes the search unambiguous.\<close>

lemma find_generate_embeddings:
  assumes "distinct sps"
  shows "find (\<lambda>e. me_space_id e = sp) (rev (generate_embeddings io txt request clients sps)) =
     (if sp \<in> set sps \<and> (oe_generated_embeddings_override_supplied request
            \<or> \<not> list_ex (\<lambda>e. me_space_id e = sp) (oe_embeddings request))
      then (case omap_get clients sp of
              None \<Rightarrow> None
            | Some client \<Rightarrow>
                (case embed io client [txt] of
                   Inr (v # _) \<Rightarrow> Some \<lparr>me_space_id = sp, me_vector = v\<rparr>
                 | _ \<Rightarrow> None))
      else None)"
  using assms
proof (induction sps)
  case Nil
  then show ?case by simp
next
  case (Cons a sps)
  have find_snoc: "find P (xs @ [x]) = (case find P xs of None \<Rightarrow> if P x then Some x else None | Some y \<Rightarrow> Some y)"
    for P :: "MessageEmbedding \<Rightarrow> bool" and xs x
    by (induction xs) auto
  show ?case
    using Cons
    by (auto simp: Let_def find_snoc split: option.splits sum.splits list.splits)
qed

lemma find_list_ex_rev:
  "find P (rev xs) = None \<longleftrightarrow> \<not> list_ex P xs"
  by (auto simp: find_None_iff list_ex_iff)

lemma merged_get:
  assumes m: "m = (if override
        then omap_insert_all (by_space generated) (omap_insert_all (by_space supplied) [])
        else omap_insert_all (by_space supplied) (omap_insert_all (by_space generated) []))"
  shows "omap_get m sp =
     (let s = find (\<lambda>e. me_space_id e = sp) (rev supplied);
          g = find (\<lambda>e. me_space_id e = sp) (rev generated)
      in if override then (case g of None \<Rightarrow> s | Some e \<Rightarrow> Some e)
         else (case s of None \<Rightarrow> g | Some e \<Rightarrow> Some e))"
    and "omap_ok m"
  by (auto simp: m omap_get_insert_all map_add_def map_of_by_space_rev omap_ok_insert_all Let_def
      split: option.splits)

lemma by_space_keys:
  assumes "omap_ok m" and "\<And>k e. omap_get m k = Some e \<Longrightarrow> me_space_id e = k"
  shows "map me_space_id (omap_values m) = map fst m"
  using assms by (auto simp: omap_values_def omap_get_in_set)

lemma find_by_space:
  assumes "omap_ok m" and "\<And>k e. omap_get m k = Some e \<Longrightarrow> me_space_id e = k"
  shows "find (\<lambda>e. me_space_id e = sp) (omap_values m) = omap_get m sp"
proof -
  have "\<forall>(k, e)\<in>set m. me_space_id e = k"
    using assms by (auto simp: omap_get_in_set)
  then show ?thesis
    by (induction m) (auto simp: omap_values_def omap_get_def)
qed

lemma set_merge_outbound: "set (merge_outbound_embeddings s g b) \<subseteq> set s \<union> set g"
proof
  fix e assume e: "e \<in> set (merge_outbound_embeddings s g b)"
  define m where "m = (if b then omap_insert_all (by_space g) (omap_insert_all (by_space s) [])
      else omap_insert_all (by_space s) (omap_insert_all (by_space g) []))"
  note get = merged_get(1) [OF m_def] and ok = merged_get(2) [OF m_def]
  from e have "e \<in> set (omap_values m)"
    by (simp add: merge_outbound_embeddings_def m_def)
  then obtain sp where "omap_get m sp = Some e" using omap_values_set [OF ok] by blast
  then show "e \<in> set s \<union> set g"
    by (auto simp: get Let_def dest!: find_SomeD split: if_splits option.splits)
qed

section \<open>Properties\<close>

text \<open>
  Claim C32. The outbound embeddings are exactly the chosen ones, one per space and in the order of
  the space ids: without the override flag a supplied embedding (the last one for its space)
  wins over a generated one, with it a generated one wins; a space that was requested but has
  no client, or whose plugin failed, keeps what was supplied; no other space appears.
\<close>

theorem compose_outbound_chooses:
  "sorted_wrt (<) (map me_space_id (compose_outbound_embeddings io txt request clients))
   \<and> find (\<lambda>e. me_space_id e = sp) (compose_outbound_embeddings io txt request clients)
       = outbound_choice io txt request clients sp"
proof -
  let ?gen = "generate_embeddings io txt request clients (requested_spaces request)"
  let ?over = "oe_generated_embeddings_override_supplied request"
  let ?sup = "oe_embeddings request"
  define m where "m = (if ?over
      then omap_insert_all (by_space ?gen) (omap_insert_all (by_space ?sup) [])
      else omap_insert_all (by_space ?sup) (omap_insert_all (by_space ?gen) []))"
  note get = merged_get(1) [OF m_def] and ok = merged_get(2) [OF m_def]
  have out: "compose_outbound_embeddings io txt request clients = omap_values m"
    by (simp add: compose_outbound_embeddings_def merge_outbound_embeddings_def m_def)
  have keyed: "me_space_id e = k" if "omap_get m k = Some e" for k e
    using that by (auto simp: get Let_def find_Some_iff split: if_splits option.splits)
  have "distinct (requested_spaces request)" by (simp add: requested_spaces_def)
  then have "omap_get m sp = outbound_choice io txt request clients sp"
    by (auto simp: get outbound_choice_def supplied_for_def generated_for_def Let_def
        find_generate_embeddings set_requested_spaces find_list_ex_rev split: option.splits)
  with find_by_space [OF ok keyed] by_space_keys [OF ok keyed] ok show ?thesis
    unfolding out by (simp add: omap_ok_def)
qed

text \<open>
  An embedding the caller did not supply was generated by an enabled, available backend of a
  supported space.
\<close>

lemma generated_embeddings_supported:
  assumes "e \<in> set (compose_outbound_embeddings io txt request
                (configured_generated_embedding_clients fs cfg))"
    and "e \<notin> set (oe_embeddings request)"
  shows "is_supported_generated_space (me_space_id e) \<and>
    (\<exists>b\<in>set (ac_embedding_backends cfg). eb_enabled b \<and> plugin_is_available fs b
       \<and> eb_default_space_id b = me_space_id e \<and> embed io b [txt] = Inr [me_vector e])"
proof -
  let ?cl = "configured_generated_embedding_clients fs cfg"
  let ?gen = "generate_embeddings io txt request ?cl (requested_spaces request)"
  have gen: "\<exists>c. omap_get clients (me_space_id e) = Some c \<and> (\<exists>vs. embed io c [txt] = Inr (me_vector e # vs))"
    if "e \<in> set (generate_embeddings io txt request clients sps)" for clients sps
    using that
    by (induction sps) (auto simp: Let_def split: if_splits option.splits sum.splits list.splits)
  have "e \<in> set ?gen"
    using assms set_merge_outbound by (fastforce simp: compose_outbound_embeddings_def)
  from gen [OF this] obtain c vs where c: "omap_get ?cl (me_space_id e) = Some c"
    and vs: "embed io c [txt] = Inr (me_vector e # vs)" by blast
  from vs have "vs = []" using embed_length by fastforce
  with configured_clients_get [OF c] vs show ?thesis by blast
qed

end
