(* ===== verification/Sql_Table.thy ===== *)
theory Sql_Table
  imports Prelude
begin

text \<open>
  SQLite tables as the daemon uses them: rows under an \<open>INTEGER PRIMARY KEY AUTOINCREMENT\<close>, with
  \<open>INSERT\<close>, \<open>UPDATE ... WHERE\<close>, \<open>INSERT ... ON CONFLICT(key) DO UPDATE\<close> and \<open>SELECT id\<close>. The
  contract of an upsert on a unique key is a locale, interpreted once per table in \<open>Storage\<close>.
\<close>

section \<open>Tables\<close>

text \<open>Rows in insertion order, each with its id, and the largest id ever given out.\<close>

record 'r sql_table =
  tb_rows :: "(int \<times> 'r) list"
  tb_seq :: int

definition empty_table :: "'r sql_table" where
  "empty_table = \<lparr>tb_rows = [], tb_seq = 0\<rparr>"

definition row_ids :: "'r sql_table \<Rightarrow> int set" where
  "row_ids t = fst ` set (tb_rows t)"

definition insert_row :: "'r \<Rightarrow> 'r sql_table \<Rightarrow> 'r sql_table" where
  "insert_row r t = t\<lparr>tb_rows := tb_rows t @ [(tb_seq t + 1, r)], tb_seq := tb_seq t + 1\<rparr>"

definition update_where :: "(int \<Rightarrow> 'r \<Rightarrow> bool) \<Rightarrow> ('r \<Rightarrow> 'r) \<Rightarrow> 'r sql_table \<Rightarrow> 'r sql_table" where
  "update_where P f t = t\<lparr>tb_rows := map (\<lambda>(i, r). (i, if P i r then f r else r)) (tb_rows t)\<rparr>"

definition select_id :: "('r \<Rightarrow> bool) \<Rightarrow> 'r sql_table \<Rightarrow> int option" where
  "select_id P t = map_option fst (find (\<lambda>(i, r). P r) (tb_rows t))"

definition row_at :: "int \<Rightarrow> 'r sql_table \<Rightarrow> 'r option" where
  "row_at i t = map_option snd (find (\<lambda>(j, r). j = i) (tb_rows t))"

definition upsert :: "('r \<Rightarrow> 'k) \<Rightarrow> ('r \<Rightarrow> 'r \<Rightarrow> 'r) \<Rightarrow> 'r \<Rightarrow> 'r sql_table \<Rightarrow> 'r sql_table" where
  "upsert key merge r t =
     (if list_ex (\<lambda>(i, x). key x = key r) (tb_rows t)
      then update_where (\<lambda>_ x. key x = key r) (\<lambda>x. merge x r) t
      else insert_row r t)"

definition table_size :: "'r sql_table \<Rightarrow> nat" where
  "table_size t = length (tb_rows t)"

section \<open>Ids\<close>

definition ids_ok :: "'r sql_table \<Rightarrow> bool" where
  "ids_ok t \<longleftrightarrow> distinct (map fst (tb_rows t)) \<and> (\<forall>i\<in>row_ids t. i \<le> tb_seq t)"

lemma ids_ok_empty: "ids_ok empty_table"
  by (simp add: ids_ok_def empty_table_def row_ids_def)

lemma row_ids_insert [simp]: "row_ids (insert_row r t) = insert (tb_seq t + 1) (row_ids t)"
  by (auto simp: row_ids_def insert_row_def)

lemma row_ids_update [simp]: "row_ids (update_where P f t) = row_ids t"
  by (force simp: row_ids_def update_where_def)

lemma update_where_fst: "map fst (tb_rows (update_where P f t)) = map fst (tb_rows t)"
  by (auto simp: update_where_def)

lemma ids_ok_insert: "ids_ok t \<Longrightarrow> ids_ok (insert_row r t)"
  by (force simp: ids_ok_def insert_row_def row_ids_def)

lemma ids_ok_update: "ids_ok t \<Longrightarrow> ids_ok (update_where P f t)"
  unfolding ids_ok_def update_where_fst row_ids_update by (simp add: update_where_def)

lemma row_at_iff: "ids_ok t \<Longrightarrow> row_at i t = Some r \<longleftrightarrow> (i, r) \<in> set (tb_rows t)"
proof -
  have "distinct (map fst xs) \<Longrightarrow>
      map_option snd (find (\<lambda>(j, r). j = i) xs) = Some r \<longleftrightarrow> (i, r) \<in> set xs" for xs :: "(int \<times> 'a) list"
    by (induction xs) (auto simp: image_iff split: if_splits)
  then show "ids_ok t \<Longrightarrow> ?thesis" by (simp add: row_at_def ids_ok_def)
qed

lemma row_at_update:
  "row_at i (update_where P f t) = map_option (\<lambda>r. if P i r then f r else r) (row_at i t)"
proof -
  have "map_option snd (find (\<lambda>(j, r). j = i) (map (\<lambda>(i, r). (i, if P i r then f r else r)) xs))
      = map_option (\<lambda>r. if P i r then f r else r) (map_option snd (find (\<lambda>(j, r). j = i) xs))"
    for xs :: "(int \<times> 'a) list"
    by (induction xs) auto
  then show ?thesis by (simp add: row_at_def update_where_def)
qed

lemma row_at_insert:
  assumes "ids_ok t"
  shows "row_at i (insert_row r t) = (if i = tb_seq t + 1 then Some r else row_at i t)"
proof -
  have snoc: "find P (xs @ [x]) = (case find P xs of None \<Rightarrow> if P x then Some x else None | Some y \<Rightarrow> Some y)"
    for P :: "int \<times> 'a \<Rightarrow> bool" and xs x
    by (induction xs) auto
  have "find (\<lambda>(j, r). j = tb_seq t + 1) (tb_rows t) = None"
    using assms by (force simp: find_None_iff ids_ok_def row_ids_def)
  then show ?thesis
    by (auto simp: row_at_def insert_row_def snoc split: option.splits)
qed

lemma row_at_None: "row_at i t = None \<longleftrightarrow> i \<notin> row_ids t"
  by (force simp: row_at_def row_ids_def find_None_iff)

section \<open>Upserts on a unique key\<close>

text \<open>
  What a caller of \<open>INSERT ... ON CONFLICT(key) DO UPDATE ...; SELECT id ... WHERE key\<close> relies on.
  The only law is that the update leaves the key columns alone.
\<close>

locale unique_table =
  fixes key :: "'r \<Rightarrow> 'k"
    and merge :: "'r \<Rightarrow> 'r \<Rightarrow> 'r"
  assumes key_merge: "key (merge old new) = key old"
begin

definition unique_ok :: "'r sql_table \<Rightarrow> bool" where
  "unique_ok t \<longleftrightarrow> ids_ok t \<and> distinct (map (\<lambda>(i, r). key r) (tb_rows t))"

lemma unique_empty: "unique_ok empty_table"
  by (simp add: unique_ok_def ids_ok_empty) (simp add: empty_table_def)

lemma unique_update:
  assumes "unique_ok t" and "\<And>r. key (f r) = key r"
  shows "unique_ok (update_where P f t)"
proof -
  have "map (\<lambda>(i, r). key r) (tb_rows (update_where P f t)) = map (\<lambda>(i, r). key r) (tb_rows t)"
    using assms(2) by (auto simp: update_where_def)
  with assms(1) ids_ok_update [of t P f] show ?thesis by (simp add: unique_ok_def)
qed

lemma unique_insert:
  assumes "unique_ok t" and "\<forall>(i, x)\<in>set (tb_rows t). key x \<noteq> key r"
  shows "unique_ok (insert_row r t)"
  using assms ids_ok_insert [of t r] by (force simp: unique_ok_def insert_row_def)

lemma unique_upsert: "unique_ok t \<Longrightarrow> unique_ok (upsert key merge r t)"
  unfolding upsert_def
  using unique_insert [of t r] unique_update [of t "\<lambda>x. merge x r"] key_merge
  by (auto simp: list_ex_iff case_prod_beta')

lemma upsert_ids:
  "row_ids t \<subseteq> row_ids (upsert key merge r t)"
  by (auto simp: upsert_def)

text \<open>The id selected after an upsert, and the row under it.\<close>

lemma upsert_cases:
  assumes "unique_ok t"
  obtains (existing) i old where "row_at i t = Some old" "key old = key r"
      "select_id (\<lambda>x. key x = key r) t = Some i"
      "upsert key merge r t = update_where (\<lambda>_ x. key x = key r) (\<lambda>x. merge x r) t"
    | (new) "\<forall>i old. row_at i t = Some old \<longrightarrow> key old \<noteq> key r"
      "select_id (\<lambda>x. key x = key r) t = None"
      "upsert key merge r t = insert_row r t"
proof (cases "find (\<lambda>(i, x). key x = key r) (tb_rows t)")
  case None
  then have none: "\<forall>(i, x)\<in>set (tb_rows t). key x \<noteq> key r"
    by (auto simp: find_None_iff)
  show thesis
  proof (rule new)
    show "\<forall>i old. row_at i t = Some old \<longrightarrow> key old \<noteq> key r"
      using assms none by (auto simp: unique_ok_def row_at_iff)
    show "select_id (\<lambda>x. key x = key r) t = None"
      using None by (simp add: select_id_def)
    show "upsert key merge r t = insert_row r t"
      using none by (auto simp: upsert_def list_ex_iff)
  qed
next
  case (Some p)
  obtain i old where p: "p = (i, old)" by (cases p)
  from Some have in_rows: "(i, old) \<in> set (tb_rows t)" "key old = key r"
    by (auto simp: p dest: find_SomeD)
  show thesis
  proof (rule existing)
    show "row_at i t = Some old" using assms in_rows by (simp add: unique_ok_def row_at_iff)
    show "key old = key r" by (fact in_rows)
    show "select_id (\<lambda>x. key x = key r) t = Some i" using Some by (simp add: select_id_def p)
    show "upsert key merge r t = update_where (\<lambda>_ x. key x = key r) (\<lambda>x. merge x r) t"
      using in_rows by (force simp: upsert_def list_ex_iff)
  qed
qed

lemma select_unique:
  assumes "unique_ok t" and "row_at i t = Some r"
  shows "select_id (\<lambda>x. key x = key r) t = Some i"
proof -
  have "find (\<lambda>(j, x). key x = key r) xs = Some (i, r)"
    if "distinct (map (\<lambda>(i, r). key r) xs)" "(i, r) \<in> set xs" for xs :: "(int \<times> 'r) list"
    using that by (induction xs) (auto simp: image_iff)
  then show ?thesis
    using assms by (auto simp: select_id_def unique_ok_def row_at_iff)
qed

lemma key_unique:
  "unique_ok t \<Longrightarrow> row_at i t = Some r \<Longrightarrow> row_at j t = Some s \<Longrightarrow> key s = key r \<Longrightarrow> j = i"
  using select_unique [of t i r] select_unique [of t j s] by simp

text \<open>After the upsert the key selects exactly one row: the merged old one, or the new one.\<close>

lemma upsert_select:
  assumes "unique_ok t"
  shows "\<exists>i. select_id (\<lambda>x. key x = key r) (upsert key merge r t) = Some i
    \<and> row_at i (upsert key merge r t)
        = Some (case select_id (\<lambda>x. key x = key r) t of
                  None \<Rightarrow> r | Some j \<Rightarrow> merge (the (row_at j t)) r)
    \<and> (case select_id (\<lambda>x. key x = key r) t of None \<Rightarrow> i \<notin> row_ids t | Some j \<Rightarrow> i = j)"
  using assms
proof (cases rule: upsert_cases [where r = r])
  case (existing i old)
  have at: "row_at i (upsert key merge r t) = Some (merge old r)"
    using existing by (simp add: row_at_update)
  have "key (merge old r) = key r" using existing(2) by (simp add: key_merge)
  with select_unique [OF unique_upsert [OF assms, of r] at] existing at show ?thesis by simp
next
  case new
  have at: "row_at (tb_seq t + 1) (upsert key merge r t) = Some r"
    using new assms by (simp add: row_at_insert unique_ok_def)
  have fresh: "tb_seq t + 1 \<notin> row_ids t"
    using assms by (force simp: unique_ok_def ids_ok_def)
  from select_unique [OF unique_upsert [OF assms] at] new at fresh show ?thesis by simp
qed

lemma upsert_other_rows:
  assumes "unique_ok t" and "row_at i t = Some x" and "key x \<noteq> key r"
  shows "row_at i (upsert key merge r t) = Some x"
  using assms(1)
proof (cases rule: upsert_cases [where r = r])
  case existing
  with assms show ?thesis by (simp add: row_at_update)
next
  case new
  have "i \<in> row_ids t" using assms(2) row_at_None [of i t] by force
  then have "i \<noteq> tb_seq t + 1" using assms(1) by (force simp: unique_ok_def ids_ok_def)
  with new assms show ?thesis by (simp add: row_at_insert unique_ok_def)
qed

lemma upsert_size:
  assumes "unique_ok t"
  shows "table_size (upsert key merge r t)
    = table_size t + (if select_id (\<lambda>x. key x = key r) t = None then 1 else 0)"
  using assms
  by (cases rule: upsert_cases [where r = r])
    (simp_all add: table_size_def update_where_def insert_row_def)

end

end
