(* ===== verification/Storage_Schema.thy ===== *)
theory Storage_Schema
  imports Sql_Table Config_Ops Runtime_Store
begin

text \<open>
  The database of the delivery store, first half of \<^verbatim>\<open>src/src/storage.rs\<close>: the rows of the
  eight tables with the columns of the schema, the connection, and \<open>ensure_schema\<close> with its
  migration. \<open>WakeEnvelope\<close> is the message the store and the wake router pass around
  (\<^verbatim>\<open>src/src/supervisor.rs\<close>).
\<close>

section \<open>Rows\<close>

text \<open>The primary keys are those of the tables; boolean columns hold 0 or 1.\<close>

record ingress_source =
  is_server :: string
  is_server_key :: string
  is_created_at :: string

record attention_decision =
  ad_ingress_source_id :: int
  ad_message_id :: string
  ad_message_timestamp :: string
  ad_disposition :: string
  ad_delivery_eligible :: bool
  ad_attention_space_id :: "string option"
  ad_attention_fallback :: bool
  ad_veto_not_evaluated :: bool
  ad_evidence_json :: string
  ad_decided_at :: string

record daemon_event =
  de_ingress_source_id :: int
  de_message_id :: string
  de_message_timestamp :: string
  de_inbound_event :: string
  de_author_id :: string
  de_author_name :: string
  de_text :: string
  de_sender_embeddings_json :: string
  de_attention_space_id :: "string option"
  de_attention_fallback :: bool
  de_attention_disposition :: string
  de_attention_delivery_mode :: string
  de_payload_json :: string
  de_raw_body :: string
  de_accepted_at :: string

record event_idempotency =
  ix_ingress_source_id :: int
  ix_scope :: string
  ix_idempotency_key :: string
  ix_daemon_event_id :: int
  ix_created_at :: string

record receptor_match_row =
  mr_daemon_event_id :: int
  mr_receptor_id :: string
  mr_receptor_class :: string
  mr_score :: flt
  mr_threshold :: flt
  mr_above_threshold :: bool
  mr_routing_json :: string
  mr_matched_at :: string

record sink_target =
  tg_sink_key :: string
  tg_sink_kind :: string
  tg_destination :: string
  tg_config_json :: string
  tg_disabled_at :: "string option"
  tg_disabled_reason :: "string option"
  tg_created_at :: string
  tg_updated_at :: string

record sink_delivery =
  sd_daemon_event_id :: int
  sd_sink_target_id :: int
  sd_sink_key_snapshot :: string
  sd_sink_kind_snapshot :: string
  sd_destination_snapshot :: string
  sd_config_json_snapshot :: string
  sd_status :: string
  sd_queued_at :: string
  sd_attempted_at :: "string option"
  sd_delivered_at :: "string option"
  sd_failed_at :: "string option"
  sd_skipped_at :: "string option"
  sd_error :: "string option"

section \<open>Database and connection\<close>

text \<open>
  Every access to the database can fail: when the file is opened (its directory, \<open>Connection::open\<close>
  and the \<open>PRAGMA\<close>), and at every single statement, when the disk is full, the file is locked by
  another process or damaged. \<open>db_steps\<close> counts the accesses; \<open>db_faults n\<close> is the error of access
  number \<open>n\<close>, if it fails, and \<open>db_clocks\<close> what \<open>CURRENT_TIMESTAMP\<close> reads after so many accesses. No row
  of \<open>event_artifact\<close> is ever written by the daemon, its ids are kept for the count. \<open>db_tables\<close> lists
  the tables of \<open>sqlite_master\<close> and \<open>db_event_columns\<close> the columns of \<open>daemon_event\<close>.
\<close>

record database =
  db_steps :: nat
  db_faults :: "nat \<Rightarrow> string option"
  db_clocks :: "nat \<Rightarrow> string"
  db_tables :: "string list"
  db_event_columns :: "string list"
  db_ingress_source :: "ingress_source sql_table"
  db_attention_decision :: "attention_decision sql_table"
  db_daemon_event :: "daemon_event sql_table"
  db_event_idempotency :: "event_idempotency sql_table"
  db_receptor_match :: "receptor_match_row sql_table"
  db_sink_target :: "sink_target sql_table"
  db_sink_delivery :: "sink_delivery sql_table"
  db_event_artifact :: "int list"

definition db_clock :: "database \<Rightarrow> string" where
  "db_clock db = db_clocks db (db_steps db)"

definition access :: "(database, unit) op" where
  "access db =
     (case db_faults db (db_steps db) of None \<Rightarrow> Inr () | Some e \<Rightarrow> Inl e,
      db\<lparr>db_steps := Suc (db_steps db)\<rparr>)"

text \<open>A statement that writes, and one that reads.\<close>

definition execute :: "(database \<Rightarrow> database) \<Rightarrow> (database, unit) op" where
  "execute f = andthen access (\<lambda>_. update f)"

definition select :: "(database \<Rightarrow> 'a) \<Rightarrow> (database, 'a) op" where
  "select f = andthen access (\<lambda>_. query f)"

record DeliveryStore =
  ds_database_path :: string
  ds_artifact_root :: string
  ds_auto_migrate :: bool

definition delivery_store_new :: "StorageConfig \<Rightarrow> DeliveryStore" where
  "delivery_store_new cfg =
     \<lparr>ds_database_path = sc_database_path cfg, ds_artifact_root = sc_artifact_root cfg,
      ds_auto_migrate = sc_auto_migrate cfg\<rparr>"

definition with_connection :: "(database, 'a) op \<Rightarrow> (database, 'a) op" where
  "with_connection f = andthen access (\<lambda>_. f)"

text \<open>Creating the artifact directory is an access of its own.\<close>

definition create_artifact_dir :: "(database, unit) op" where
  "create_artifact_dir = access"

text \<open>\<open>query_row\<close> on a statement that may return no row.\<close>

definition query_row :: "(database \<Rightarrow> 'a option) \<Rightarrow> (database, 'a) op" where
  "query_row f = andthen (select f) (\<lambda>row. lift (ok_or ''Query returned no rows'' row))"

section \<open>Schema\<close>

definition required_tables :: "string list" where
  "required_tables =
     [''ingress_source'', ''attention_decision'', ''daemon_event'', ''event_idempotency'',
      ''receptor_match'', ''sink_target'', ''sink_delivery'', ''event_artifact'']"

fun find_missing :: "string list \<Rightarrow> (database, string list) op" where
  "find_missing [] = ret []"
| "find_missing (table # tables) =
     andthen (select (\<lambda>db. table \<in> set (db_tables db))) (\<lambda>present.
     andthen (find_missing tables) (\<lambda>missing.
     ret (if present then missing else table # missing)))"

definition missing_required_tables :: "(database, string list) op" where
  "missing_required_tables = find_missing required_tables"

definition legacy_schema_present :: "(database, bool) op" where
  "legacy_schema_present = select (\<lambda>db. ''accepted_message'' \<in> set (db_tables db))"

definition daemon_event_schema_columns :: "string list" where
  "daemon_event_schema_columns =
     [''id'', ''ingress_source_id'', ''message_id'', ''message_timestamp'', ''inbound_event'',
      ''author_id'', ''author_name'', ''text'', ''sender_embeddings_json'', ''attention_space_id'',
      ''attention_fallback'', ''attention_disposition'', ''attention_delivery_mode'',
      ''payload_json'', ''raw_body'', ''accepted_at'']"

text \<open>
  The batch of \<open>CREATE TABLE IF NOT EXISTS\<close> statements, each of which commits on its own, and of
  \<open>CREATE INDEX IF NOT EXISTS\<close>, which leave the rows as they are.
\<close>

definition create_table :: "string \<Rightarrow> (database, unit) op" where
  "create_table table = execute (\<lambda>db.
     if table \<in> set (db_tables db) then db
     else db\<lparr>db_tables := db_tables db @ [table],
             db_event_columns := (if table = ''daemon_event'' then daemon_event_schema_columns
                                  else db_event_columns db)\<rparr>)"

definition schema_indexes :: "string list" where
  "schema_indexes =
     [''idx_attention_decision_disposition'', ''idx_daemon_event_ingress_message'',
      ''idx_receptor_match_event'', ''idx_sink_delivery_event'', ''idx_sink_delivery_status'']"

definition create_index :: "string \<Rightarrow> (database, unit) op" where
  "create_index index = access"

definition create_schema :: "(database, unit) op" where
  "create_schema = andthen (for_each create_table required_tables) (\<lambda>_. for_each create_index schema_indexes)"

text \<open>\<open>ALTER TABLE daemon_event ADD COLUMN\<close> gives every existing row the default.\<close>

definition add_event_column :: "string \<Rightarrow> database \<Rightarrow> database" where
  "add_event_column column db =
     db\<lparr>db_event_columns := db_event_columns db @ [column],
        db_daemon_event := update_where (\<lambda>_ _. True)
          (\<lambda>e. if column = ''attention_disposition'' then e\<lparr>de_attention_disposition := ''deliver''\<rparr>
               else e\<lparr>de_attention_delivery_mode := ''unknown_legacy''\<rparr>) (db_daemon_event db)\<rparr>"

definition daemon_event_columns :: "(database, string list) op" where
  "daemon_event_columns = select db_event_columns"

definition missing_event_columns :: "string list \<Rightarrow> string list" where
  "missing_event_columns columns =
     filter (\<lambda>c. c \<notin> set columns) [''attention_disposition'', ''attention_delivery_mode'']"

definition ensure_daemon_event_columns :: "bool \<Rightarrow> (database, unit) op" where
  "ensure_daemon_event_columns auto_migrate =
     andthen daemon_event_columns (\<lambda>columns.
     let missing = missing_event_columns columns
     in if missing = [] then ret ()
        else if \<not> auto_migrate
        then fail (''storage.auto_migrate is false and daemon_event is missing columns: ''
                   @ join '', '' missing)
        else for_each (\<lambda>column. execute (add_event_column column)) missing)"

definition ensure_schema :: "bool \<Rightarrow> (database, unit) op" where
  "ensure_schema auto_migrate =
     andthen legacy_schema_present (\<lambda>legacy.
     if legacy
     then fail ''legacy accepted_message schema present; manual migration required before continuing''
     else andthen missing_required_tables (\<lambda>missing.
     if missing \<noteq> [] \<and> \<not> auto_migrate
     then fail (''database schema incomplete; missing tables: '' @ join '', '' missing
                @ '' and storage.auto_migrate is false'')
     else andthen (if missing \<noteq> [] then create_schema else ret ()) (\<lambda>_.
     andthen (ensure_daemon_event_columns auto_migrate) (\<lambda>_.
     andthen missing_required_tables (\<lambda>after.
     if after \<noteq> []
     then fail (''database schema incomplete after migration; missing tables: '' @ join '', '' after)
     else ret ())))))"

definition ensure_ready :: "DeliveryStore \<Rightarrow> (database, unit) op" where
  "ensure_ready store =
     andthen create_artifact_dir (\<lambda>_. with_connection (ensure_schema (ds_auto_migrate store)))"

section \<open>Accesses\<close>

lemma snd_access [simp]: "snd (access db) = db\<lparr>db_steps := Suc (db_steps db)\<rparr>"
  by (simp add: access_def)

lemma access_Inr_iff: "access db = (Inr u, db')
    \<longleftrightarrow> db_faults db (db_steps db) = None \<and> db' = db\<lparr>db_steps := Suc (db_steps db)\<rparr>"
  by (auto simp: access_def split: option.splits)

lemma execute_Inr_iff: "execute f db = (Inr u, db')
    \<longleftrightarrow> db_faults db (db_steps db) = None \<and> db' = f (db\<lparr>db_steps := Suc (db_steps db)\<rparr>)"
  by (auto simp: execute_def andthen_Inr_iff access_Inr_iff update_def)

lemma select_Inr_iff: "select f db = (Inr x, db')
    \<longleftrightarrow> db_faults db (db_steps db) = None \<and> db' = db\<lparr>db_steps := Suc (db_steps db)\<rparr> \<and> x = f db'"
  by (auto simp: select_def andthen_Inr_iff access_Inr_iff query_def)

text \<open>A statement that fails, or only reads, counts and changes nothing.\<close>

definition reads :: "(database, 'a) op \<Rightarrow> bool" where
  "reads m \<longleftrightarrow> (\<forall>db. \<exists>n. snd (m db) = db\<lparr>db_steps := n\<rparr>)"

lemma reads_access [intro]: "reads access"
  by (auto simp: reads_def)

lemma reads_same [intro]: "(\<And>db. snd (m db) = db) \<Longrightarrow> reads m"
  unfolding reads_def by (metis (full_types) database.surjective database.update_convs(1))

lemma reads_andthen [intro]:
  assumes "reads m" and "\<And>x. reads (f x)"
  shows "reads (andthen m f)"
  unfolding reads_def
proof
  fix db
  obtain r db1 where m: "m db = (r, db1)" by fastforce
  with assms(1) obtain n where n: "db1 = db\<lparr>db_steps := n\<rparr>" unfolding reads_def by (metis snd_conv)
  show "\<exists>n. snd (andthen m f db) = db\<lparr>db_steps := n\<rparr>"
  proof (cases r)
    case (Inl e)
    with m n show ?thesis by (auto simp: andthen_def)
  next
    case (Inr x)
    from assms(2) [of x] obtain n' where "snd (f x db1) = db1\<lparr>db_steps := n'\<rparr>" unfolding reads_def by blast
    with m n Inr show ?thesis by (auto simp: andthen_def)
  qed
qed

lemma reads_pure [intro]: "reads (ret x)" "reads (fail e)" "reads (lift r)" "reads (query f)"
  by (auto simp: op_defs)

lemma reads_basic [intro]:
  "reads (select f)" "reads (query_row g)" "reads create_artifact_dir" "reads (create_index i)"
  unfolding select_def query_row_def create_artifact_dir_def create_index_def
  by (intro reads_andthen reads_access reads_pure)+

lemma reads_find_missing [intro]: "reads (find_missing tables)"
  by (induction tables) auto

lemma reads_schema [intro]: "reads missing_required_tables" "reads legacy_schema_present" "reads daemon_event_columns"
  by (auto simp: missing_required_tables_def legacy_schema_present_def daemon_event_columns_def)

lemma reads_Inr: "reads m \<Longrightarrow> m db = (r, db') \<Longrightarrow> \<exists>n. db' = db\<lparr>db_steps := n\<rparr>"
  unfolding reads_def by (metis snd_conv)

section \<open>The schema after migration\<close>

definition missing_tables :: "database \<Rightarrow> string list" where
  "missing_tables db = filter (\<lambda>t. t \<notin> set (db_tables db)) required_tables"

definition schema_ready :: "database \<Rightarrow> bool" where
  "schema_ready db \<longleftrightarrow>
     ''accepted_message'' \<notin> set (db_tables db) \<and> missing_tables db = []
     \<and> missing_event_columns (db_event_columns db) = []"

lemma find_missing_result:
  "find_missing tables db = (Inr missing, db') \<Longrightarrow> missing = filter (\<lambda>t. t \<notin> set (db_tables db)) tables"
proof (induction tables arbitrary: db db' missing)
  case Nil
  then show ?case by (simp add: ret_def)
next
  case (Cons t ts)
  then obtain db1 rest db2 where sel: "select (\<lambda>db. t \<in> set (db_tables db)) db = (Inr (t \<in> set (db_tables db1)), db1)"
    and found: "find_missing ts db1 = (Inr rest, db2)"
    and missing: "missing = (if t \<in> set (db_tables db1) then rest else t # rest)"
    by (auto simp: andthen_Inr_iff ret_def select_Inr_iff)
  from sel have "db_tables db1 = db_tables db" by (auto simp: select_Inr_iff)
  with Cons.IH [OF found] missing show ?case by simp
qed

lemma missing_required_result:
  assumes "missing_required_tables db = (Inr missing, db')"
  shows "missing = missing_tables db" "\<exists>n. db' = db\<lparr>db_steps := n\<rparr>"
  using find_missing_result [of required_tables db missing db'] reads_Inr [OF reads_schema(1) assms] assms
  by (auto simp: missing_required_tables_def missing_tables_def)

lemma missing_tables_steps [simp]: "missing_tables (db\<lparr>db_steps := n\<rparr>) = missing_tables db"
  by (simp add: missing_tables_def)

lemma not_legacy_required: "''accepted_message'' \<notin> set required_tables"
  by (simp add: required_tables_def)

lemma create_table_tables:
  assumes "create_table t db = (r, db')"
  shows "set (db_tables db) \<subseteq> set (db_tables db') \<and> set (db_tables db') \<subseteq> insert t (set (db_tables db))"
    and "r = Inr () \<Longrightarrow> t \<in> set (db_tables db')"
  using assms
  by (auto simp: create_table_def execute_def andthen_def access_def update_def split: option.splits if_splits)

lemma create_tables_tables:
  assumes "for_each create_table ts db = (r, db')"
  shows "set (db_tables db) \<subseteq> set (db_tables db') \<and> set (db_tables db') \<subseteq> set ts \<union> set (db_tables db)"
  using assms
proof (induction ts arbitrary: db)
  case Nil
  then show ?case by (simp add: ret_def)
next
  case (Cons t ts)
  obtain r1 db1 where one: "create_table t db = (r1, db1)" by fastforce
  show ?case
  proof (cases r1)
    case (Inl e)
    with one Cons.prems create_table_tables(1) [OF one] show ?thesis by (auto simp: andthen_def)
  next
    case (Inr u)
    with one Cons.prems have "for_each create_table ts db1 = (r, db')" by (simp add: andthen_def)
    from Cons.IH [OF this] create_table_tables(1) [OF one] show ?thesis by auto
  qed
qed

lemma columns_tables:
  assumes "ensure_daemon_event_columns auto_migrate db = (Inr u, db')"
  shows "db_tables db' = db_tables db \<and> missing_event_columns (db_event_columns db') = []"
proof -
  have each: "for_each (\<lambda>c. execute (add_event_column c)) cs db1 = (Inr u, db2) \<Longrightarrow>
      db_tables db2 = db_tables db1 \<and> db_event_columns db2 = db_event_columns db1 @ cs" for cs db1 db2
    by (induction cs arbitrary: db1) (auto simp: ret_def andthen_Inr_iff execute_Inr_iff add_event_column_def)
  let ?missing = "missing_event_columns (db_event_columns db)" and ?db1 = "db\<lparr>db_steps := Suc (db_steps db)\<rparr>"
  have "db_event_columns db' = db_event_columns db @ ?missing \<and> db_tables db' = db_tables db"
  proof (cases "?missing = []")
    case True
    with assms show ?thesis
      by (auto simp: ensure_daemon_event_columns_def daemon_event_columns_def andthen_Inr_iff select_Inr_iff ret_def)
  next
    case False
    with assms have "for_each (\<lambda>c. execute (add_event_column c)) ?missing ?db1 = (Inr u, db')"
      by (auto simp: ensure_daemon_event_columns_def daemon_event_columns_def andthen_Inr_iff select_Inr_iff Let_def
          fail_def split: if_splits)
    from each [OF this] show ?thesis by simp
  qed
  then show ?thesis by (auto simp: missing_event_columns_def filter_empty_conv)
qed

text \<open>A successful \<open>ensure_schema\<close> leaves a complete schema.\<close>

lemma ensure_schema_ready:
  assumes "ensure_schema auto_migrate db = (Inr u, db')"
  shows "schema_ready db'"
proof -
  from assms obtain db1 missing db2 db3 db4 where
    steps: "legacy_schema_present db = (Inr False, db1)" "missing_required_tables db1 = (Inr missing, db2)"
      "(if missing \<noteq> [] then create_schema else ret ()) db2 = (Inr (), db3)"
      "ensure_daemon_event_columns auto_migrate db3 = (Inr (), db4)"
      "missing_required_tables db4 = (Inr [], db')"
    by (auto simp: ensure_schema_def andthen_Inr_iff fail_def ret_def split: if_splits)
  have legacy: "''accepted_message'' \<notin> set (db_tables db2)"
    using steps(1) missing_required_result(2) [OF steps(2)]
    by (auto simp: legacy_schema_present_def select_Inr_iff)
  have "''accepted_message'' \<notin> set (db_tables db3)"
  proof (cases "missing = []")
    case True
    with steps(3) legacy show ?thesis by (simp add: ret_def)
  next
    case False
    with steps(3) obtain dbm where made: "for_each create_table required_tables db2 = (Inr (), dbm)"
      "for_each create_index schema_indexes dbm = (Inr (), db3)"
      by (auto simp: create_schema_def andthen_Inr_iff)
    have "reads (for_each create_index names)" for names by (induction names) auto
    from reads_Inr [OF this made(2)] have "db_tables db3 = db_tables dbm" by auto
    with create_tables_tables [OF made(1)] legacy not_legacy_required show ?thesis by auto
  qed
  with columns_tables [OF steps(4)] missing_required_result [OF steps(5)] show ?thesis
    by (auto simp: schema_ready_def)
qed

section \<open>Messages\<close>

text \<open>The \<open>Arc\<close> to the server's runtime store is its address.\<close>

record WakeEnvelope =
  we_server :: string
  we_server_key :: string
  we_message_id :: string
  we_timestamp :: string
  we_inbound_event :: string
  we_author_id :: string
  we_author_name :: string
  we_text :: string
  we_sender_embeddings :: "MessageEmbedding list"
  we_attention :: AttentionLayer
  we_runtime :: nat
  we_wake_session_key_override :: "string option"

end
