(* ===== verification/Storage.thy ===== *)
theory Storage
  imports Storage_Schema
begin

text \<open>
  The delivery store, second half of \<^verbatim>\<open>src/src/storage.rs\<close>: the statements and the operations
  of \<open>DeliveryStore\<close>. Every statement can fail, and commits on its own, so an operation that fails
  midway keeps what was written before. \<open>pj\<close> prints a JSON value as text.

  SQLite stores a floating-point NaN as NULL, so that binding a NaN to the \<open>REAL NOT NULL\<close> columns
  \<open>score\<close> and \<open>threshold\<close> violates the constraint.
\<close>

section \<open>JSON documents\<close>

definition json_opt :: "string option \<Rightarrow> json" where
  "json_opt x = (case x of None \<Rightarrow> JNull | Some s \<Rightarrow> JStr s)"

definition json_f32 :: "f32 \<Rightarrow> json" where
  "json_f32 x = (case x of FFin q \<Rightarrow> JNum (FFin q) | _ \<Rightarrow> JNull)"

record SinkRoutingEntry =
  re_sink_key :: string
  re_sink_kind :: SinkKind
  re_destination :: string

record RoutingSnapshot =
  ro_candidate_sinks :: "SinkRoutingEntry list"
  ro_selected_sinks :: "SinkRoutingEntry list"

record SinkSnapshot =
  sn_sink_key :: string
  sn_sink_kind :: SinkKind
  sn_destination :: string
  sn_config_json :: string

record EventRecord =
  ev_daemon_event_id :: int
  ev_inserted :: bool

record DeliveryTicket =
  dt_daemon_event_id :: int
  dt_delivery_id :: int
  dt_already_delivered :: bool

definition routing_entries_json :: "SinkRoutingEntry list \<Rightarrow> json list" where
  "routing_entries_json entries =
     map (\<lambda>e. JObj [(''sink_key'', JStr (re_sink_key e)),
                    (''sink_kind'', JStr (sink_kind_as_str (re_sink_kind e))),
                    (''destination'', JStr (re_destination e))]) entries"

definition receptor_routing_json :: "ReceptorMatch \<Rightarrow> RoutingSnapshot \<Rightarrow> json" where
  "receptor_routing_json matched routing =
     JObj [(''decision'', JStr (if rm_above_threshold matched then ''accepted'' else ''candidate'')),
           (''candidate_sinks'', JArr (routing_entries_json (ro_candidate_sinks routing))),
           (''selected_sinks'', JArr (routing_entries_json (ro_selected_sinks routing))),
           (''score'', json_f32 (rm_score matched)),
           (''threshold'', json_f32 (rm_threshold matched))]"

definition attention_evidence_json :: "AttentionResult \<Rightarrow> json" where
  "attention_evidence_json attention =
     JObj [(''matches'', JArr (map (\<lambda>m.
              JObj [(''receptor_id'', JStr (rm_receptor_id m)),
                    (''receptor_class'', JStr (receptor_class_as_str (rm_class m))),
                    (''score'', json_f32 (rm_score m)),
                    (''threshold'', json_f32 (rm_threshold m)),
                    (''above_threshold'', JBool (rm_above_threshold m))]) (ar_matches attention))),
           (''match_count'', JNum (FFin (of_nat (length (ar_matches attention))))),
           (''accepted_match_count'',
             JNum (FFin (of_nat (length (filter rm_above_threshold (ar_matches attention))))))]"

definition sender_embeddings_json :: "MessageEmbedding list \<Rightarrow> json" where
  "sender_embeddings_json es =
     JArr (map (\<lambda>e. JObj [(''space_id'', JStr (me_space_id e)),
                          (''vector'', JArr (map json_f32 (me_vector e)))]) es)"

definition event_payload_json :: "WakeEnvelope \<Rightarrow> json" where
  "event_payload_json env =
     JObj [(''server'', JStr (we_server env)), (''server_key'', JStr (we_server_key env)),
           (''message_id'', JStr (we_message_id env)),
           (''message_timestamp'', JStr (we_timestamp env)),
           (''inbound_event'', JStr (we_inbound_event env)),
           (''author_id'', JStr (we_author_id env)), (''author_name'', JStr (we_author_name env)),
           (''text'', JStr (we_text env))]"

fun attention_disposition_str :: "AttentionDisposition \<Rightarrow> string" where
  "attention_disposition_str Deliver = ''deliver''"
| "attention_disposition_str Filtered = ''filtered''"
| "attention_disposition_str NoActiveReceptor = ''no_active_receptor''"
| "attention_disposition_str Vetoed = ''vetoed''"
| "attention_disposition_str EvaluationUnavailable = ''evaluation_unavailable''"
| "attention_disposition_str VetoEnforcementUnavailable = ''veto_enforcement_unavailable''"

definition attention_delivery_mode :: "AttentionResult \<Rightarrow> string" where
  "attention_delivery_mode attention =
     (if ar_fallback attention then ''implicit_wildcard_fallback'' else ''receptor_gated'')"

definition compute_event_idempotency_key :: "WakeEnvelope \<Rightarrow> string" where
  "compute_event_idempotency_key env = we_server_key env @ '':'' @ we_message_id env"

section \<open>Statements\<close>

text \<open>The unique keys and the \<open>DO UPDATE SET\<close> clauses of the five upserts.\<close>

definition merge_ingress_source :: "ingress_source \<Rightarrow> ingress_source \<Rightarrow> ingress_source" where
  "merge_ingress_source old new = old\<lparr>is_server := is_server new\<rparr>"

definition upsert_ingress_source :: "string \<Rightarrow> string \<Rightarrow> (database, int) op" where
  "upsert_ingress_source server server_key =
     andthen (execute (\<lambda>db. db\<lparr>db_ingress_source :=
         upsert is_server_key merge_ingress_source
           \<lparr>is_server = server, is_server_key = server_key, is_created_at = db_clock db\<rparr>
           (db_ingress_source db)\<rparr>))
       (\<lambda>_. query_row (\<lambda>db. select_id (\<lambda>r. is_server_key r = server_key) (db_ingress_source db)))"

definition attention_decision_key :: "attention_decision \<Rightarrow> int \<times> string" where
  "attention_decision_key r = (ad_ingress_source_id r, ad_message_id r)"

definition merge_attention_decision ::
  "attention_decision \<Rightarrow> attention_decision \<Rightarrow> attention_decision" where
  "merge_attention_decision old new =
     old\<lparr>ad_message_timestamp := ad_message_timestamp new, ad_disposition := ad_disposition new,
         ad_delivery_eligible := ad_delivery_eligible new,
         ad_attention_space_id := ad_attention_space_id new,
         ad_attention_fallback := ad_attention_fallback new,
         ad_veto_not_evaluated := ad_veto_not_evaluated new,
         ad_evidence_json := ad_evidence_json new, ad_decided_at := ad_decided_at new\<rparr>"

definition receptor_match_key :: "receptor_match_row \<Rightarrow> int \<times> string \<times> string" where
  "receptor_match_key r = (mr_daemon_event_id r, mr_receptor_id r, mr_receptor_class r)"

definition merge_receptor_match ::
  "receptor_match_row \<Rightarrow> receptor_match_row \<Rightarrow> receptor_match_row" where
  "merge_receptor_match old new =
     old\<lparr>mr_score := mr_score new, mr_threshold := mr_threshold new,
         mr_above_threshold := mr_above_threshold new, mr_routing_json := mr_routing_json new\<rparr>"

definition upsert_receptor_match :: "(json \<Rightarrow> string) \<Rightarrow> int \<Rightarrow> RoutingSnapshot \<Rightarrow> ReceptorMatch
    \<Rightarrow> (database, unit) op" where
  "upsert_receptor_match pj event_id routing matched = andthen access (\<lambda>_ db.
     if rm_score matched = FNaN
      then (Inl ''NOT NULL constraint failed: receptor_match.score'', db)
      else if rm_threshold matched = FNaN
      then (Inl ''NOT NULL constraint failed: receptor_match.threshold'', db)
      else (Inr (), db\<lparr>db_receptor_match :=
             upsert receptor_match_key merge_receptor_match
               \<lparr>mr_daemon_event_id = event_id, mr_receptor_id = rm_receptor_id matched,
                mr_receptor_class = receptor_class_as_str (rm_class matched),
                mr_score = rm_score matched, mr_threshold = rm_threshold matched,
                mr_above_threshold = rm_above_threshold matched,
                mr_routing_json = pj (receptor_routing_json matched routing),
                mr_matched_at = db_clock db\<rparr> (db_receptor_match db)\<rparr>))"

definition upsert_receptor_matches :: "(json \<Rightarrow> string) \<Rightarrow> int \<Rightarrow> AttentionResult \<Rightarrow> RoutingSnapshot
    \<Rightarrow> (database, unit) op" where
  "upsert_receptor_matches pj event_id attention routing =
     for_each (upsert_receptor_match pj event_id routing) (ar_matches attention)"

definition idempotency_key :: "event_idempotency \<Rightarrow> int \<times> string \<times> string" where
  "idempotency_key r = (ix_ingress_source_id r, ix_scope r, ix_idempotency_key r)"

definition lookup_existing_event :: "int \<Rightarrow> string \<Rightarrow> database \<Rightarrow> int option" where
  "lookup_existing_event source_id key db =
     map_option (\<lambda>(i, r). ix_daemon_event_id r)
       (find (\<lambda>(i, r). idempotency_key r = (source_id, ''subspace_message'', key))
         (tb_rows (db_event_idempotency db)))"

definition new_daemon_event :: "(json \<Rightarrow> string) \<Rightarrow> int \<Rightarrow> WakeEnvelope \<Rightarrow> AttentionResult \<Rightarrow> string
    \<Rightarrow> daemon_event" where
  "new_daemon_event pj source_id env attention clock =
     \<lparr>de_ingress_source_id = source_id, de_message_id = we_message_id env,
      de_message_timestamp = we_timestamp env, de_inbound_event = we_inbound_event env,
      de_author_id = we_author_id env, de_author_name = we_author_name env, de_text = we_text env,
      de_sender_embeddings_json = pj (sender_embeddings_json (we_sender_embeddings env)),
      de_attention_space_id = ar_space_id attention, de_attention_fallback = ar_fallback attention,
      de_attention_disposition = attention_disposition_str (ar_disposition attention),
      de_attention_delivery_mode = attention_delivery_mode attention,
      de_payload_json = pj (event_payload_json env), de_raw_body = we_text env,
      de_accepted_at = clock\<rparr>"

definition insert_daemon_event :: "(json \<Rightarrow> string) \<Rightarrow> int \<Rightarrow> WakeEnvelope \<Rightarrow> AttentionResult
    \<Rightarrow> (database, int) op" where
  "insert_daemon_event pj source_id env attention = andthen access (\<lambda>_ db.
     let t = insert_row (new_daemon_event pj source_id env attention (db_clock db)) (db_daemon_event db)
      in (Inr (tb_seq t), db\<lparr>db_daemon_event := t\<rparr>))"

text \<open>The plain \<open>INSERT\<close> fails on a duplicate key.\<close>

definition insert_event_idempotency :: "int \<Rightarrow> string \<Rightarrow> int \<Rightarrow> (database, unit) op" where
  "insert_event_idempotency source_id key event_id = andthen access (\<lambda>_ db.
     let r = \<lparr>ix_ingress_source_id = source_id, ix_scope = ''subspace_message'',
               ix_idempotency_key = key, ix_daemon_event_id = event_id, ix_created_at = db_clock db\<rparr>
      in if list_ex (\<lambda>(i, x). idempotency_key x = idempotency_key r) (tb_rows (db_event_idempotency db))
         then (Inl ''UNIQUE constraint failed: event_idempotency'', db)
         else (Inr (), db\<lparr>db_event_idempotency := insert_row r (db_event_idempotency db)\<rparr>))"

definition upsert_canonical_event :: "(json \<Rightarrow> string) \<Rightarrow> WakeEnvelope \<Rightarrow> AttentionResult
    \<Rightarrow> RoutingSnapshot \<Rightarrow> (database, EventRecord) op" where
  "upsert_canonical_event pj env attention routing =
     andthen (upsert_ingress_source (we_server env) (we_server_key env)) (\<lambda>source_id.
     let key = compute_event_idempotency_key env
     in andthen (select (lookup_existing_event source_id key)) (\<lambda>existing.
        case existing of
          Some existing_id \<Rightarrow>
            andthen (upsert_receptor_matches pj existing_id attention routing)
              (\<lambda>_. ret \<lparr>ev_daemon_event_id = existing_id, ev_inserted = False\<rparr>)
        | None \<Rightarrow>
            andthen (insert_daemon_event pj source_id env attention) (\<lambda>event_id.
            andthen (insert_event_idempotency source_id key event_id) (\<lambda>_.
            andthen (upsert_receptor_matches pj event_id attention routing) (\<lambda>_.
            ret \<lparr>ev_daemon_event_id = event_id, ev_inserted = True\<rparr>)))))"

definition merge_sink_target :: "sink_target \<Rightarrow> sink_target \<Rightarrow> sink_target" where
  "merge_sink_target old new =
     old\<lparr>tg_sink_kind := tg_sink_kind new, tg_destination := tg_destination new,
         tg_config_json := tg_config_json new, tg_disabled_at := None, tg_disabled_reason := None,
         tg_updated_at := tg_updated_at new\<rparr>"

definition upsert_sink_target :: "SinkSnapshot \<Rightarrow> (database, int) op" where
  "upsert_sink_target snapshot =
     andthen (lift (bail_if (trim (sn_destination snapshot) = [])
                      ''sink destination must not be empty'')) (\<lambda>_.
     andthen (execute (\<lambda>db. db\<lparr>db_sink_target :=
         upsert tg_sink_key merge_sink_target
           \<lparr>tg_sink_key = sn_sink_key snapshot, tg_sink_kind = sink_kind_as_str (sn_sink_kind snapshot),
            tg_destination = sn_destination snapshot, tg_config_json = sn_config_json snapshot,
            tg_disabled_at = None, tg_disabled_reason = None, tg_created_at = db_clock db,
            tg_updated_at = db_clock db\<rparr> (db_sink_target db)\<rparr>)) (\<lambda>_.
     query_row (\<lambda>db. select_id (\<lambda>r. tg_sink_key r = sn_sink_key snapshot) (db_sink_target db))))"

definition sink_delivery_key :: "sink_delivery \<Rightarrow> int \<times> int" where
  "sink_delivery_key r = (sd_daemon_event_id r, sd_sink_target_id r)"

definition merge_sink_delivery :: "sink_delivery \<Rightarrow> sink_delivery \<Rightarrow> sink_delivery" where
  "merge_sink_delivery old new =
     (let delivered = (sd_status old = ''delivered'')
      in old\<lparr>sd_sink_key_snapshot := sd_sink_key_snapshot new,
             sd_sink_kind_snapshot := sd_sink_kind_snapshot new,
             sd_destination_snapshot := sd_destination_snapshot new,
             sd_config_json_snapshot := sd_config_json_snapshot new,
             sd_status := (if delivered then sd_status old else ''queued''),
             sd_error := (if delivered then sd_error old else None),
             sd_queued_at := (if delivered then sd_queued_at old else sd_queued_at new)\<rparr>)"

definition upsert_sink_delivery :: "int \<Rightarrow> int \<Rightarrow> SinkSnapshot \<Rightarrow> (database, int) op" where
  "upsert_sink_delivery event_id target_id snapshot =
     andthen (execute (\<lambda>db. db\<lparr>db_sink_delivery :=
         upsert sink_delivery_key merge_sink_delivery
           \<lparr>sd_daemon_event_id = event_id, sd_sink_target_id = target_id,
            sd_sink_key_snapshot = sn_sink_key snapshot,
            sd_sink_kind_snapshot = sink_kind_as_str (sn_sink_kind snapshot),
            sd_destination_snapshot = sn_destination snapshot,
            sd_config_json_snapshot = sn_config_json snapshot, sd_status = ''queued'',
            sd_queued_at = db_clock db, sd_attempted_at = None, sd_delivered_at = None,
            sd_failed_at = None, sd_skipped_at = None, sd_error = None\<rparr> (db_sink_delivery db)\<rparr>))
       (\<lambda>_. query_row (\<lambda>db. select_id (\<lambda>r. sink_delivery_key r = (event_id, target_id))
                                (db_sink_delivery db)))"

definition update_delivery :: "int \<Rightarrow> (string \<Rightarrow> sink_delivery \<Rightarrow> sink_delivery) \<Rightarrow> (database, unit) op" where
  "update_delivery delivery_id f =
     execute (\<lambda>db. db\<lparr>db_sink_delivery :=
       update_where (\<lambda>i _. i = delivery_id) (f (db_clock db)) (db_sink_delivery db)\<rparr>)"

definition coalesce :: "'a option \<Rightarrow> 'a \<Rightarrow> 'a option" where
  "coalesce x d = (case x of None \<Rightarrow> Some d | Some y \<Rightarrow> Some y)"

definition set_delivered :: "string \<Rightarrow> sink_delivery \<Rightarrow> sink_delivery" where
  "set_delivered now r =
     r\<lparr>sd_status := ''delivered'', sd_attempted_at := coalesce (sd_attempted_at r) now,
       sd_delivered_at := Some now, sd_failed_at := None, sd_skipped_at := None, sd_error := None\<rparr>"

definition set_attempted :: "string \<Rightarrow> sink_delivery \<Rightarrow> sink_delivery" where
  "set_attempted now r =
     r\<lparr>sd_status := ''attempted'', sd_attempted_at := Some now, sd_error := None\<rparr>"

definition set_failed :: "string \<Rightarrow> string \<Rightarrow> sink_delivery \<Rightarrow> sink_delivery" where
  "set_failed err now r =
     r\<lparr>sd_status := ''failed'', sd_attempted_at := coalesce (sd_attempted_at r) now,
       sd_failed_at := Some now, sd_error := Some err\<rparr>"

definition update_target :: "(int \<Rightarrow> sink_target \<Rightarrow> bool) \<Rightarrow> (string \<Rightarrow> sink_target \<Rightarrow> sink_target)
    \<Rightarrow> (database, unit) op" where
  "update_target P f =
     execute (\<lambda>db. db\<lparr>db_sink_target := update_where P (f (db_clock db)) (db_sink_target db)\<rparr>)"

definition clear_sink_target_disabled :: "int \<Rightarrow> (database, unit) op" where
  "clear_sink_target_disabled target_id =
     update_target (\<lambda>i _. i = target_id)
       (\<lambda>now r. r\<lparr>tg_disabled_at := None, tg_disabled_reason := None, tg_updated_at := now\<rparr>)"

definition soft_disable_sink_target :: "int \<Rightarrow> string \<Rightarrow> (database, unit) op" where
  "soft_disable_sink_target target_id reason =
     update_target (\<lambda>i _. i = target_id)
       (\<lambda>now r. r\<lparr>tg_disabled_at := coalesce (tg_disabled_at r) now,
                  tg_disabled_reason := Some reason, tg_updated_at := now\<rparr>)"

text \<open>With no key configured the \<open>NOT IN\<close> clause is left out, and every key is missing.\<close>

definition soft_disable_missing_sink_targets :: "SinkConfig list \<Rightarrow> (database, unit) op" where
  "soft_disable_missing_sink_targets sinks =
     update_target (\<lambda>_ r. tg_sink_key r \<notin> set (map sk_key sinks) \<and> tg_disabled_at r = None)
       (\<lambda>now r. r\<lparr>tg_disabled_at := coalesce (tg_disabled_at r) now,
                  tg_disabled_reason := coalesce (tg_disabled_reason r) ''sink removed from config'',
                  tg_updated_at := now\<rparr>)"

section \<open>Operations of the store\<close>

definition ensure_receptor_accepted_for_sink_delivery :: "AttentionResult \<Rightarrow> unit result" where
  "ensure_receptor_accepted_for_sink_delivery attention =
     rbind (bail_if (\<not> ar_deliver attention \<or> ar_disposition attention \<noteq> Deliver)
             (''sink delivery requires deliver disposition; got ''
              @ (case ar_disposition attention of
                   Deliver \<Rightarrow> ''Deliver'' | Filtered \<Rightarrow> ''Filtered''
                 | NoActiveReceptor \<Rightarrow> ''NoActiveReceptor'' | Vetoed \<Rightarrow> ''Vetoed''
                 | EvaluationUnavailable \<Rightarrow> ''EvaluationUnavailable''
                 | VetoEnforcementUnavailable \<Rightarrow> ''VetoEnforcementUnavailable''))) (\<lambda>_.
     rbind (bail_if (ar_veto_not_evaluated attention)
             ''sink delivery requires completed veto evaluation'') (\<lambda>_.
     rbind (bail_if (ar_fallback attention)
             ''sink delivery requires explicit receptor evaluation'') (\<lambda>_.
     bail_if (\<not> list_ex (\<lambda>m. rm_above_threshold m \<and> receptor_class_as_str (rm_class m) \<noteq> ''veto'')
                (ar_matches attention))
       ''sink delivery requires at least one accepted receptor match'')))"

definition record_attention_decision :: "(json \<Rightarrow> string) \<Rightarrow> DeliveryStore \<Rightarrow> WakeEnvelope
    \<Rightarrow> AttentionResult \<Rightarrow> (database, unit) op" where
  "record_attention_decision pj store env attention =
     with_connection (andthen (ensure_schema (ds_auto_migrate store)) (\<lambda>_.
     andthen (upsert_ingress_source (we_server env) (we_server_key env)) (\<lambda>source_id.
     execute (\<lambda>db. db\<lparr>db_attention_decision :=
       upsert attention_decision_key merge_attention_decision
         \<lparr>ad_ingress_source_id = source_id, ad_message_id = we_message_id env,
          ad_message_timestamp = we_timestamp env,
          ad_disposition = attention_disposition_str (ar_disposition attention),
          ad_delivery_eligible = ar_deliver attention,
          ad_attention_space_id = ar_space_id attention,
          ad_attention_fallback = ar_fallback attention,
          ad_veto_not_evaluated = ar_veto_not_evaluated attention,
          ad_evidence_json = pj (attention_evidence_json attention),
          ad_decided_at = db_clock db\<rparr> (db_attention_decision db)\<rparr>))))"

definition db_sink_snapshot :: "(json \<Rightarrow> string) \<Rightarrow> DeliveryStore \<Rightarrow> SinkConfig \<Rightarrow> SinkSnapshot" where
  "db_sink_snapshot pj store sink =
     \<lparr>sn_sink_key = sk_key sink, sn_sink_kind = Db,
      sn_destination = unwrap_or (ds_database_path store) (sk_destination sink),
      sn_config_json = pj (JObj [(''sink_key'', JStr (sk_key sink)),
        (''database_path'', JStr (ds_database_path store)),
        (''artifact_root'', JStr (ds_artifact_root store)),
        (''configured_destination'', json_opt (sk_destination sink))])\<rparr>"

definition record_db_sink_delivery :: "(json \<Rightarrow> string) \<Rightarrow> DeliveryStore \<Rightarrow> WakeEnvelope
    \<Rightarrow> AttentionResult \<Rightarrow> SinkConfig \<Rightarrow> RoutingSnapshot \<Rightarrow> (database, EventRecord) op" where
  "record_db_sink_delivery pj store env attention sink routing =
     andthen (lift (ensure_receptor_accepted_for_sink_delivery attention)) (\<lambda>_.
     andthen create_artifact_dir (\<lambda>_.
     with_connection (andthen (ensure_schema (ds_auto_migrate store)) (\<lambda>_.
     andthen (upsert_canonical_event pj env attention routing) (\<lambda>event.
     let snapshot = db_sink_snapshot pj store sink
     in andthen (upsert_sink_target snapshot) (\<lambda>target_id.
        andthen (upsert_sink_delivery (ev_daemon_event_id event) target_id snapshot) (\<lambda>delivery_id.
        andthen (update_delivery delivery_id set_delivered) (\<lambda>_. ret event))))))))"

definition queue_wake_sink_delivery :: "(json \<Rightarrow> string) \<Rightarrow> DeliveryStore \<Rightarrow> WakeEnvelope
    \<Rightarrow> AttentionResult \<Rightarrow> SinkSnapshot \<Rightarrow> RoutingSnapshot \<Rightarrow> (database, DeliveryTicket) op" where
  "queue_wake_sink_delivery pj store env attention snapshot routing =
     andthen (lift (ensure_receptor_accepted_for_sink_delivery attention)) (\<lambda>_.
     with_connection (andthen (ensure_schema (ds_auto_migrate store)) (\<lambda>_.
     andthen (upsert_canonical_event pj env attention routing) (\<lambda>event.
     andthen (upsert_sink_target snapshot) (\<lambda>target_id.
     andthen (upsert_sink_delivery (ev_daemon_event_id event) target_id snapshot) (\<lambda>delivery_id.
     andthen (query_row (\<lambda>db. map_option (\<lambda>r. sd_status r = ''delivered'')
                                 (row_at delivery_id (db_sink_delivery db)))) (\<lambda>already.
     ret \<lparr>dt_daemon_event_id = ev_daemon_event_id event, dt_delivery_id = delivery_id,
          dt_already_delivered = already\<rparr>)))))))"

definition mark_delivery_attempted :: "DeliveryStore \<Rightarrow> int \<Rightarrow> (database, unit) op" where
  "mark_delivery_attempted store delivery_id =
     with_connection (andthen (ensure_schema (ds_auto_migrate store))
       (\<lambda>_. update_delivery delivery_id set_attempted))"

definition mark_delivery_failed :: "DeliveryStore \<Rightarrow> int \<Rightarrow> string \<Rightarrow> (database, unit) op" where
  "mark_delivery_failed store delivery_id err =
     with_connection (andthen (ensure_schema (ds_auto_migrate store))
       (\<lambda>_. update_delivery delivery_id (set_failed err)))"

definition mark_delivery_delivered :: "DeliveryStore \<Rightarrow> int \<Rightarrow> (database, unit) op" where
  "mark_delivery_delivered store delivery_id =
     with_connection (andthen (ensure_schema (ds_auto_migrate store))
       (\<lambda>_. update_delivery delivery_id set_delivered))"

fun table_counts :: "(database \<Rightarrow> nat) list \<Rightarrow> (database, nat list) op" where
  "table_counts [] = ret []"
| "table_counts (table_count # others) =
     andthen (select table_count) (\<lambda>n. andthen (table_counts others) (\<lambda>ns. ret (n # ns)))"

definition counts :: "DeliveryStore \<Rightarrow> (database, nat list) op" where
  "counts store =
     with_connection (andthen (ensure_schema (ds_auto_migrate store)) (\<lambda>_. table_counts
       [\<lambda>db. table_size (db_ingress_source db), \<lambda>db. table_size (db_daemon_event db),
        \<lambda>db. table_size (db_event_idempotency db), \<lambda>db. table_size (db_receptor_match db),
        \<lambda>db. table_size (db_sink_target db), \<lambda>db. table_size (db_sink_delivery db),
        \<lambda>db. length (db_event_artifact db)]))"

definition sink_destination :: "DeliveryStore \<Rightarrow> SinkConfig \<Rightarrow> string \<Rightarrow> string" where
  "sink_destination store sink wake_session_key =
     unwrap_or (case sk_kind sink of Db \<Rightarrow> ds_database_path store | AgentSessionWake \<Rightarrow> wake_session_key)
       (sk_destination sink)"

definition sink_config_json :: "DeliveryStore \<Rightarrow> SinkConfig \<Rightarrow> string \<Rightarrow> json" where
  "sink_config_json store sink destination =
     (case sk_kind sink of
        Db \<Rightarrow> JObj [(''sink_key'', JStr (sk_key sink)),
          (''database_path'', JStr (ds_database_path store)),
          (''artifact_root'', JStr (ds_artifact_root store)),
          (''configured_destination'', json_opt (sk_destination sink)),
          (''effective_destination'', JStr destination)]
      | AgentSessionWake \<Rightarrow> JObj [(''sink_key'', JStr (sk_key sink)),
          (''session_key'', JStr destination),
          (''configured_destination'', json_opt (sk_destination sink))])"

definition reconcile_one :: "(json \<Rightarrow> string) \<Rightarrow> DeliveryStore \<Rightarrow> string \<Rightarrow> SinkConfig
    \<Rightarrow> (database, unit) op" where
  "reconcile_one pj store wake_session_key sink =
     (let destination = sink_destination store sink wake_session_key;
          snapshot = \<lparr>sn_sink_key = sk_key sink, sn_sink_kind = sk_kind sink,
                      sn_destination = destination,
                      sn_config_json = pj (sink_config_json store sink destination)\<rparr>
      in andthen (upsert_sink_target snapshot) (\<lambda>target_id.
         if sk_enabled sink then clear_sink_target_disabled target_id
         else soft_disable_sink_target target_id ''sink disabled in config''))"

definition reconcile_sink_targets :: "(json \<Rightarrow> string) \<Rightarrow> DeliveryStore \<Rightarrow> SinkConfig list \<Rightarrow> string
    \<Rightarrow> (database, unit) op" where
  "reconcile_sink_targets pj store sinks wake_session_key =
     with_connection (andthen (ensure_schema (ds_auto_migrate store)) (\<lambda>_.
     andthen (for_each (reconcile_one pj store wake_session_key) sinks) (\<lambda>_.
     soft_disable_missing_sink_targets sinks)))"

end
