(* ===== verification/Subspace_Client.thy ===== *)
theory Subspace_Client
  imports Subspace_Auth Web_Socket Hard_Failure Daemon_Status Outbound_Embeddings Storage
begin

text \<open>
  The manager of one Subspace server, \<^verbatim>\<open>src/src/subspace/client.rs\<close>: it authenticates, joins the
  firehose channel, turns inbound messages into entries of the wake queue and posts outbound
  messages.

  Like the gateway task it is a state machine over the outcomes of its \<open>await\<close>s. The wake queue and
  the runtime store are shared with the wake router, whose part is in the events \<open>RouterTake\<close> (it
  receives the head of the queue) and \<open>RouterDone\<close> (it marks a message as processed), and with other
  servers, which put their own entries into the queue (\<open>OtherWake\<close>).
\<close>

section \<open>Data\<close>

record OutboundSendResult =
  os_server :: string
  os_subspace_message_id :: "string option"
  os_idempotency_key :: string

record send_command =
  sm_text :: string
  sm_idempotency_key :: "string option"
  sm_embedding_request :: OutboundEmbeddingRequest
  sm_reply :: nat

record PendingSend =
  ps_reply :: nat
  ps_idempotency_key :: string

datatype ActiveSession =
    ActiveCurrent SubspaceSessionRecord NamedIdentityRecord
  | ActiveLegacy LegacySubspaceSessionRecord

datatype push = PushFrame json | PushClose

datatype WsFrame = FrameText string | FrameIgnore | FrameClosed "u16 option" string

datatype server_phase =
    CoolingDown
  | Authenticating
  | Resting \<comment> \<open>the sleep of the backoff\<close>
  | Opening
  | AwaitJoin string \<comment> \<open>the reference of the join\<close>
  | Joined
  | Refreshing
  | Finished "unit result"
  | Panicked

datatype server_action =
    SaAccept send_command
  | SaOpen
  | SaPush push
  | SaReceive json
  | SaReply nat "OutboundSendResult result"
  | SaEnqueue string WakeEnvelope \<comment> \<open>with the agent the session is for\<close>
  | SaHooks "hook_run list"
  | SaSleep u64
  | SaCooldown int \<comment> \<open>milliseconds\<close>

datatype server_event =
    SvSignal
  | SvSubmit send_command
  | SvHandlesDropped
  | SvTakeShutdown
  | SvSleepDone
  | SvAuthDone
  | SvOpenDone "unit result"
  | SvIncoming incoming
  | SvTakeCommand
  | SvHeartbeat
  | RouterTake
  | RouterDone string string
  | OtherWake WakeEnvelope
  | RouterGone

record server_task =
  mg_phase :: server_phase
  mg_backoff :: u64
  mg_reached_live :: bool
  mg_session :: ActiveSession
  mg_rx :: "send_command list"
  mg_rx_closed :: bool
  mg_signals :: nat
  mg_pending :: "(string \<times> PendingSend) list"
  mg_host :: host
  mg_http :: http
  mg_runtime :: RuntimeStore
  mg_wake :: "WakeEnvelope list"
  mg_wake_closed :: bool
  mg_taken :: "WakeEnvelope list"
  mg_status :: DaemonStatus
  mg_hooks :: HardFailureHooks
  mg_trace :: "server_action list"

record server_env =
  sx_server :: ServerConfig
  sx_retry :: RetryConfig
  sx_replay :: ReplayConfig
  sx_identities_dir :: string
  sx_io :: plugin_io
  sx_clients :: "(string, EmbeddingPluginClient) omap"
  sx_attention :: AttentionLayer
  sx_runtime_index :: nat
  sx_lib :: identity_lib
  sx_json_string :: "string \<Rightarrow> string"
  sx_time :: time_lib
  sx_codec :: runtime_codec
  sx_parse :: "string \<Rightarrow> json result"
  sx_uuid :: "nat \<Rightarrow> string"
  sx_now :: "nat \<Rightarrow> int"
  sx_draw :: "nat \<Rightarrow> f64"
  sx_write :: "nat \<Rightarrow> unit result"
  sx_print_event :: "HardFailureEvent \<Rightarrow> string result"
  sx_clock :: "nat \<Rightarrow> nat \<Rightarrow> int"

definition session_refreshed_reconnecting :: string where
  "session_refreshed_reconnecting = ''subspace session refreshed; reconnecting''"

section \<open>The active session\<close>

fun active_agent_id :: "ActiveSession \<Rightarrow> string" where
  "active_agent_id (ActiveCurrent s r) = se_agent_id s"
| "active_agent_id (ActiveLegacy s) = lg_agent_id s"

fun active_token :: "ActiveSession \<Rightarrow> string option" where
  "active_token (ActiveCurrent s r) = se_session_token s"
| "active_token (ActiveLegacy s) = lg_session_token s"

fun active_expires_at :: "ActiveSession \<Rightarrow> string option" where
  "active_expires_at (ActiveCurrent s r) = se_session_expires_at s"
| "active_expires_at (ActiveLegacy s) = lg_session_expires_at s"

fun active_clear_token :: "ActiveSession \<Rightarrow> ActiveSession" where
  "active_clear_token (ActiveCurrent s r) = ActiveCurrent (session_clear_token s) r"
| "active_clear_token (ActiveLegacy s) = ActiveLegacy (legacy_clear_token s)"

fun active_update_token :: "SessionAuth \<Rightarrow> ActiveSession \<Rightarrow> ActiveSession" where
  "active_update_token auth (ActiveCurrent s r) =
     ActiveCurrent (session_update_token (sa_token auth) (Some (sa_expires_at auth)) s) r"
| "active_update_token auth (ActiveLegacy s) =
     ActiveLegacy (legacy_update_token (sa_token auth) (Some (sa_expires_at auth)) s)"

fun active_persist :: "identity_lib \<Rightarrow> string \<Rightarrow> ActiveSession \<Rightarrow> (host, unit) op" where
  "active_persist lib path (ActiveCurrent s r) = session_persist lib path s"
| "active_persist lib path (ActiveLegacy s) = legacy_persist lib path s"

fun active_reauth :: "identity_lib \<Rightarrow> (string \<Rightarrow> string) \<Rightarrow> string \<Rightarrow> ActiveSession \<Rightarrow> (http, SessionAuth) op" where
  "active_reauth lib js base_url (ActiveCurrent s r) = reauth_identity lib js base_url s r"
| "active_reauth lib js base_url (ActiveLegacy s) = reauth_legacy_identity lib js base_url s"

section \<open>Helpers\<close>

definition reconnect_error_kind :: "string \<Rightarrow> string" where
  "reconnect_error_kind err =
     (let message = to_ascii_lowercase err
      in if contains message ''connection refused'' then ''connection_refused''
         else if contains message ''timed out'' \<or> contains message ''timeout'' then ''timeout''
         else if contains message ''join failed'' then ''join_failed''
         else if contains message ''auth'' then ''auth_failed''
         else if contains message ''websocket connect'' then ''websocket_connect_failed''
         else ''transport_failed'')"

definition server_ws_text :: "ws_message \<Rightarrow> WsFrame result" where
  "server_ws_text m =
     (case m of
        MsgText t \<Rightarrow> Inr (FrameText t)
      | MsgBinary bytes \<Rightarrow> rbind (ok_or ''non-utf8 websocket message'' (from_utf8 bytes)) (\<lambda>t. Inr (FrameText t))
      | MsgClose close \<Rightarrow> Inr (FrameClosed (map_option fst close) (unwrap_or [] (map_option snd close)))
      | MsgPing \<Rightarrow> Inr FrameIgnore
      | MsgPong \<Rightarrow> Inr FrameIgnore
      | MsgFrame \<Rightarrow> Inr FrameIgnore)"

definition closed_message :: "server_env \<Rightarrow> string \<Rightarrow> u16 option \<Rightarrow> string \<Rightarrow> string" where
  "closed_message sx head code reason =
     head @ (case code of None \<Rightarrow> [] | Some c \<Rightarrow> '' code='' @ digit_string (unat c))
          @ (if reason = [] then [] else '' reason='' @ il_debug (sx_lib sx) reason)"

definition json_or :: "string \<Rightarrow> string \<Rightarrow> json \<Rightarrow> json option" where
  "json_or k k' v = (case json_get k v of None \<Rightarrow> json_get k' v | Some x \<Rightarrow> Some x)"

definition parse_embedding :: "json \<Rightarrow> MessageEmbedding option" where
  "parse_embedding v =
     Option.bind (Option.bind (json_or ''space_id'' ''spaceId'' v) json_as_str) (\<lambda>sp.
     Option.bind (Option.bind (json_get ''vector'' v) json_as_array) (\<lambda>xs.
       let space_id = trim sp; vector = map f32_of_f64 (List.map_filter json_as_f64 xs)
       in if space_id = [] \<or> vector = [] then None
          else Some \<lparr>me_space_id = space_id, me_vector = vector\<rparr>))"

definition parse_message_embeddings :: "json \<Rightarrow> MessageEmbedding list" where
  "parse_message_embeddings payload =
     (let found = (case json_or ''supplied_embeddings'' ''suppliedEmbeddings'' payload of
                     None \<Rightarrow> json_get ''embeddings'' payload | Some v \<Rightarrow> Some v)
      in case Option.bind found json_as_array of
           None \<Rightarrow> []
         | Some vs \<Rightarrow> List.map_filter parse_embedding vs)"

definition server_hard_failure_event :: "ServerConfig \<Rightarrow> string \<Rightarrow> string \<Rightarrow> HardFailureEvent" where
  "server_hard_failure_event server kind message =
     \<lparr>he_kind = kind, he_component = ''subspace'', he_target = Some (sv_base_url server),
      he_message = message,
      he_metadata = JObj [(''server'', JStr (sv_base_url server)), (''server_key'', JStr (sv_server_key server))]\<rparr>"

section \<open>Pieces of the task\<close>

definition mg_act :: "server_action \<Rightarrow> server_task \<Rightarrow> server_task" where
  "mg_act a s = s\<lparr>mg_trace := mg_trace s @ [a]\<rparr>"

definition push_frame :: "server_env \<Rightarrow> push \<Rightarrow> server_task \<Rightarrow> unit result \<times> server_task" where
  "push_frame sx f s = (sx_write sx (length (mg_trace s)), mg_act (SaPush f) s)"

definition update_server_state :: "server_env \<Rightarrow> string \<Rightarrow> server_task \<Rightarrow> server_task" where
  "update_server_state sx value s =
     s\<lparr>mg_status := set_server_state (sv_base_url (sx_server sx)) (sv_server_key (sx_server sx)) value (mg_status s)\<rparr>"

definition update_server_session_expires_at :: "server_env \<Rightarrow> server_task \<Rightarrow> server_task" where
  "update_server_session_expires_at sx s =
     s\<lparr>mg_status := set_server_session_expires_at (sv_base_url (sx_server sx)) (sv_server_key (sx_server sx))
         (active_expires_at (mg_session s)) (mg_status s)\<rparr>"

definition update_server_reconnect_cooldown :: "server_env \<Rightarrow> ReconnectCooldown \<Rightarrow> server_task \<Rightarrow> server_task" where
  "update_server_reconnect_cooldown sx cd s =
     s\<lparr>mg_status := set_server_reconnect_cooldown (sv_base_url (sx_server sx)) (sv_server_key (sx_server sx))
         (cd_consecutive_failures cd) (cd_cooldown_ms cd) (cd_next_attempt_at cd) (cd_last_error_kind cd)
         (mg_status s)\<rparr>"

definition fire_server_hooks :: "server_env \<Rightarrow> string \<Rightarrow> string \<Rightarrow> server_task \<Rightarrow> server_task" where
  "fire_server_hooks sx kind message s =
     (let (runs, hs) = fire (sx_print_event sx) (sx_clock sx (length (mg_trace s)))
            (server_hard_failure_event (sx_server sx) kind message) (mg_hooks s)
      in mg_act (SaHooks runs) (s\<lparr>mg_hooks := hs\<rparr>))"

text \<open>\<open>drain\<close> and the dropping of a reply channel; the caller sees the latter as the text below.\<close>

definition reply_closed :: string where
  "reply_closed = ''subspace server reply channel closed''"

definition fail_sends :: "string \<Rightarrow> nat list \<Rightarrow> server_task \<Rightarrow> server_task" where
  "fail_sends e rs s = fold (\<lambda>r. mg_act (SaReply r (Inl e))) rs s"

definition fail_pending_sends :: "string \<Rightarrow> server_task \<Rightarrow> server_task" where
  "fail_pending_sends e s = (fail_sends e (map (ps_reply \<circ> snd) (mg_pending s)) s)\<lparr>mg_pending := []\<rparr>"

definition finish_task :: "server_phase \<Rightarrow> server_task \<Rightarrow> server_task" where
  "finish_task p s = (fail_sends reply_closed (map sm_reply (mg_rx s)) s)\<lparr>mg_rx := [], mg_phase := p\<rparr>"

definition persist_session :: "server_env \<Rightarrow> server_task \<Rightarrow> unit result \<times> server_task" where
  "persist_session sx s =
     (let (r, h) = active_persist (sx_lib sx) (sv_session_path (sx_server sx)) (mg_session s) (mg_host s)
      in (r, s\<lparr>mg_host := h\<rparr>))"

definition flush_runtime :: "server_env \<Rightarrow> server_task \<Rightarrow> unit result \<times> server_task" where
  "flush_runtime sx s =
     (case ho_write (mg_host s) (st_path (mg_runtime s)) of
        Inl e \<Rightarrow> (Inl e, s)
      | Inr _ \<Rightarrow> (Inr (), s\<lparr>mg_host := (mg_host s)\<lparr>ho_fs := fs_run (flush (sx_codec sx) (mg_runtime s)) (ho_fs (mg_host s))\<rparr>\<rparr>))"

section \<open>The loop\<close>

definition rest_backoff :: "server_env \<Rightarrow> server_task \<Rightarrow> server_task" where
  "rest_backoff sx s =
     mg_act (SaSleep (jitter (sx_draw sx (length (mg_trace s))) (mg_backoff s) (rc_jitter_ratio (sx_retry sx))))
       (s\<lparr>mg_phase := Resting\<rparr>)"

definition open_connection :: "server_env \<Rightarrow> server_task \<Rightarrow> server_task" where
  "open_connection sx s =
     mg_act SaOpen (update_server_state sx ''connecting'' (s\<lparr>mg_phase := Opening, mg_reached_live := False\<rparr>))"

text \<open>Loading the session: a current one needs its identity.\<close>

definition load_active :: "server_env \<Rightarrow> host \<Rightarrow> ActiveSession option result" where
  "load_active sx h =
     rbind (fst (load_session_record (sx_lib sx) (sv_session_path (sx_server sx)) h)) (\<lambda>loaded.
     case loaded of
       Some (CurrentSession session) \<Rightarrow>
         (let path = path_join (sx_identities_dir sx) (se_identity session @ ''.json'')
          in rbind (fst (identity_load (sx_lib sx) path h)) (\<lambda>found.
             rbind (ok_or (''missing identity file: '' @ path) found) (\<lambda>r.
             rbind (ensure_matches_agent_id (sx_lib sx) r (se_agent_id session)) (\<lambda>_.
             Inr (Some (ActiveCurrent session r))))))
     | Some (LegacySession session) \<Rightarrow> Inr (Some (ActiveLegacy session))
     | None \<Rightarrow> Inr None)"

definition begin_session :: "server_env \<Rightarrow> server_task \<Rightarrow> server_task" where
  "begin_session sx s =
     (case load_active sx (mg_host s) of
        Inl e \<Rightarrow> finish_task (Finished (Inl e)) s
      | Inr None \<Rightarrow> rest_backoff sx (update_server_state sx ''subspace_auth_required'' s)
      | Inr (Some session) \<Rightarrow>
          let s1 = s\<lparr>mg_session := session\<rparr>
          in if active_token session = None
             then (update_server_state sx ''authenticating'' s1)\<lparr>mg_phase := Authenticating\<rparr>
             else open_connection sx s1)"

definition cooldown_end :: "server_env \<Rightarrow> int \<Rightarrow> ReconnectCooldown \<Rightarrow> int" where
  "cooldown_end sx now cd = unwrap_or now (parse_rfc3339 (sx_time sx) (cd_next_attempt_at cd))"

definition server_loop_top :: "server_env \<Rightarrow> server_task \<Rightarrow> server_task" where
  "server_loop_top sx s =
     (case reconnect_cooldown (mg_runtime s) of
        None \<Rightarrow> begin_session sx s
      | Some cd \<Rightarrow>
          let s1 = update_server_reconnect_cooldown sx cd s;
              now = sx_now sx (length (mg_trace s));
              next = cooldown_end sx now cd
          in if next > now
             then mg_act (SaCooldown ((next - now) div 1000000)) (s1\<lparr>mg_phase := CoolingDown\<rparr>)
             else begin_session sx s1)"

text \<open>
  What follows a failure: it is counted, and a cooldown goes back to the top of the loop, where it
  is waited for; otherwise the task sleeps. \<open>None\<close> of the counting is a panic of the clock.
\<close>

definition after_failure :: "server_env \<Rightarrow> string \<Rightarrow> string \<Rightarrow> server_task \<Rightarrow> server_task" where
  "after_failure sx kind err s =
     (case record_reconnect_failure (sx_time sx) (sx_draw sx (length (mg_trace s)))
         (sx_now sx (length (mg_trace s))) (sx_retry sx) (reconnect_error_kind err) (mg_runtime s) of
        None \<Rightarrow> finish_task Panicked s
      | Some (cooldown, st) \<Rightarrow>
          (case flush_runtime sx (s\<lparr>mg_runtime := st\<rparr>) of
             (Inl e, s1) \<Rightarrow> finish_task (Finished (Inl e)) s1
           | (Inr _, s1) \<Rightarrow>
               (case cooldown of
                  None \<Rightarrow> rest_backoff sx s1
                | Some cd \<Rightarrow>
                    server_loop_top sx (fire_server_hooks sx kind err (update_server_reconnect_cooldown sx cd s1)))))"

definition after_rest :: "server_env \<Rightarrow> server_task \<Rightarrow> server_task" where
  "after_rest sx s =
     server_loop_top sx (s\<lparr>mg_backoff := min (saturating_mul (mg_backoff s) 2) (rc_max_ms (sx_retry sx))\<rparr>)"

text \<open>What the loop does with the outcome of \<open>connect_once\<close>, whose pending sends go with it.\<close>

definition after_connection :: "server_env \<Rightarrow> unit result \<Rightarrow> server_task \<Rightarrow> server_task" where
  "after_connection sx outcome s0 =
     (let s = fail_pending_sends reply_closed s0 in
      case outcome of
        Inr _ \<Rightarrow> finish_task (Finished (Inr ())) s
      | Inl err \<Rightarrow>
          if err = session_refreshed_reconnecting
          then server_loop_top sx ((update_server_state sx ''reconnecting'' s)\<lparr>mg_backoff := rc_base_ms (sx_retry sx)\<rparr>)
          else after_failure sx ''subspace_reconnect_cooldown'' err
                 (update_server_state sx ''reconnecting''
                   (if mg_reached_live s then s\<lparr>mg_backoff := rc_base_ms (sx_retry sx)\<rparr> else s)))"

definition close_and_finish :: "server_env \<Rightarrow> server_task \<Rightarrow> server_task" where
  "close_and_finish sx s = after_connection sx (Inr ()) (snd (push_frame sx PushClose s))"

section \<open>Authentication\<close>

definition reauth_session :: "server_env \<Rightarrow> server_task \<Rightarrow> SessionAuth result \<times> server_task" where
  "reauth_session sx s =
     (let (r, ht) = active_reauth (sx_lib sx) (sx_json_string sx) (sv_base_url (sx_server sx)) (mg_session s) (mg_http s)
      in (r, s\<lparr>mg_http := ht\<rparr>))"

definition accept_auth :: "server_env \<Rightarrow> SessionAuth \<Rightarrow> server_task \<Rightarrow> unit result \<times> server_task" where
  "accept_auth sx auth s =
     (case persist_session sx (s\<lparr>mg_session := active_update_token auth (mg_session s)\<rparr>) of
        (Inl e, s1) \<Rightarrow> (Inl e, s1)
      | (Inr _, s1) \<Rightarrow> (Inr (), update_server_session_expires_at sx s1))"

definition on_authenticated :: "server_env \<Rightarrow> server_task \<Rightarrow> server_task" where
  "on_authenticated sx s =
     (case reauth_session sx s of
        (Inr auth, s1) \<Rightarrow>
          (case accept_auth sx auth s1 of
             (Inl e, s2) \<Rightarrow> finish_task (Finished (Inl e)) s2
           | (Inr _, s2) \<Rightarrow> open_connection sx s2)
      | (Inl err, s1) \<Rightarrow>
          after_failure sx ''subspace_auth_failed'' err (update_server_state sx ''subspace_auth_required'' s1))"

definition on_refreshed :: "server_env \<Rightarrow> server_task \<Rightarrow> server_task" where
  "on_refreshed sx s =
     (case reauth_session sx s of
        (Inr auth, s1) \<Rightarrow>
          (case accept_auth sx auth s1 of
             (Inl e, s2) \<Rightarrow> after_connection sx (Inl e) s2
           | (Inr _, s2) \<Rightarrow>
               after_connection sx (Inl session_refreshed_reconnecting)
                 (fail_pending_sends session_refreshed_reconnecting s2))
      | (Inl err, s1) \<Rightarrow>
          after_connection sx (Inl (''subspace session refresh failed: '' @ err))
            (fail_pending_sends ''subspace session refresh failed''
              (update_server_state sx ''subspace_auth_required'' s1)))"

section \<open>Joining\<close>

definition send_join :: "server_env \<Rightarrow> server_task \<Rightarrow> server_task" where
  "send_join sx s =
     (let join_ref = sx_uuid sx (length (mg_trace s));
          frame = JObj [(''topic'', JStr ''firehose''), (''event'', JStr ''phx_join''),
            (''payload'', JObj [(''agent_id'', JStr (active_agent_id (mg_session s))),
               (''session_token'', JStr (unwrap_or [] (active_token (mg_session s))))]),
            (''ref'', JStr join_ref)]
      in case push_frame sx (PushFrame frame) s of
           (Inl e, s1) \<Rightarrow> after_connection sx (Inl e) s1
         | (Inr _, s1) \<Rightarrow> s1\<lparr>mg_phase := AwaitJoin join_ref\<rparr>)"

definition go_live :: "server_env \<Rightarrow> server_task \<Rightarrow> server_task" where
  "go_live sx s =
     (let s1 = update_server_session_expires_at sx (update_server_state sx ''live'' s)
      in case flush_runtime sx (s1\<lparr>mg_reached_live := True, mg_runtime := clear_reconnect_storm (mg_runtime s1)\<rparr>) of
           (Inl e, s2) \<Rightarrow> after_connection sx (Inl e) s2
         | (Inr _, s2) \<Rightarrow> s2\<lparr>mg_phase := Joined, mg_pending := []\<rparr>)"

text \<open>\<open>session.clear_session_token()\<close> and \<open>persist\<close> for the two errors that revoke a token.\<close>

definition forget_revoked_token :: "server_env \<Rightarrow> string \<Rightarrow> server_task \<Rightarrow> unit result \<times> server_task" where
  "forget_revoked_token sx error s =
     (if error = ''TOKEN_INVALID'' \<or> error = ''TOKEN_REVOKED''
      then persist_session sx (s\<lparr>mg_session := active_clear_token (mg_session s)\<rparr>)
      else (Inr (), s))"

definition response_error :: "string \<Rightarrow> json option \<Rightarrow> string" where
  "response_error fallback payload =
     unwrap_or fallback (Option.bind (Option.bind payload (json_get ''response'')) (json_str_at ''error''))"

definition on_join_frame :: "server_env \<Rightarrow> string \<Rightarrow> json \<Rightarrow> server_task \<Rightarrow> server_task" where
  "on_join_frame sx join_ref parsed s =
     (if json_get ''event'' parsed = Some (JStr ''phx_reply'') \<and> json_get ''ref'' parsed = Some (JStr join_ref)
      then if Option.bind (json_get ''payload'' parsed) (json_str_at ''status'') = Some ''ok'' then go_live sx s
           else let error = response_error ''join_failed'' (json_get ''payload'' parsed)
                in case forget_revoked_token sx error s of
                     (Inl e, s1) \<Rightarrow> after_connection sx (Inl e) s1
                   | (Inr _, s1) \<Rightarrow> after_connection sx (Inl (''subspace join failed: '' @ error)) s1
      else s)"

definition on_join_incoming :: "server_env \<Rightarrow> string \<Rightarrow> incoming \<Rightarrow> server_task \<Rightarrow> server_task" where
  "on_join_incoming sx join_ref inc s =
     (case inc of
        StreamEnd \<Rightarrow> after_connection sx (Inl ''subspace closed during join'') s
      | StreamError e \<Rightarrow> after_connection sx (Inl e) s
      | Received m \<Rightarrow>
          (case server_ws_text m of
             Inl e \<Rightarrow> after_connection sx (Inl e) s
           | Inr FrameIgnore \<Rightarrow> s
           | Inr (FrameClosed code reason) \<Rightarrow>
               after_connection sx (Inl (closed_message sx ''subspace websocket closed during join'' code reason)) s
           | Inr (FrameText t) \<Rightarrow>
               (case sx_parse sx t of
                  Inl e \<Rightarrow> after_connection sx (Inl e) s
                | Inr parsed \<Rightarrow> on_join_frame sx join_ref parsed s)))"

section \<open>The live channel\<close>

definition on_heartbeat :: "server_env \<Rightarrow> server_task \<Rightarrow> server_task" where
  "on_heartbeat sx s =
     (if session_expires_soon (sx_time sx) (sx_now sx (length (mg_trace s))) (active_expires_at (mg_session s))
      then (update_server_state sx ''authenticating'' s)\<lparr>mg_phase := Refreshing\<rparr>
      else let frame = JObj [(''topic'', JStr ''phoenix''), (''event'', JStr ''heartbeat''), (''payload'', JObj []),
                 (''ref'', JStr (sx_uuid sx (length (mg_trace s))))]
           in case push_frame sx (PushFrame frame) s of
                (Inl e, s1) \<Rightarrow> after_connection sx (Inl e) s1
              | (Inr _, s1) \<Rightarrow> s1)"

text \<open>The second identifier drawn by a command is the idempotency key, when none was given.\<close>

definition post_frame :: "server_env \<Rightarrow> string \<Rightarrow> string \<Rightarrow> send_command \<Rightarrow> json" where
  "post_frame sx ref_id idem c =
     JObj [(''topic'', JStr ''firehose''), (''event'', JStr ''post_message''),
       (''payload'', JObj [(''text'', JStr (sm_text c)), (''idempotency_key'', JStr idem),
          (''embeddings'', sender_embeddings_json
             (compose_outbound_embeddings (sx_io sx) (sm_text c) (sm_embedding_request c) (sx_clients sx)))]),
       (''ref'', JStr ref_id)]"

definition insert_pending_send :: "string \<Rightarrow> PendingSend \<Rightarrow> server_task \<Rightarrow> server_task" where
  "insert_pending_send k p s =
     (let old = filter (\<lambda>(a, b). a = k) (mg_pending s)
      in fail_sends reply_closed (map (ps_reply \<circ> snd) old)
           (s\<lparr>mg_pending := (k, p) # filter (\<lambda>(a, b). a \<noteq> k) (mg_pending s)\<rparr>))"

definition on_send_command :: "server_env \<Rightarrow> send_command \<Rightarrow> server_task \<Rightarrow> server_task" where
  "on_send_command sx c s =
     (let ref_id = sx_uuid sx (length (mg_trace s));
          idem = (case sm_idempotency_key c of Some k \<Rightarrow> k | None \<Rightarrow> sx_uuid sx (Suc (length (mg_trace s))))
      in case push_frame sx (PushFrame (post_frame sx ref_id idem c)) s of
           (Inl e, s1) \<Rightarrow> after_connection sx (Inl e) (mg_act (SaReply (sm_reply c) (Inl reply_closed)) s1)
         | (Inr _, s1) \<Rightarrow> insert_pending_send ref_id \<lparr>ps_reply = sm_reply c, ps_idempotency_key = idem\<rparr> s1)"

definition on_server_command :: "server_env \<Rightarrow> server_task \<Rightarrow> server_task" where
  "on_server_command sx s =
     (case mg_rx s of
        c # cs \<Rightarrow> on_send_command sx c (s\<lparr>mg_rx := cs\<rparr>)
      | [] \<Rightarrow> if mg_rx_closed s then close_and_finish sx s else s)"

definition wake_capacity :: nat where
  "wake_capacity = 1000"

definition inbound_envelope :: "server_env \<Rightarrow> json \<Rightarrow> json \<Rightarrow> WakeEnvelope" where
  "inbound_envelope sx parsed payload =
     \<lparr>we_server = sv_base_url (sx_server sx), we_server_key = sv_server_key (sx_server sx),
      we_message_id = unwrap_or [] (json_str_at ''id'' payload),
      we_timestamp = unwrap_or [] (json_str_at ''ts'' payload),
      we_inbound_event = unwrap_or [] (json_str_at ''event'' parsed),
      we_author_id = unwrap_or [] (json_str_at ''agentId'' payload),
      we_author_name = unwrap_or [] (case json_str_at ''agentName'' payload of
         None \<Rightarrow> json_str_at ''agentId'' payload | Some n \<Rightarrow> Some n),
      we_text = unwrap_or [] (json_str_at ''text'' payload),
      we_sender_embeddings = parse_message_embeddings payload, we_attention = sx_attention sx,
      we_runtime = sx_runtime_index sx, we_wake_session_key_override = sv_wake_session_key (sx_server sx)\<rparr>"

text \<open>\<open>try_send\<close>, and what happens when the queue does not take the message.\<close>

definition enqueue_wake :: "server_env \<Rightarrow> WakeEnvelope \<Rightarrow> server_task \<Rightarrow> server_task" where
  "enqueue_wake sx env s =
     (let failed = s\<lparr>mg_runtime := mark_failed (we_message_id env) (mg_runtime s)\<rparr>
      in if mg_wake_closed s then after_connection sx (Inl ''wake queue closed'') failed
         else if wake_capacity \<le> length (mg_wake s) then after_connection sx (Inl ''wake queue full'') failed
         else mg_act (SaEnqueue (active_agent_id (mg_session s)) env) (s\<lparr>mg_wake := mg_wake s @ [env]\<rparr>))"

definition on_inbound_message :: "server_env \<Rightarrow> json \<Rightarrow> server_task \<Rightarrow> server_task" where
  "on_inbound_message sx parsed s =
     (let payload = unwrap_or (JObj []) (json_get ''payload'' parsed);
          env = inbound_envelope sx parsed payload
      in if we_author_id env = active_agent_id (mg_session s) then s
         else if we_message_id env = [] \<or> we_timestamp env = [] then s
         else let (accepted, st) = should_enqueue (sx_time sx) (we_message_id env) (we_timestamp env) (mg_runtime s)
              in if accepted then enqueue_wake sx env (s\<lparr>mg_runtime := st\<rparr>) else s\<lparr>mg_runtime := st\<rparr>)"

definition reply_message_id :: "json \<Rightarrow> string option" where
  "reply_message_id payload =
     (let response = json_get ''response'' payload
      in Option.bind (case Option.bind response (json_get ''id'') of
                        None \<Rightarrow> Option.bind response (json_get ''messageId'') | Some v \<Rightarrow> Some v) json_as_str)"

definition on_phx_reply :: "server_env \<Rightarrow> json \<Rightarrow> server_task \<Rightarrow> server_task" where
  "on_phx_reply sx parsed s0 =
     (case json_str_at ''ref'' parsed of
        None \<Rightarrow> s0
      | Some reference \<Rightarrow>
          (case map_of (mg_pending s0) reference of
             None \<Rightarrow> s0
           | Some p \<Rightarrow>
               let s = mg_act (SaReceive parsed)
                     (s0\<lparr>mg_pending := filter (\<lambda>(a, b). a \<noteq> reference) (mg_pending s0)\<rparr>);
                   payload = unwrap_or (JObj []) (json_get ''payload'' parsed)
               in if json_str_at ''status'' payload = Some ''ok''
                  then mg_act (SaReply (ps_reply p) (Inr
                         \<lparr>os_server = sv_base_url (sx_server sx), os_subspace_message_id = reply_message_id payload,
                          os_idempotency_key = ps_idempotency_key p\<rparr>)) s
                  else let error = response_error ''send_failed'' (Some payload)
                       in case forget_revoked_token sx error s of
                            (Inl e, s1) \<Rightarrow>
                              after_connection sx (Inl e) (mg_act (SaReply (ps_reply p) (Inl reply_closed)) s1)
                          | (Inr _, s1) \<Rightarrow>
                              mg_act (SaReply (ps_reply p) (Inl error))
                                (fire_server_hooks sx ''subspace_post_message_failed'' error s1)))"

definition on_live_frame :: "server_env \<Rightarrow> json \<Rightarrow> server_task \<Rightarrow> server_task" where
  "on_live_frame sx parsed s =
     (if json_get ''topic'' parsed \<noteq> Some (JStr ''firehose'') then s
      else let event = unwrap_or [] (json_str_at ''event'' parsed)
           in if event = ''new_message'' \<or> event = ''replay_message'' then on_inbound_message sx parsed s
              else if event = ''phx_reply'' then on_phx_reply sx parsed s
              else s)"

definition on_live_incoming :: "server_env \<Rightarrow> incoming \<Rightarrow> server_task \<Rightarrow> server_task" where
  "on_live_incoming sx inc s =
     (case inc of
        StreamEnd \<Rightarrow> after_connection sx (Inl ''subspace websocket closed'') s
      | StreamError e \<Rightarrow> after_connection sx (Inl e) s
      | Received m \<Rightarrow>
          (case server_ws_text m of
             Inl e \<Rightarrow> after_connection sx (Inl e) s
           | Inr FrameIgnore \<Rightarrow> s
           | Inr (FrameClosed code reason) \<Rightarrow>
               after_connection sx (Inl (closed_message sx ''subspace websocket closed'' code reason)) s
           | Inr (FrameText t) \<Rightarrow>
               (case sx_parse sx t of Inl _ \<Rightarrow> s | Inr parsed \<Rightarrow> on_live_frame sx parsed s)))"

section \<open>The task\<close>

definition server_shutdown :: "server_env \<Rightarrow> server_task \<Rightarrow> server_task" where
  "server_shutdown sx s0 =
     (if mg_signals s0 = 0 then s0
      else let s = s0\<lparr>mg_signals := mg_signals s0 - 1\<rparr>
           in case mg_phase s of
                CoolingDown \<Rightarrow> finish_task (Finished (Inr ())) s
              | Resting \<Rightarrow> finish_task (Finished (Inr ())) s
              | AwaitJoin _ \<Rightarrow> close_and_finish sx s
              | Joined \<Rightarrow> close_and_finish sx s
              | _ \<Rightarrow> s0)"

definition task_over :: "server_task \<Rightarrow> bool" where
  "task_over s = (case mg_phase s of Finished _ \<Rightarrow> True | Panicked \<Rightarrow> True | _ \<Rightarrow> False)"

definition can_send :: "server_task \<Rightarrow> bool" where
  "can_send s \<longleftrightarrow> \<not> mg_rx_closed s \<and> length (mg_rx s) < 128 \<and> \<not> task_over s"

text \<open>The wake router takes entries in order; it marks those of this server in its runtime store.\<close>

definition router_take :: "server_env \<Rightarrow> server_task \<Rightarrow> server_task" where
  "router_take sx s =
     (case mg_wake s of
        [] \<Rightarrow> s
      | env # envs \<Rightarrow> s\<lparr>mg_wake := envs,
          mg_taken := (if we_runtime env = sx_runtime_index sx then mg_taken s @ [env] else mg_taken s)\<rparr>)"

definition router_done :: "string \<Rightarrow> string \<Rightarrow> server_task \<Rightarrow> server_task" where
  "router_done message_id timestamp s =
     (if message_id \<in> we_message_id ` set (mg_taken s)
      then s\<lparr>mg_taken := filter (\<lambda>e. we_message_id e \<noteq> message_id) (mg_taken s),
             mg_runtime := mark_processed message_id timestamp (mg_runtime s)\<rparr>
      else s)"

definition other_wake :: "server_env \<Rightarrow> WakeEnvelope \<Rightarrow> server_task \<Rightarrow> server_task" where
  "other_wake sx env s =
     (if we_runtime env \<noteq> sx_runtime_index sx \<and> length (mg_wake s) < wake_capacity
      then s\<lparr>mg_wake := mg_wake s @ [env]\<rparr> else s)"

fun run_server_manager :: "server_env \<Rightarrow> server_event \<Rightarrow> server_task \<Rightarrow> server_task" where
  "run_server_manager sx SvSignal s = s\<lparr>mg_signals := Suc (mg_signals s)\<rparr>"
| "run_server_manager sx (SvSubmit c) s =
     (if can_send s then mg_act (SaAccept c) (s\<lparr>mg_rx := mg_rx s @ [c]\<rparr>) else s)"
| "run_server_manager sx SvHandlesDropped s = s\<lparr>mg_rx_closed := True\<rparr>"
| "run_server_manager sx SvTakeShutdown s = server_shutdown sx s"
| "run_server_manager sx SvSleepDone s =
     (case mg_phase s of
        CoolingDown \<Rightarrow> begin_session sx s
      | Resting \<Rightarrow> after_rest sx s
      | _ \<Rightarrow> s)"
| "run_server_manager sx SvAuthDone s =
     (case mg_phase s of
        Authenticating \<Rightarrow> on_authenticated sx s
      | Refreshing \<Rightarrow> on_refreshed sx s
      | _ \<Rightarrow> s)"
| "run_server_manager sx (SvOpenDone r) s =
     (if mg_phase s = Opening
      then (case r of
              Inl _ \<Rightarrow> after_connection sx (Inl ''subspace websocket connect failed'') s
            | Inr _ \<Rightarrow> send_join sx s)
      else s)"
| "run_server_manager sx (SvIncoming inc) s =
     (case mg_phase s of
        AwaitJoin join_ref \<Rightarrow> on_join_incoming sx join_ref inc s
      | Joined \<Rightarrow> on_live_incoming sx inc s
      | _ \<Rightarrow> s)"
| "run_server_manager sx SvTakeCommand s = (if mg_phase s = Joined then on_server_command sx s else s)"
| "run_server_manager sx SvHeartbeat s = (if mg_phase s = Joined then on_heartbeat sx s else s)"
| "run_server_manager sx RouterTake s = router_take sx s"
| "run_server_manager sx (RouterDone message_id timestamp) s = router_done message_id timestamp s"
| "run_server_manager sx (OtherWake env) s = other_wake sx env s"
| "run_server_manager sx RouterGone s = s\<lparr>mg_wake_closed := True\<rparr>"

definition server_run :: "server_env \<Rightarrow> server_event list \<Rightarrow> server_task \<Rightarrow> server_task" where
  "server_run sx es s = fold (run_server_manager sx) es s"

text \<open>The start: the runtime store is loaded, then the loop is entered.\<close>

definition start_server_task :: "server_env \<Rightarrow> int \<Rightarrow> host \<Rightarrow> http \<Rightarrow> DaemonStatus \<Rightarrow> HardFailureHooks
    \<Rightarrow> server_task result" where
  "start_server_task sx now h ht status hooks =
     rbind (runtime_load (sx_codec sx) now (ho_fs h) (sv_runtime_path (sx_server sx))
       (rp_dedupe_window_size (sx_replay sx)) (rp_discard_before_ts (sx_replay sx))) (\<lambda>st.
     Inr (server_loop_top sx
       \<lparr>mg_phase = Resting, mg_backoff = rc_base_ms (sx_retry sx), mg_reached_live = False,
        mg_session = ActiveCurrent (session_new [] []) \<lparr>ni_name = [], ni_public_key = [], ni_signing_key = []\<rparr>,
        mg_rx = [], mg_rx_closed = False, mg_signals = 0, mg_pending = [], mg_host = h, mg_http = ht,
        mg_runtime = st, mg_wake = [], mg_wake_closed = False, mg_taken = [], mg_status = status,
        mg_hooks = hooks, mg_trace = []\<rparr>))"

end
