(* ===== verification/Setup.thy ===== *)
theory Setup
  imports Subspace_Client Config_Ops
begin

text \<open>
  Setting up a server, \<^verbatim>\<open>src/src/setup.rs\<close>: the session and the identity of a server are found,
  migrated or created, the stored configuration is updated, and a running daemon starts a manager
  for the server. The mutation lock admits one setup at a time, so a setup is one operation on the
  state it shares with the daemon.

  The shared state \<open>LiveSetupState\<close> is a record; a handle and a task both stand for the manager
  that \<open>start_server_manager\<close> has started, which is given by the arguments of the start. What the
  environment contributes (URL and JSON parsing, keys, the plugin process) is in \<open>setup_env\<close>; the
  file trees in its components are replaced by the one of the host.
\<close>

section \<open>Data\<close>

record SetupRequest =
  sq_url :: string
  sq_name :: "string option"
  sq_identity :: "string option"

record SetupResult =
  sr_base_url :: string
  sr_server_key :: string
  sr_session_path :: string
  sr_config_path :: string
  sr_agent_id :: string
  sr_identity :: string
  sr_had_existing_session :: bool
  sr_applied_live :: bool

record server_manager =
  mn_server :: ServerConfig
  mn_retry :: RetryConfig
  mn_replay :: ReplayConfig
  mn_identities_dir :: string
  mn_clients :: "(string, EmbeddingPluginClient) omap"
  mn_attention :: AttentionLayer

record LiveSetupState =
  lv_status :: DaemonStatus
  lv_server_handles :: "(string, server_manager) omap"
  lv_server_tasks :: "(string \<times> server_manager) list"
  lv_retry :: RetryConfig
  lv_replay :: ReplayConfig
  lv_attention :: AttentionConfig

record setup_env =
  sp_config :: config_env
  sp_lib :: identity_lib
  sp_json_string :: "string \<Rightarrow> string"
  sp_fresh :: string
  sp_http_client :: "unit result"
  sp_attention :: attention_env

record setup_world =
  sw_host :: host
  sw_http :: http
  sw_runtime :: "LiveSetupState option"

definition config_at :: "setup_env \<Rightarrow> host \<Rightarrow> config_env" where
  "config_at env h = (sp_config env)\<lparr>ce_fs := ho_fs h\<rparr>"

definition on_host :: "(host, 'a) op \<Rightarrow> (setup_world, 'a) op" where
  "on_host m w = (let (r, h) = m (sw_host w) in (r, w\<lparr>sw_host := h\<rparr>))"

definition on_http :: "(http, 'a) op \<Rightarrow> (setup_world, 'a) op" where
  "on_http m w = (let (r, ht) = m (sw_http w) in (r, w\<lparr>sw_http := ht\<rparr>))"

section \<open>Registration name and identity\<close>

definition resolve_registration_name :: "config_env \<Rightarrow> string option \<Rightarrow> StoredServerConfig option
    \<Rightarrow> LoadedSessionRecord option \<Rightarrow> string result" where
  "resolve_registration_name ce requested_name existing_config existing_session =
     (let resolved =
        (case requested_name of
           Some name \<Rightarrow> trim name
         | None \<Rightarrow>
             unwrap_or (default_registration_name (ce_fs ce))
               (case Option.bind existing_config ss_registration_name of
                  Some name \<Rightarrow> Some name
                | None \<Rightarrow> (case existing_session of
                             Some (LegacySession session) \<Rightarrow> Some (lg_registration_name session)
                           | _ \<Rightarrow> None)))
      in if resolved = [] then Inl ''registration name must not be empty'' else Inr resolved)"

definition setup_current :: "identity_lib \<Rightarrow> string \<Rightarrow> string option \<Rightarrow> SubspaceSessionRecord
    \<Rightarrow> (host, string \<times> string) op" where
  "setup_current lib dir requested session =
     andthen (lift (case requested of
         None \<Rightarrow> Inr (se_identity session)
       | Some raw \<Rightarrow>
           rbind (validate_name raw) (\<lambda>name.
           rbind (bail_if (name \<noteq> se_identity session)
             (''server identity is '' @ se_identity session @ '', not '' @ name
              @ ''; delete the server state directory to switch identities'')) (\<lambda>_.
           Inr name)))) (\<lambda>identity_name.
     let path = identity_path dir identity_name
     in andthen (identity_load lib path) (\<lambda>found.
        andthen (lift (ok_or (''missing identity file: '' @ path) found)) (\<lambda>r.
        andthen (lift (ensure_matches_agent_id lib r (se_agent_id session))) (\<lambda>_.
        ret (identity_name, se_agent_id session)))))"

definition setup_legacy :: "identity_lib \<Rightarrow> string \<Rightarrow> string \<Rightarrow> string option
    \<Rightarrow> LegacySubspaceSessionRecord \<Rightarrow> (host, string \<times> string) op" where
  "setup_legacy lib dir session_path requested session =
     andthen (lift (ok_or ''legacy session file requires --identity to migrate'' requested)) (\<lambda>name.
     andthen (load_or_create_from_legacy lib dir name session) (\<lambda>r.
     andthen (lift (migrate_to_identity lib session r)) (\<lambda>migrated.
     andthen (session_persist lib session_path migrated) (\<lambda>_.
     ret (ni_name r, se_agent_id migrated)))))"

definition setup_new :: "setup_env \<Rightarrow> string \<Rightarrow> string \<Rightarrow> string \<Rightarrow> string \<Rightarrow> string option
    \<Rightarrow> (setup_world, string \<times> string) op" where
  "setup_new env dir session_path base_url registration_name requested =
     andthen (lift (ok_or ''setup requires --identity for a new server'' requested)) (\<lambda>name.
     andthen (on_host (load_or_create (sp_lib env) (sp_fresh env) dir name)) (\<lambda>r.
     andthen (lift (sp_http_client env)) (\<lambda>_.
     andthen (on_http (register_identity (sp_lib env) (sp_json_string env) base_url
       registration_name r)) (\<lambda>auth.
     let session = session_update_token (sa_token auth) (Some (sa_expires_at auth))
           (session_new (ni_name r) (ni_public_key r))
     in andthen (on_host (session_persist (sp_lib env) session_path session)) (\<lambda>_.
        ret (ni_name r, ni_public_key r))))))"

section \<open>Starting a manager\<close>

text \<open>
  \<open>spawn_server_manager\<close>. Building the attention layer and starting the task do not fail; the
  packs of the server replace the global ones, while the clients for generated embeddings come
  from the global settings.
\<close>

definition spawn_server_manager :: "setup_env \<Rightarrow> host \<Rightarrow> ServerConfig \<Rightarrow> string \<Rightarrow> LiveSetupState
    \<Rightarrow> LiveSetupState" where
  "spawn_server_manager env h server identities_dir rt =
     (let server_attention = (lv_attention rt)\<lparr>ac_local_pack_paths :=
            effective_local_pack_paths server (ac_local_pack_paths (lv_attention rt))\<rparr>;
          attention = attention_new ((sp_attention env)\<lparr>env_fs := ho_fs h\<rparr>) server_attention;
          manager = \<lparr>mn_server = server, mn_retry = lv_retry rt, mn_replay = lv_replay rt,
            mn_identities_dir = identities_dir,
            mn_clients = configured_generated_embedding_clients (ho_fs h) (lv_attention rt),
            mn_attention = attention\<rparr>
      in rt\<lparr>lv_status := set_server_attention_health (sv_base_url server) (sv_server_key server)
               (health_from_layer attention) (lv_status rt),
            lv_server_handles := omap_insert (sv_base_url server) manager (lv_server_handles rt),
            lv_server_tasks := lv_server_tasks rt @ [(sv_server_key server, manager)]\<rparr>)"

definition ensure_server_manager :: "setup_env \<Rightarrow> host \<Rightarrow> StoredConfig \<Rightarrow> string \<Rightarrow> string \<Rightarrow> string
    \<Rightarrow> (LiveSetupState, unit) op" where
  "ensure_server_manager env h stored config_path identities_dir base_url rt =
     (if omap_get (lv_server_handles rt) base_url \<noteq> None then (Inr (), rt)
      else case rbind (derive_app_paths (config_at env h) config_path None) (\<lambda>paths.
                rbind (from_stored (config_at env h) stored paths) (\<lambda>config.
                ok_or ''configured server not found after setup''
                  (find (\<lambda>server. sv_base_url server = base_url \<and> sv_enabled server)
                    (cf_servers config)))) of
             Inl e \<Rightarrow> (Inl e, rt)
           | Inr server \<Rightarrow> (Inr (), spawn_server_manager env h server identities_dir rt))"

section \<open>The setup\<close>

definition setup_identity :: "setup_env \<Rightarrow> AppPaths \<Rightarrow> string \<Rightarrow> string \<Rightarrow> string \<Rightarrow> string option
    \<Rightarrow> LoadedSessionRecord option \<Rightarrow> (setup_world, string \<times> string) op" where
  "setup_identity env paths session_path base_url registration_name requested existing_session =
     (case existing_session of
        Some (CurrentSession session) \<Rightarrow>
          on_host (setup_current (sp_lib env) (ap_identities_dir paths) requested session)
      | Some (LegacySession session) \<Rightarrow>
          on_host (setup_legacy (sp_lib env) (ap_identities_dir paths) session_path requested session)
      | None \<Rightarrow>
          setup_new env (ap_identities_dir paths) session_path base_url registration_name requested)"

definition setup_apply :: "setup_env \<Rightarrow> AppPaths \<Rightarrow> StoredConfig \<Rightarrow> string \<Rightarrow> (setup_world, bool) op" where
  "setup_apply env paths stored base_url w =
     (case sw_runtime w of
        None \<Rightarrow> (Inr False, w)
      | Some rt \<Rightarrow>
          let (r, rt') = ensure_server_manager env (sw_host w) stored (ap_config_path paths)
                (ap_identities_dir paths) base_url rt
          in (rbind r (\<lambda>_. Inr True), w\<lparr>sw_runtime := Some rt'\<rparr>))"

definition setup_session_path :: "AppPaths \<Rightarrow> string \<Rightarrow> string" where
  "setup_session_path paths server_key =
     path_join (path_join (path_join (ap_root paths) ''servers'') server_key) ''subspace-session.json''"

definition perform_setup :: "setup_env \<Rightarrow> SetupRequest \<Rightarrow> (setup_world, SetupResult) op" where
  "perform_setup env request w =
     (let ce = config_at env (sw_host w); config_path = default_config_path ce
      in andthen (lift (derive_app_paths ce config_path None)) (\<lambda>paths.
         andthen (lift (canonicalize_base_url ce (sq_url request))) (\<lambda>base_url.
         andthen (lift (derive_server_key ce base_url)) (\<lambda>server_key.
         let session_path = setup_session_path paths server_key
         in andthen (lift (stored_load_or_default ce config_path)) (\<lambda>stored.
            let existing_config = find (names_url ce base_url) (so_servers stored)
            in andthen (on_host (load_session_record (sp_lib env) session_path)) (\<lambda>existing_session.
               andthen (lift (resolve_registration_name ce (sq_name request) existing_config
                 existing_session)) (\<lambda>registration_name.
               andthen (setup_identity env paths session_path base_url registration_name
                 (sq_identity request) existing_session) (\<lambda>(identity_name, agent_id).
               let stored' = upsert_server ce base_url registration_name identity_name stored
               in andthen (on_host (persist_json config_path (ce_print_stored ce stored'))) (\<lambda>_.
                  andthen (setup_apply env paths stored' base_url) (\<lambda>applied_live.
                  ret \<lparr>sr_base_url = base_url, sr_server_key = server_key,
                       sr_session_path = session_path, sr_config_path = config_path,
                       sr_agent_id = agent_id, sr_identity = identity_name,
                       sr_had_existing_session = existing_session \<noteq> None,
                       sr_applied_live = applied_live\<rparr>)))))))))
         w)"

text \<open>The start of the daemon: a manager for every enabled server of the configuration.\<close>

definition start_managers :: "setup_env \<Rightarrow> host \<Rightarrow> Config \<Rightarrow> LiveSetupState" where
  "start_managers env h config =
     fold (\<lambda>server. spawn_server_manager env h server (ap_identities_dir (cf_paths config)))
       (filter sv_enabled (cf_servers config))
       \<lparr>lv_status = daemon_status_new config, lv_server_handles = [], lv_server_tasks = [],
        lv_retry = cf_retry config, lv_replay = cf_replay config,
        lv_attention = cf_attention config\<rparr>"

end
