(* ===== verification/Ipc.thy ===== *)
theory Ipc
  imports Setup
begin

text \<open>
  The local interface of the daemon, \<^verbatim>\<open>src/src/ipc.rs\<close>: requests on the Unix socket for health,
  for sending a message to Subspace servers and for setting up a server, and the build information
  of \<^verbatim>\<open>src/src/build_info.rs\<close> that the health report carries.

  A response is its status with the Rust value that is serialised as its body; reading JSON into the
  request types is library code (\<open>ix_parse_send\<close>, \<open>ix_parse_setup\<close>). A request sees one snapshot of
  the status and of the handles. What becomes of a command that is sent to a manager is decided by
  the manager, which runs concurrently: \<open>ix_fate\<close> answers it for each attempt, and the log of the
  world records the attempts.
\<close>

section \<open>Build information\<close>

record BuildInfo =
  bi_package :: string
  bi_version :: string
  bi_source_commit :: string
  bi_build_timestamp :: string
  bi_target :: string
  bi_profile :: string
  bi_binary_hash :: "string option"

record build_env =
  be_package :: string
  be_version :: string
  be_commit :: "string option"
  be_timestamp :: "string option"
  be_target :: "string option"
  be_profile :: "string option"
  be_exe_bytes :: "string option"
  be_sha256 :: "string \<Rightarrow> string"

definition build_info_current :: "build_env \<Rightarrow> string option \<Rightarrow> BuildInfo" where
  "build_info_current be binary_hash =
     \<lparr>bi_package = be_package be, bi_version = be_version be,
      bi_source_commit = unwrap_or ''unknown'' (be_commit be),
      bi_build_timestamp = unwrap_or ''unknown'' (be_timestamp be),
      bi_target = unwrap_or ''unknown'' (be_target be),
      bi_profile = unwrap_or ''unknown'' (be_profile be), bi_binary_hash = binary_hash\<rparr>"

definition hex_digit :: "nat \<Rightarrow> char" where
  "hex_digit n = ''0123456789abcdef'' ! n"

definition hex_lower :: "string \<Rightarrow> string" where
  "hex_lower bytes = concat (map (\<lambda>b. [hex_digit (of_char b div 16), hex_digit (of_char b mod 16)]) bytes)"

text \<open>
  The bytes of the executable are given by \<open>be_exe_bytes\<close>, which is \<open>None\<close> when it cannot be found,
  opened or read.
\<close>

definition current_exe_sha256 :: "build_env \<Rightarrow> string option" where
  "current_exe_sha256 be =
     map_option (\<lambda>bytes. ''sha256:'' @ hex_lower (be_sha256 be bytes)) (be_exe_bytes be)"

section \<open>Data\<close>

record SendRequest =
  sd_text :: string
  sd_idempotency_key :: "string option"
  sd_server :: "string option"
  sd_embeddings :: "MessageEmbedding list"
  sd_generate_for_spaces :: "string list"
  sd_generated_embeddings_override_supplied :: bool

record ServerSendResultEnvelope =
  er_server :: string
  er_sent :: bool
  er_subspace_message_id :: "string option"
  er_idempotency_key :: "string option"
  er_error :: "string option"

record ErrorShape =
  ee_code :: string
  ee_message :: string

record ErrorBody =
  eb_ok :: bool
  eb_error :: ErrorShape
  eb_results :: "ServerSendResultEnvelope list"

record HealthBody =
  hb_ok :: bool
  hb_gateway_state :: string
  hb_wake_session_key :: string
  hb_build_info :: BuildInfo
  hb_servers :: "ServerHealth list"

record SendBody =
  sb_ok :: bool
  sb_results :: "ServerSendResultEnvelope list"

record SendRouteError =
  re_status :: nat
  re_code :: string
  re_message :: string
  re_results :: "ServerSendResultEnvelope list"

datatype body =
    BodyHealth HealthBody
  | BodySend SendBody
  | BodySetup SetupResult
  | BodyError ErrorBody

record ipc_request =
  ir_method :: string
  ir_path :: string
  ir_body :: "string result"

record ipc_response =
  rs_status :: nat
  rs_body :: body

text \<open>
  The outcome of \<open>ServerHandle::send_message\<close>: the command channel is closed, the reply end is
  dropped, or the manager replies.
\<close>

datatype send_fate = ChannelClosed | ReplyDropped | Replied "OutboundSendResult result"

type_synonym send_log = "(server_manager \<times> send_command) list"

record ipc_env =
  ix_setup :: setup_env
  ix_time :: time_lib
  ix_now :: int
  ix_build :: build_env
  ix_parse_send :: "string \<Rightarrow> SendRequest result"
  ix_parse_setup :: "string \<Rightarrow> SetupRequest result"
  ix_fate :: "nat \<Rightarrow> send_fate"

record ipc_world =
  iw_host :: host
  iw_http :: http
  iw_live :: LiveSetupState
  iw_log :: send_log

section \<open>The send router\<close>

definition invalid_request :: "string \<Rightarrow> SendRouteError" where
  "invalid_request msg = \<lparr>re_status = 400, re_code = ''invalid_request'', re_message = msg, re_results = []\<rparr>"

definition unknown_server :: SendRouteError where
  "unknown_server =
     \<lparr>re_status = 404, re_code = ''unknown_server'', re_message = ''server not configured'', re_results = []\<rparr>"

definition subspace_unavailable :: "string \<Rightarrow> SendRouteError" where
  "subspace_unavailable msg =
     \<lparr>re_status = 503, re_code = ''subspace_unavailable'', re_message = msg, re_results = []\<rparr>"

definition mixed_failure :: "ServerSendResultEnvelope list \<Rightarrow> SendRouteError" where
  "mixed_failure results =
     \<lparr>re_status = 503, re_code = ''subspace_unavailable'',
      re_message = ''one or more targeted Subspace servers failed'', re_results = results\<rparr>"

fun send_message :: "send_fate \<Rightarrow> OutboundSendResult result" where
  "send_message ChannelClosed = Inl ''subspace server command channel closed''"
| "send_message ReplyDropped = Inl ''subspace server reply channel closed''"
| "send_message (Replied r) = r"

fun envelope :: "string \<Rightarrow> string option \<Rightarrow> OutboundSendResult result \<Rightarrow> ServerSendResultEnvelope" where
  "envelope target key (Inr result) =
     \<lparr>er_server = os_server result, er_sent = True,
      er_subspace_message_id = os_subspace_message_id result,
      er_idempotency_key = Some (os_idempotency_key result), er_error = None\<rparr>"
| "envelope target key (Inl err) =
     \<lparr>er_server = target, er_sent = False, er_subspace_message_id = None,
      er_idempotency_key = key, er_error = Some err\<rparr>"

definition router_targets :: "config_env \<Rightarrow> DaemonStatus \<Rightarrow> (string, server_manager) omap
    \<Rightarrow> string option \<Rightarrow> SendRouteError + string list" where
  "router_targets ce snapshot handles server =
     (case server of
        Some raw \<Rightarrow>
          (case canonicalize_base_url ce raw of
             Inl err \<Rightarrow> Inl (invalid_request (''invalid server url: '' @ err))
           | Inr canonical \<Rightarrow>
               if omap_get handles canonical = None then Inl unknown_server else Inr [canonical])
      | None \<Rightarrow>
          Inr (map sh_server
            (filter (\<lambda>s. sh_subspace_state s = ''live'') (servers_snapshot snapshot))))"

text \<open>The loop over the targets, with the log and the results so far.\<close>

fun router_loop :: "(nat \<Rightarrow> send_fate) \<Rightarrow> (nat \<Rightarrow> send_command) \<Rightarrow> (string, server_manager) omap
    \<Rightarrow> string list \<Rightarrow> ServerSendResultEnvelope list \<Rightarrow> send_log
    \<Rightarrow> (SendRouteError + ServerSendResultEnvelope list) \<times> send_log" where
  "router_loop fate command handles [] results sent = (Inr results, sent)"
| "router_loop fate command handles (target # rest) results sent =
     (case omap_get handles target of
        None \<Rightarrow> (Inl unknown_server, sent)
      | Some handle \<Rightarrow>
          let n = length sent; cmd = command n
          in router_loop fate command handles rest
               (results @ [envelope target (sm_idempotency_key cmd) (send_message (fate n))])
               (sent @ [(handle, cmd)]))"

definition router_send :: "config_env \<Rightarrow> (nat \<Rightarrow> send_fate) \<Rightarrow> DaemonStatus \<Rightarrow> (string, server_manager) omap
    \<Rightarrow> string \<Rightarrow> string option \<Rightarrow> string option \<Rightarrow> OutboundEmbeddingRequest \<Rightarrow> send_log
    \<Rightarrow> (SendRouteError + ServerSendResultEnvelope list) \<times> send_log" where
  "router_send ce fate snapshot handles msg key server embedding_request sent =
     (case router_targets ce snapshot handles server of
        Inl e \<Rightarrow> (Inl e, sent)
      | Inr targets \<Rightarrow>
          if targets = []
          then (Inl (subspace_unavailable ''no targeted Subspace server is live''), sent)
          else case find (\<lambda>t. server_state t snapshot \<noteq> Some ''live'') targets of
                 Some non_live \<Rightarrow>
                   (Inl (subspace_unavailable (''targeted Subspace server is not live: '' @ non_live)), sent)
               | None \<Rightarrow>
                   (case router_loop fate
                      (\<lambda>n. \<lparr>sm_text = msg, sm_idempotency_key = key,
                           sm_embedding_request = embedding_request, sm_reply = n\<rparr>)
                      handles targets [] sent of
                      (Inl e, sent') \<Rightarrow> (Inl e, sent')
                    | (Inr results, sent') \<Rightarrow>
                        (if list_all er_sent results then Inr results else Inl (mixed_failure results), sent')))"

section \<open>Requests\<close>

definition json_response :: "nat \<Rightarrow> body \<Rightarrow> ipc_response" where
  "json_response code b = \<lparr>rs_status = code, rs_body = b\<rparr>"

definition error_response :: "nat \<Rightarrow> string \<Rightarrow> string \<Rightarrow> ServerSendResultEnvelope list \<Rightarrow> ipc_response" where
  "error_response code err_code msg results =
     json_response code (BodyError \<lparr>eb_ok = False,
       eb_error = \<lparr>ee_code = err_code, ee_message = msg\<rparr>, eb_results = results\<rparr>)"

fun validate_supplied :: "MessageEmbedding list \<Rightarrow> unit result" where
  "validate_supplied [] = Inr ()"
| "validate_supplied (e # es) =
     (if trim (me_space_id e) = [] then Inl ''embeddings[].space_id must not be empty''
      else if me_vector e = [] then Inl (''embeddings['' @ me_space_id e @ ''].vector must not be empty'')
      else validate_supplied es)"

definition validate_embedding_request :: "SendRequest \<Rightarrow> unit result" where
  "validate_embedding_request payload =
     rbind (validate_supplied (sd_embeddings payload)) (\<lambda>_.
     validate_generated_spaces (sd_generate_for_spaces payload))"

definition handle_health :: "ipc_env \<Rightarrow> ipc_world \<Rightarrow> ipc_response" where
  "handle_health ix w =
     (let snapshot = lv_status (iw_live w)
      in json_response 200 (BodyHealth
           \<lparr>hb_ok = is_healthy (ix_time ix) (ix_now ix) snapshot,
            hb_gateway_state = st_gateway_state snapshot,
            hb_wake_session_key = st_wake_session_key snapshot,
            hb_build_info = build_info_current (ix_build ix) (current_exe_sha256 (ix_build ix)),
            hb_servers = servers_snapshot snapshot\<rparr>))"

definition handle_messages :: "ipc_env \<Rightarrow> string \<Rightarrow> ipc_world \<Rightarrow> ipc_response \<times> ipc_world" where
  "handle_messages ix bytes w =
     (case ix_parse_send ix bytes of
        Inl err \<Rightarrow> (error_response 400 ''invalid_request'' (''invalid json: '' @ err) [], w)
      | Inr payload \<Rightarrow>
          if trim (sd_text payload) = []
          then (error_response 400 ''invalid_request'' ''text required'' [], w)
          else case validate_embedding_request payload of
                 Inl err \<Rightarrow> (error_response 400 ''invalid_request'' err [], w)
               | Inr _ \<Rightarrow>
                   (case router_send (config_at (ix_setup ix) (iw_host w)) (ix_fate ix)
                      (lv_status (iw_live w)) (lv_server_handles (iw_live w))
                      (sd_text payload) (sd_idempotency_key payload) (sd_server payload)
                      \<lparr>oe_embeddings = sd_embeddings payload,
                       oe_generate_for_spaces = sd_generate_for_spaces payload,
                       oe_generated_embeddings_override_supplied =
                         sd_generated_embeddings_override_supplied payload\<rparr>
                      (iw_log w) of
                      (Inr results, sent') \<Rightarrow>
                        (json_response 200 (BodySend \<lparr>sb_ok = True, sb_results = results\<rparr>),
                         w\<lparr>iw_log := sent'\<rparr>)
                    | (Inl err, sent') \<Rightarrow>
                        (error_response (re_status err) (re_code err) (re_message err) (re_results err),
                         w\<lparr>iw_log := sent'\<rparr>)))"

definition handle_setup :: "ipc_env \<Rightarrow> string \<Rightarrow> ipc_world \<Rightarrow> ipc_response \<times> ipc_world" where
  "handle_setup ix bytes w =
     (case ix_parse_setup ix bytes of
        Inl err \<Rightarrow> (error_response 400 ''invalid_request'' (''invalid json: '' @ err) [], w)
      | Inr payload \<Rightarrow>
          let (r, sw) = perform_setup (ix_setup ix) payload
                \<lparr>sw_host = iw_host w, sw_http = iw_http w, sw_runtime = Some (iw_live w)\<rparr>;
              w' = w\<lparr>iw_host := sw_host sw, iw_http := sw_http sw,
                     iw_live := unwrap_or (iw_live w) (sw_runtime sw)\<rparr>
          in case r of
               Inr result \<Rightarrow> (json_response 200 (BodySetup result), w')
             | Inl err \<Rightarrow> (error_response 400 ''invalid_request'' err [], w'))"

definition handle_request :: "ipc_env \<Rightarrow> ipc_request \<Rightarrow> ipc_world \<Rightarrow> ipc_response result \<times> ipc_world" where
  "handle_request ix req w =
     (if ir_method req = ''GET'' \<and> ir_path req = ''/healthz'' then (Inr (handle_health ix w), w)
      else if ir_method req = ''POST'' \<and> ir_path req = ''/v1/messages''
      then (case ir_body req of
              Inl e \<Rightarrow> (Inl e, w)
            | Inr bytes \<Rightarrow> let (response, w') = handle_messages ix bytes w in (Inr response, w'))
      else if ir_method req = ''POST'' \<and> ir_path req = ''/v1/setup''
      then (case ir_body req of
              Inl e \<Rightarrow> (Inl e, w)
            | Inr bytes \<Rightarrow> let (response, w') = handle_setup ix bytes w in (Inr response, w'))
      else (Inr (error_response 404 ''not_found'' ''not found'' []), w))"

end
