(* ===== verification/Gateway_Device.thy ===== *)
theory Gateway_Device
  imports Subspace_Identity
begin

text \<open>
  The device the daemon presents to the gateway: its key pair
  (\<^verbatim>\<open>src/src/gateway/device_identity.rs\<close>), the tokens the gateway issued to it
  (\<^verbatim>\<open>src/src/gateway/device_auth_store.rs\<close>), and the frames of the gateway protocol with the payload
  that is signed (\<^verbatim>\<open>src/src/gateway/protocol.rs\<close>).

  PEM, Base64, SHA-256, signatures and the JSON text of the token file are library code, the
  fields of \<open>gateway_lib\<close>.
\<close>

section \<open>Tokens\<close>

record DeviceAuthEntry =
  de_token :: string
  de_role :: string
  de_scopes :: "string list"
  de_updated_at_ms :: u64

record DeviceAuthEntryWire =
  dw_token :: string
  dw_role :: string
  dw_scopes :: "string list"
  dw_updated_at_ms :: u64

record DeviceAuthFile =
  df_version :: "8 word"
  df_device_id :: string
  df_tokens :: "(string, DeviceAuthEntryWire) omap"

record gateway_lib =
  gl_parse_auth :: "string \<Rightarrow> DeviceAuthFile result"
  gl_print_auth :: "DeviceAuthFile \<Rightarrow> string"
  gl_private_of_pem :: "string \<Rightarrow> string result"
  gl_public_of_pem :: "string \<Rightarrow> string result"
  gl_pem_of_private :: "string \<Rightarrow> string result"
  gl_pem_of_public :: "string \<Rightarrow> string result"
  gl_verifying_key :: "string \<Rightarrow> string"
  gl_sign :: "string \<Rightarrow> string \<Rightarrow> string"
  gl_base64url :: "string \<Rightarrow> string"
  gl_sha256 :: "string \<Rightarrow> string"

definition entry_of_wire :: "DeviceAuthEntryWire \<Rightarrow> DeviceAuthEntry" where
  "entry_of_wire w =
     \<lparr>de_token = dw_token w, de_role = dw_role w, de_scopes = dw_scopes w,
      de_updated_at_ms = dw_updated_at_ms w\<rparr>"

definition load_token :: "gateway_lib \<Rightarrow> host \<Rightarrow> string \<Rightarrow> string \<Rightarrow> string \<Rightarrow> DeviceAuthEntry option" where
  "load_token lib h path device_id role =
     (case rbind (fs_read (ho_fs h) path) (gl_parse_auth lib) of
        Inl _ \<Rightarrow> None
      | Inr parsed \<Rightarrow>
          if df_device_id parsed \<noteq> device_id then None
          else map_option entry_of_wire (omap_get (df_tokens parsed) role))"

definition new_auth_file :: "string \<Rightarrow> DeviceAuthFile" where
  "new_auth_file device_id = \<lparr>df_version = 1, df_device_id = device_id, df_tokens = []\<rparr>"

definition read_auth_file :: "gateway_lib \<Rightarrow> string \<Rightarrow> string \<Rightarrow> (host, DeviceAuthFile) op" where
  "read_auth_file lib path device_id h =
     (if fs_exists (ho_fs h) path
      then (rbind (fs_read (ho_fs h) path) (\<lambda>raw.
              Inr (case gl_parse_auth lib raw of Inl _ \<Rightarrow> new_auth_file device_id | Inr file \<Rightarrow> file)), h)
      else (Inr (new_auth_file device_id), h))"

definition device_scopes :: "string list \<Rightarrow> string list" where
  "device_scopes scopes = remdups_adj (sort (filter (\<lambda>s. s \<noteq> []) (map trim scopes)))"

text \<open>The argument \<open>now\<close> is \<open>current_time_ms()\<close>.\<close>

definition store_token :: "gateway_lib \<Rightarrow> u64 \<Rightarrow> string \<Rightarrow> string \<Rightarrow> string \<Rightarrow> string \<Rightarrow> string list
    \<Rightarrow> (host, unit) op" where
  "store_token lib now path device_id role token scopes =
     andthen (read_auth_file lib path device_id) (\<lambda>file.
     persist_json path (gl_print_auth lib
       (file\<lparr>df_device_id := device_id,
             df_tokens := omap_insert role
               \<lparr>dw_token = token, dw_role = role, dw_scopes = device_scopes scopes,
                dw_updated_at_ms = now\<rparr> (df_tokens file)\<rparr>)))"

definition clear_token :: "gateway_lib \<Rightarrow> string \<Rightarrow> string \<Rightarrow> string \<Rightarrow> (host, unit) op" where
  "clear_token lib path device_id role h =
     (if \<not> fs_exists (ho_fs h) path then (Inr (), h)
      else andthen (lift (rbind (fs_read (ho_fs h) path) (gl_parse_auth lib))) (\<lambda>parsed.
           if df_device_id parsed \<noteq> device_id then ret ()
           else persist_json path (gl_print_auth lib
                  (parsed\<lparr>df_tokens := omap_remove role (df_tokens parsed)\<rparr>))) h)"

section \<open>Key pair\<close>

record GatewayDeviceIdentity =
  gd_device_id :: string
  gd_public_key_raw_base64url :: string
  gd_signing_key :: string

definition hex_byte :: "char \<Rightarrow> string" where
  "hex_byte c = (let n = of_char c :: nat
                 in [''0123456789abcdef'' ! (n div 16), ''0123456789abcdef'' ! (n mod 16)])"

definition hex :: "string \<Rightarrow> string" where
  "hex bytes = concat (map hex_byte bytes)"

definition fingerprint :: "gateway_lib \<Rightarrow> string \<Rightarrow> string" where
  "fingerprint lib public_key = hex (gl_sha256 lib public_key)"

definition device_of_keys :: "gateway_lib \<Rightarrow> string \<Rightarrow> string \<Rightarrow> GatewayDeviceIdentity" where
  "device_of_keys lib signing_key verifying_key =
     \<lparr>gd_device_id = fingerprint lib verifying_key,
      gd_public_key_raw_base64url = gl_base64url lib verifying_key, gd_signing_key = signing_key\<rparr>"

definition create_parent :: "string \<Rightarrow> (host, unit) op" where
  "create_parent path h =
     (case path_parent path of
        None \<Rightarrow> (Inr (), h)
      | Some d \<Rightarrow> (case ho_mkdir h d of
           Inl e \<Rightarrow> (Inl e, h)
         | Inr _ \<Rightarrow> (Inr (), h\<lparr>ho_fs := fs_exec (CreateDirAll d) (ho_fs h)\<rparr>)))"

definition fs_write :: "string \<Rightarrow> string \<Rightarrow> (host, unit) op" where
  "fs_write path text h =
     (case ho_write h path of
        Inl e \<Rightarrow> (Inl e, h)
      | Inr _ \<Rightarrow> (Inr (), h\<lparr>ho_fs := fs_exec (WriteAll path text) (ho_fs h)\<rparr>))"

definition set_permissions :: "string \<Rightarrow> (host, unit) op" where
  "set_permissions path h = (ho_chmod h path, h)"

text \<open>
  The argument \<open>fresh\<close> is the generated key. The configured device id only decides about a
  warning in the log, so it is no argument here.
\<close>

definition load_device :: "gateway_lib \<Rightarrow> string \<Rightarrow> string \<Rightarrow> (host, GatewayDeviceIdentity) op" where
  "load_device lib private_key_path public_key_path h =
     (rbind (with_context (''failed reading '' @ private_key_path) (fs_read (ho_fs h) private_key_path)) (\<lambda>private_pem.
      rbind (with_context (''failed reading '' @ public_key_path) (fs_read (ho_fs h) public_key_path)) (\<lambda>public_pem.
      rbind (gl_private_of_pem lib private_pem) (\<lambda>signing_key.
      rbind (gl_public_of_pem lib public_pem) (\<lambda>verifying_key.
      Inr (device_of_keys lib signing_key verifying_key))))), h)"

definition load_or_create_device :: "gateway_lib \<Rightarrow> string \<Rightarrow> string \<Rightarrow> string
    \<Rightarrow> (host, GatewayDeviceIdentity) op" where
  "load_or_create_device lib fresh private_key_path public_key_path h =
     (if fs_exists (ho_fs h) private_key_path \<and> fs_exists (ho_fs h) public_key_path
      then load_device lib private_key_path public_key_path h
      else andthen (create_parent private_key_path) (\<lambda>_.
           andthen (create_parent public_key_path) (\<lambda>_.
           andthen (lift (gl_pem_of_private lib fresh)) (\<lambda>private_pem.
           andthen (lift (gl_pem_of_public lib (gl_verifying_key lib fresh))) (\<lambda>public_pem.
           andthen (fs_write private_key_path private_pem) (\<lambda>_.
           andthen (fs_write public_key_path public_pem) (\<lambda>_.
           andthen (set_permissions private_key_path) (\<lambda>_.
           andthen (set_permissions public_key_path) (\<lambda>_.
           ret (device_of_keys lib fresh (gl_verifying_key lib fresh)))))))))) h)"

definition sign_payload :: "gateway_lib \<Rightarrow> GatewayDeviceIdentity \<Rightarrow> string \<Rightarrow> string" where
  "sign_payload lib d payload = gl_base64url lib (gl_sign lib (gd_signing_key d) payload)"

section \<open>Protocol\<close>

definition protocol_version :: u64 where
  "protocol_version = 4"

record ConnectClient =
  cc_id :: string
  cc_display_name :: "string option"
  cc_version :: string
  cc_platform :: string
  cc_device_family :: "string option"
  cc_mode :: string
  cc_instance_id :: "string option"

record DeviceAuthPayload =
  dp_id :: string
  dp_public_key :: string
  dp_signature :: string
  dp_signed_at :: u64
  dp_nonce :: string

record AuthPayload =
  ap_token :: "string option"
  ap_bootstrap_token :: "string option"
  ap_device_token :: "string option"
  ap_password :: "string option"

record ConnectParams =
  cn_min_protocol :: u64
  cn_max_protocol :: u64
  cn_client :: ConnectClient
  cn_caps :: "string list"
  cn_commands :: "string list option"
  cn_permissions :: "json option"
  cn_path_env :: "string option"
  cn_role :: string
  cn_scopes :: "string list"
  cn_device :: "DeviceAuthPayload option"
  cn_auth :: "AuthPayload option"

record 'p RequestFrame =
  rq_type :: string
  rq_id :: string
  rq_method :: string
  rq_params :: "'p option"

record GatewayError =
  ge_code :: "string option"
  ge_message :: string
  ge_details :: "json option"

record ResponseFrame =
  rf_type :: string
  rf_id :: string
  rf_ok :: bool
  rf_payload :: json
  rf_error :: "GatewayError option"

record EventFrame =
  ef_type :: string
  ef_event :: string
  ef_payload :: json
  ef_seq :: "u64 option"

record HelloAuth =
  ha_device_token :: string
  ha_role :: string
  ha_scopes :: "string list"

record HelloPolicy =
  hp_tick_interval_ms :: u64

record HelloOk =
  hk_type :: string
  hk_protocol :: u64
  hk_server :: "json option"
  hk_features :: "json option"
  hk_snapshot :: "json option"
  hk_auth :: "HelloAuth option"
  hk_policy :: HelloPolicy

text \<open>
  The platform is \<open>std::env::consts::OS\<close> and the device family is absent, both ASCII, for which
  \<open>to_lowercase\<close> is the lowering of ASCII letters.
\<close>

definition build_device_auth_payload_v3 :: "string \<Rightarrow> string \<Rightarrow> string \<Rightarrow> string \<Rightarrow> string list \<Rightarrow> u64
    \<Rightarrow> string option \<Rightarrow> string \<Rightarrow> string \<Rightarrow> string option \<Rightarrow> string" where
  "build_device_auth_payload_v3 device_id client_id client_mode role scopes signed_at_ms token nonce
     platform device_family =
     join ''|'' [''v3'', device_id, client_id, client_mode, role, join '','' scopes,
       digit_string (unat signed_at_ms), unwrap_or [] token, nonce,
       to_ascii_lowercase (trim platform), to_ascii_lowercase (trim (unwrap_or [] device_family))]"

section \<open>The token file\<close>

lemma read_auth_file_pure: "read_auth_file lib path device_id h = (r, h') \<Longrightarrow> h' = h"
  by (auto simp: read_auth_file_def split: if_splits)

lemma load_token_file:
  assumes "ho_fs h path = Some (RegularFile (Inr text))" and "gl_parse_auth lib text = Inr stored"
  shows "load_token lib h path device_id role =
    (if df_device_id stored \<noteq> device_id then None
     else map_option entry_of_wire (omap_get (df_tokens stored) role))"
  using assms by (simp add: load_token_def fs_read_def)

lemma store_token_file:
  assumes run: "store_token lib now path device_id role token scopes h = (Inr u, h')"
    and tmp: "with_extension path ''tmp'' \<noteq> path"
  obtains stored where "read_auth_file lib path device_id h = (Inr stored, h)"
    and "ho_fs h' path = Some (RegularFile (Inr (gl_print_auth lib
       (stored\<lparr>df_device_id := device_id,
             df_tokens := omap_insert role
               \<lparr>dw_token = token, dw_role = role, dw_scopes = device_scopes scopes,
                dw_updated_at_ms = now\<rparr> (df_tokens stored)\<rparr>))))"
proof -
  from run obtain stored h0 where "read_auth_file lib path device_id h = (Inr stored, h0)"
    and "persist_json path (gl_print_auth lib
       (stored\<lparr>df_device_id := device_id,
             df_tokens := omap_insert role
               \<lparr>dw_token = token, dw_role = role, dw_scopes = device_scopes scopes,
                dw_updated_at_ms = now\<rparr> (df_tokens stored)\<rparr>)) h0 = (Inr u, h')"
    by (auto simp: store_token_def andthen_Inr_iff)
  with read_auth_file_pure persist_json_read [OF _ tmp] that show ?thesis by metis
qed

text \<open>What every role has after a token is stored, for the device of the call and for others.\<close>

lemma load_after_store:
  assumes run: "store_token lib now path device_id role token scopes h = (Inr u, h')"
    and tmp: "with_extension path ''tmp'' \<noteq> path"
    and json: "\<forall>f. gl_parse_auth lib (gl_print_auth lib f) = Inr f"
  obtains stored where "read_auth_file lib path device_id h = (Inr stored, h)"
    and "load_token lib h' path d r =
      (if d \<noteq> device_id then None
       else if r = role
       then Some \<lparr>de_token = token, de_role = role, de_scopes = device_scopes scopes, de_updated_at_ms = now\<rparr>
       else map_option entry_of_wire (omap_get (df_tokens stored) r))"
proof -
  from store_token_file [OF run tmp] obtain stored where
    stored: "read_auth_file lib path device_id h = (Inr stored, h)"
    and written: "ho_fs h' path = Some (RegularFile (Inr (gl_print_auth lib
       (stored\<lparr>df_device_id := device_id,
             df_tokens := omap_insert role
               \<lparr>dw_token = token, dw_role = role, dw_scopes = device_scopes scopes,
                dw_updated_at_ms = now\<rparr> (df_tokens stored)\<rparr>))))" .
  from load_token_file [OF written] json show ?thesis
    by (intro that [OF stored]) (auto simp: entry_of_wire_def omap.get_ins)
qed

text \<open>The other entries are those the file held before, whatever device it was labelled with.\<close>

lemma read_auth_file_entries:
  assumes "read_auth_file lib path device_id h = (Inr stored, h)"
  shows "map_option entry_of_wire (omap_get (df_tokens stored) r) = Some entry
    \<longleftrightarrow> (\<exists>d. load_token lib h path d r = Some entry)"
proof (cases "rbind (fs_read (ho_fs h) path) (gl_parse_auth lib)")
  case (Inr parsed)
  with assms have "stored = parsed"
    by (auto simp: read_auth_file_def rbind_Inr_iff fs_read_def fs_exists_def split: if_splits option.splits)
  with Inr show ?thesis by (simp add: load_token_def)
next
  case (Inl e)
  with assms have "df_tokens stored = []"
    by (cases "fs_read (ho_fs h) path") (auto simp: read_auth_file_def new_auth_file_def split: if_splits sum.splits)
  with Inl show ?thesis by (simp add: load_token_def omap_get_def)
qed

lemma clear_token_load:
  assumes run: "clear_token lib path device_id role h = (Inr u, h')"
    and tmp: "with_extension path ''tmp'' \<noteq> path"
    and json: "\<forall>f. gl_parse_auth lib (gl_print_auth lib f) = Inr f"
  shows "load_token lib h' path d r = (if d = device_id \<and> r = role then None else load_token lib h path d r)"
proof (cases "fs_exists (ho_fs h) path")
  case False
  with run have "h' = h" by (simp add: clear_token_def)
  with False show ?thesis by (simp add: load_token_def fs_read_def fs_exists_def)
next
  case True
  with run obtain stored where stored: "rbind (fs_read (ho_fs h) path) (gl_parse_auth lib) = Inr stored"
    and cont: "(if df_device_id stored \<noteq> device_id then ret ()
           else persist_json path (gl_print_auth lib
                  (stored\<lparr>df_tokens := omap_remove role (df_tokens stored)\<rparr>))) h = (Inr u, h')"
    by (auto simp: clear_token_def andthen_Inr_iff lift_def)
  show ?thesis
  proof (cases "df_device_id stored = device_id")
    case True
    with cont have "persist_json path (gl_print_auth lib
        (stored\<lparr>df_tokens := omap_remove role (df_tokens stored)\<rparr>)) h = (Inr u, h')" by simp
    from load_token_file [OF persist_json_read [OF this tmp]] json stored True show ?thesis
      by (simp add: load_token_def omap.get_rem)
  qed (use cont stored in \<open>simp add: ret_def load_token_def\<close>)
qed

section \<open>The key files\<close>

lemma create_device_files:
  assumes run: "load_or_create_device lib fresh priv pub h = (Inr d, h')" and distinct: "priv \<noteq> pub"
    and missing: "\<not> (fs_exists (ho_fs h) priv \<and> fs_exists (ho_fs h) pub)"
  obtains private_pem public_pem where "gl_pem_of_private lib fresh = Inr private_pem"
    and "gl_pem_of_public lib (gl_verifying_key lib fresh) = Inr public_pem"
    and "ho_fs h' priv = Some (RegularFile (Inr private_pem))"
    and "ho_fs h' pub = Some (RegularFile (Inr public_pem))"
    and "d = device_of_keys lib fresh (gl_verifying_key lib fresh)"
proof -
  from run missing obtain private_pem public_pem h1 h2 h3 h4 h5 where
    pems: "gl_pem_of_private lib fresh = Inr private_pem"
      "gl_pem_of_public lib (gl_verifying_key lib fresh) = Inr public_pem"
    and files: "fs_write priv private_pem h1 = (Inr (), h2)" "fs_write pub public_pem h2 = (Inr (), h3)"
      "set_permissions priv h3 = (Inr (), h4)" "set_permissions pub h4 = (Inr (), h5)"
      "ret (device_of_keys lib fresh (gl_verifying_key lib fresh)) h5 = (Inr d, h')"
    by (auto simp: load_or_create_device_def andthen_Inr_iff lift_def split: if_splits)
  from files distinct show ?thesis
    by (intro that [OF pems]) (auto simp: fs_write_def set_permissions_def ret_def split: sum.splits)
qed

lemma load_device_of_files:
  assumes "ho_fs h priv = Some (RegularFile (Inr private_pem))" and "gl_private_of_pem lib private_pem = Inr sk"
    and "ho_fs h pub = Some (RegularFile (Inr public_pem))" and "gl_public_of_pem lib public_pem = Inr vk"
  shows "load_or_create_device lib fresh priv pub h = (Inr (device_of_keys lib sk vk), h)"
  using assms by (simp add: load_or_create_device_def load_device_def fs_exists_def fs_read_def)

section \<open>Properties\<close>

text \<open>
  Claim C31. The token store is a map from roles to tokens for one device: after a token is stored,
  loading it for that device and role yields the token, the role, the normalised scopes and the
  time; every other role of the device yields exactly the entry the file held for that role before
  (whichever device the file was for), and no other device is served; once the token is cleared it
  is not found any more, and every other role is served as before. The library's parser is assumed
  to read back what its printer wrote.
\<close>

theorem device_token_round_trip:
  assumes run: "store_token lib now path device_id role token scopes h = (Inr u, h')"
    and tmp: "with_extension path ''tmp'' \<noteq> path"
    and json: "\<forall>f. gl_parse_auth lib (gl_print_auth lib f) = Inr f"
  shows "load_token lib h' path device_id role =
      Some \<lparr>de_token = token, de_role = role, de_scopes = device_scopes scopes, de_updated_at_ms = now\<rparr>
    \<and> (\<forall>r entry. r \<noteq> role \<longrightarrow>
         (load_token lib h' path device_id r = Some entry \<longleftrightarrow> (\<exists>d. load_token lib h path d r = Some entry)))
    \<and> (\<forall>d r. d \<noteq> device_id \<longrightarrow> load_token lib h' path d r = None)
    \<and> (\<forall>v h''. clear_token lib path device_id role h' = (Inr v, h'') \<longrightarrow>
         (\<forall>d r. load_token lib h'' path d r
            = (if d = device_id \<and> r = role then None else load_token lib h' path d r)))"
proof -
  have "load_token lib h' path device_id r = Some entry \<longleftrightarrow> (\<exists>d. load_token lib h path d r = Some entry)"
    if "r \<noteq> role" for r entry
    using load_after_store [OF assms, of device_id r] that read_auth_file_entries by (metis (no_types, lifting))
  moreover have "load_token lib h' path d r = None" if "d \<noteq> device_id" for d r
    using load_after_store [OF assms, of d r] that by metis
  moreover have "load_token lib h' path device_id role =
      Some \<lparr>de_token = token, de_role = role, de_scopes = device_scopes scopes, de_updated_at_ms = now\<rparr>"
    using load_after_store [OF assms, of device_id role] by (metis (no_types, lifting))
  ultimately show ?thesis using clear_token_load [OF _ tmp json] by simp
qed

text \<open>A token file in the length-prefixed encoding.\<close>

definition demo_auth_file :: DeviceAuthFile where
  "demo_auth_file =
     \<lparr>df_version = 1, df_device_id = ''old'',
      df_tokens = [(''operator'', \<lparr>dw_token = ''secret'', dw_role = ''operator'', dw_scopes = [], dw_updated_at_ms = 1\<rparr>)]\<rparr>"

definition put_list :: "('a \<Rightarrow> string) \<Rightarrow> 'a list \<Rightarrow> string" where
  "put_list p xs = concat (map (\<lambda>x. CHR ''+'' # put_str (p x)) xs)"

fun get_items :: "nat \<Rightarrow> (string \<Rightarrow> 'a) \<Rightarrow> string \<Rightarrow> 'a list" where
  "get_items 0 g s = []"
| "get_items (Suc n) g [] = []"
| "get_items (Suc n) g (c # s) = (let (a, rest) = get_str s in g a # get_items n g rest)"

definition get_list :: "(string \<Rightarrow> 'a) \<Rightarrow> string \<Rightarrow> 'a list" where
  "get_list g s = get_items (length s) g s"

lemma get_put_items: "length xs \<le> n \<Longrightarrow> (\<And>x. g (p x) = x) \<Longrightarrow> get_items n g (put_list p xs) = xs"
proof (induction xs arbitrary: n)
  case Nil
  then show ?case by (cases n) (simp_all add: put_list_def)
next
  case (Cons x xs)
  then show ?case by (cases n) (auto simp: put_list_def)
qed

lemma get_put_list: "(\<And>x. g (p x) = x) \<Longrightarrow> get_list g (put_list p xs) = xs"
proof -
  have "length xs \<le> length (put_list p xs)" by (induction xs) (simp_all add: put_list_def)
  then show "(\<And>x. g (p x) = x) \<Longrightarrow> get_list g (put_list p xs) = xs"
    unfolding get_list_def by (rule get_put_items)
qed

definition put_word :: "'a::len word \<Rightarrow> string" where
  "put_word w = put_str (replicate (unat w) CHR ''x'')"

definition get_word :: "string \<Rightarrow> 'a::len word \<times> string" where
  "get_word s = (let (a, rest) = get_str s in (of_nat (length a), rest))"

lemma get_put_word [simp]: "get_word (put_word w @ rest) = (w, rest)"
  by (simp add: get_word_def put_word_def)

definition print_entry :: "string \<times> DeviceAuthEntryWire \<Rightarrow> string" where
  "print_entry e =
     put_str (fst e) @ put_str (dw_token (snd e)) @ put_str (dw_role (snd e))
     @ put_word (dw_updated_at_ms (snd e)) @ put_list (\<lambda>s. s) (dw_scopes (snd e))"

definition parse_entry :: "string \<Rightarrow> string \<times> DeviceAuthEntryWire" where
  "parse_entry s =
     (let (k, s1) = get_str s; (token, s2) = get_str s1; (role, s3) = get_str s2; (ms, s4) = get_word s3
      in (k, \<lparr>dw_token = token, dw_role = role, dw_scopes = get_list (\<lambda>s. s) s4, dw_updated_at_ms = ms\<rparr>))"

definition print_auth_file :: "DeviceAuthFile \<Rightarrow> string" where
  "print_auth_file f = put_word (df_version f) @ put_str (df_device_id f) @ put_list print_entry (df_tokens f)"

definition parse_auth_file :: "string \<Rightarrow> DeviceAuthFile result" where
  "parse_auth_file s =
     (let (v, s1) = get_word s; (d, s2) = get_str s1
      in Inr \<lparr>df_version = v, df_device_id = d, df_tokens = get_list parse_entry s2\<rparr>)"

lemma parse_print_entry: "parse_entry (print_entry e) = e"
  by (cases e) (simp add: parse_entry_def print_entry_def get_put_list)

lemma auth_file_round_trip: "parse_auth_file (print_auth_file f) = Inr f"
  by (simp add: parse_auth_file_def print_auth_file_def get_put_list parse_print_entry)

definition demo_gateway_lib :: gateway_lib where
  "demo_gateway_lib =
     \<lparr>gl_parse_auth = parse_auth_file, gl_print_auth = print_auth_file, gl_private_of_pem = Inr,
      gl_public_of_pem = Inr, gl_pem_of_private = Inr, gl_pem_of_public = Inr, gl_verifying_key = rev,
      gl_sign = (\<lambda>k p. k @ p), gl_base64url = (\<lambda>s. s), gl_sha256 = (\<lambda>s. s)\<rparr>"

lemma demo_lib_round_trip: "\<forall>f. gl_parse_auth demo_gateway_lib (gl_print_auth demo_gateway_lib f) = Inr f"
  by (simp add: demo_gateway_lib_def auth_file_round_trip)

definition demo_device_host :: host where
  "demo_device_host = demo_host\<lparr>ho_fs := [''/a.json'' \<mapsto> RegularFile (Inr (print_auth_file demo_auth_file))]\<rparr>"

lemma demo_store:
  "\<exists>h'. store_token demo_gateway_lib 7 ''/a.json'' ''new'' ''node'' ''t'' scopes demo_device_host = (Inr (), h')"
  by (simp add: store_token_def andthen_def read_auth_file_def demo_device_host_def demo_host_def
      fs_exists_def fs_read_def persist_json_def)

lemma demo_path_tmp: "with_extension ''/a.json'' ''tmp'' \<noteq> ''/a.json''"
  by code_simp

theorem device_token_round_trip_witness:
  "\<exists>h'. load_token demo_gateway_lib h' ''/a.json'' ''new'' ''node''
     = Some \<lparr>de_token = ''t'', de_role = ''node'', de_scopes = device_scopes [''b'', ''a''], de_updated_at_ms = 7\<rparr>
     \<and> load_token demo_gateway_lib h' ''/a.json'' ''new'' ''other'' = None
     \<and> load_token demo_gateway_lib h' ''/a.json'' ''old'' ''operator'' = None"
proof -
  obtain h' where "store_token demo_gateway_lib 7 ''/a.json'' ''new'' ''node'' ''t'' [''b'', ''a''] demo_device_host
      = (Inr (), h')"
    using demo_store by blast
  note stored = device_token_round_trip [OF this demo_path_tmp demo_lib_round_trip]
  have "load_token demo_gateway_lib demo_device_host ''/a.json'' d ''other'' = None" for d
    by (simp add: load_token_def demo_device_host_def fs_read_def demo_gateway_lib_def auth_file_round_trip
        demo_auth_file_def omap_get_def)
  then have "load_token demo_gateway_lib h' ''/a.json'' ''new'' ''other'' \<noteq> Some entry" for entry
    using stored by simp
  with stored show ?thesis by (intro exI [of _ h']) auto
qed

text \<open>
  Claim C36. A new device inherits the tokens of the old one: storing a token for a device keeps the
  entries of the file whatever device they were issued to and relabels the file, so that a token
  of the other device is then loaded for the new one.
\<close>

theorem foreign_tokens_relabelled:
  assumes run: "store_token lib now path new_id role token scopes h = (Inr u, h')"
    and tmp: "with_extension path ''tmp'' \<noteq> path"
    and json: "\<forall>f. gl_parse_auth lib (gl_print_auth lib f) = Inr f"
    and foreign: "load_token lib h path old_id other_role = Some entry" "old_id \<noteq> new_id" "other_role \<noteq> role"
  shows "load_token lib h path new_id other_role = None
    \<and> load_token lib h' path new_id other_role = Some entry"
proof -
  from foreign obtain raw stored where raw: "fs_read (ho_fs h) path = Inr raw" "gl_parse_auth lib raw = Inr stored"
    "df_device_id stored = old_id" "map_option entry_of_wire (omap_get (df_tokens stored) other_role) = Some entry"
    by (auto simp: load_token_def rbind_Inr_iff split: sum.splits if_splits)
  then have "fs_exists (ho_fs h) path" by (auto simp: fs_read_def fs_exists_def split: option.splits)
  with raw have "read_auth_file lib path new_id h = (Inr stored, h)" by (simp add: read_auth_file_def)
  moreover from load_after_store [OF run tmp json, of new_id other_role] obtain f where
    "read_auth_file lib path new_id h = (Inr f, h)"
    "load_token lib h' path new_id other_role = map_option entry_of_wire (omap_get (df_tokens f) other_role)"
    using foreign(3) by auto
  ultimately show ?thesis using raw foreign(2) by (simp add: load_token_def)
qed

theorem foreign_tokens_relabelled_witness:
  "\<exists>h'. store_token demo_gateway_lib 7 ''/a.json'' ''new'' ''node'' ''t'' [] demo_device_host = (Inr (), h')
     \<and> map_option de_token (load_token demo_gateway_lib h' ''/a.json'' ''new'' ''operator'') = Some ''secret''"
proof -
  obtain h' where run: "store_token demo_gateway_lib 7 ''/a.json'' ''new'' ''node'' ''t'' [] demo_device_host
      = (Inr (), h')"
    using demo_store by blast
  have "load_token demo_gateway_lib demo_device_host ''/a.json'' ''old'' ''operator'' =
    Some \<lparr>de_token = ''secret'', de_role = ''operator'', de_scopes = [], de_updated_at_ms = 1\<rparr>"
    by (simp add: load_token_def demo_device_host_def fs_read_def demo_gateway_lib_def auth_file_round_trip
        demo_auth_file_def omap_get_def entry_of_wire_def)
  from foreign_tokens_relabelled [OF run demo_path_tmp demo_lib_round_trip this] run show ?thesis by simp
qed

text \<open>
  The device identity survives restarts: what a successful \<open>load_or_create\<close> returned is
  found again by the next one, whatever key would be generated then, and nothing is written. The
  library is assumed to decode the PEM texts it encoded.
\<close>

theorem device_identity_stable:
  assumes first: "load_or_create_device lib fresh priv pub h = (Inr d, h')" and distinct: "priv \<noteq> pub"
    and private_read: "\<forall>k pem. gl_pem_of_private lib k = Inr pem \<longrightarrow> gl_private_of_pem lib pem = Inr k"
    and public_read: "\<forall>k pem. gl_pem_of_public lib k = Inr pem \<longrightarrow> gl_public_of_pem lib pem = Inr k"
  shows "load_or_create_device lib fresh' priv pub h' = (Inr d, h')"
proof (cases "fs_exists (ho_fs h) priv \<and> fs_exists (ho_fs h) pub")
  case True
  with first show ?thesis by (auto simp: load_or_create_device_def load_device_def)
next
  case False
  from create_device_files [OF first distinct False] obtain private_pem public_pem where
    pems: "gl_pem_of_private lib fresh = Inr private_pem"
      "gl_pem_of_public lib (gl_verifying_key lib fresh) = Inr public_pem"
    and files: "ho_fs h' priv = Some (RegularFile (Inr private_pem))"
      "ho_fs h' pub = Some (RegularFile (Inr public_pem))"
    and d: "d = device_of_keys lib fresh (gl_verifying_key lib fresh)" .
  from pems private_read public_read have "gl_private_of_pem lib private_pem = Inr fresh"
    "gl_public_of_pem lib public_pem = Inr (gl_verifying_key lib fresh)" by blast+
  from load_device_of_files [OF files(1) this(1) files(2) this(2)] d show ?thesis by simp
qed

theorem device_identity_stable_witness:
  "\<exists>d h'. load_or_create_device demo_gateway_lib demo_key ''/k'' ''/p'' demo_host = (Inr d, h')
     \<and> load_or_create_device demo_gateway_lib [] ''/k'' ''/p'' h' = (Inr d, h')"
proof -
  have par: "path_parent ''/k'' = Some ''/''" "path_parent ''/p'' = Some ''/''" by code_simp+
  obtain d h' where run: "load_or_create_device demo_gateway_lib demo_key ''/k'' ''/p'' demo_host = (Inr d, h')"
    by (simp add: load_or_create_device_def andthen_def lift_def ret_def create_parent_def fs_write_def
        set_permissions_def demo_host_def fs_exists_def demo_gateway_lib_def par)
  have "load_or_create_device demo_gateway_lib [] ''/k'' ''/p'' h' = (Inr d, h')"
    by (rule device_identity_stable [OF run]) (simp_all add: demo_gateway_lib_def)
  with run show ?thesis by blast
qed

end
