(* ===== verification/State_Lock.thy ===== *)
theory State_Lock
  imports Gateway_Device
begin

text \<open>
  The lock on the state directory, \<^verbatim>\<open>src/src/state_lock.rs\<close>: an exclusive advisory lock on a file,
  held as long as the guard lives. The operating system keeps the set of locked paths; locking fails
  without waiting when another open file holds the lock, and may fail for other reasons.
\<close>

record lock_host =
  lk_host :: host
  lk_held :: "string set"
  lk_fault :: "string \<Rightarrow> string option"

datatype lock_answer = LockGranted | LockWouldBlock | LockFailed string

definition try_lock_exclusive :: "string \<Rightarrow> lock_host \<Rightarrow> lock_answer" where
  "try_lock_exclusive path w =
     (case lk_fault w path of
        Some e \<Rightarrow> LockFailed e
      | None \<Rightarrow> if path \<in> lk_held w then LockWouldBlock else LockGranted)"

text \<open>\<open>OpenOptions\<close> with \<open>create\<close>: a missing file is created, an existing one is left as it is.\<close>

definition open_or_create :: "string \<Rightarrow> (host, unit) op" where
  "open_or_create path h =
     (case ho_write h path of
        Inl e \<Rightarrow> (Inl e, h)
      | Inr _ \<Rightarrow> (Inr (),
          if fs_exists (ho_fs h) path then h else h\<lparr>ho_fs := fs_exec (CreateFile path) (ho_fs h)\<rparr>))"

definition open_lock_file :: "string \<Rightarrow> (lock_host, unit) op" where
  "open_lock_file path w =
     (let (r, h) = andthen (create_parent path) (\<lambda>_ h.
            let (opened, h') = open_or_create path h
            in (with_context (''failed opening state lock '' @ path) opened, h')) (lk_host w)
      in (r, w\<lparr>lk_host := h\<rparr>))"

definition acquire :: "string \<Rightarrow> (lock_host, unit) op" where
  "acquire path =
     andthen (open_lock_file path) (\<lambda>_ w.
     case try_lock_exclusive path w of
       LockGranted \<Rightarrow> (Inr (), w\<lparr>lk_held := insert path (lk_held w)\<rparr>)
     | _ \<Rightarrow> (Inl (''failed acquiring state lock '' @ path), w))"

text \<open>The answer is whether the lock was acquired.\<close>

definition try_acquire :: "string \<Rightarrow> (lock_host, bool) op" where
  "try_acquire path =
     andthen (open_lock_file path) (\<lambda>_ w.
     case try_lock_exclusive path w of
       LockGranted \<Rightarrow> (Inr True, w\<lparr>lk_held := insert path (lk_held w)\<rparr>)
     | LockWouldBlock \<Rightarrow> (Inr False, w)
     | LockFailed e \<Rightarrow> (Inl (''failed acquiring state lock '' @ path), w))"

text \<open>The guard is dropped.\<close>

definition release :: "string \<Rightarrow> lock_host \<Rightarrow> lock_host" where
  "release path w = w\<lparr>lk_held := lk_held w - {path}\<rparr>"

section \<open>Properties\<close>

text \<open>Opening the lock file changes no file that exists.\<close>

lemma create_parent_files: "snd (create_parent path h) = h \<or> (\<exists>d. snd (create_parent path h) = h\<lparr>ho_fs := fs_exec (CreateDirAll d) (ho_fs h)\<rparr>)"
  by (auto simp: create_parent_def split: option.splits sum.splits)

lemma create_dir_keeps: "fs p \<noteq> None \<Longrightarrow> fs_exec (CreateDirAll d) fs p = fs p"
  by simp

lemma open_or_create_keeps: "ho_fs h p \<noteq> None \<Longrightarrow> ho_fs (snd (open_or_create path h)) p = ho_fs h p"
  by (auto simp: open_or_create_def fs_exists_def split: sum.splits)

lemma open_lock_file_keeps:
  assumes "ho_fs (lk_host w) p \<noteq> None"
  shows "ho_fs (lk_host (snd (open_lock_file path w))) p = ho_fs (lk_host w) p"
proof -
  have parent: "ho_fs (snd (create_parent path (lk_host w))) p = ho_fs (lk_host w) p"
    using create_parent_files [of path "lk_host w"] assms create_dir_keeps by fastforce
  then show ?thesis
    using open_or_create_keeps [of "snd (create_parent path (lk_host w))" p path] assms
    by (auto simp: open_lock_file_def andthen_def Let_def split: prod.splits sum.splits)
qed

lemma open_lock_file_frame:
  "lk_held (snd (open_lock_file path w)) = lk_held w" "lk_fault (snd (open_lock_file path w)) = lk_fault w"
  by (auto simp: open_lock_file_def Let_def split: prod.splits)

lemma acquire_held:
  assumes "path \<in> lk_held w"
  shows "\<not> is_ok (fst (acquire path w))" and "lk_held (snd (acquire path w)) = lk_held w"
    and "ho_fs (lk_host w) p \<noteq> None \<Longrightarrow> ho_fs (lk_host (snd (acquire path w))) p = ho_fs (lk_host w) p"
  using assms open_lock_file_frame [of path w] open_lock_file_keeps [of w p path]
  by (auto simp: acquire_def andthen_def try_lock_exclusive_def split: prod.splits sum.splits option.splits)

lemma try_acquire_held:
  assumes "path \<in> lk_held w"
  shows "fst (try_acquire path w) \<noteq> Inr True" and "lk_held (snd (try_acquire path w)) = lk_held w"
    and "ho_fs (lk_host w) p \<noteq> None \<Longrightarrow> ho_fs (lk_host (snd (try_acquire path w))) p = ho_fs (lk_host w) p"
  using assms open_lock_file_frame [of path w] open_lock_file_keeps [of w p path]
  by (auto simp: try_acquire_def andthen_def try_lock_exclusive_def split: prod.splits sum.splits option.splits)

lemma acquire_free:
  assumes "acquire path w = (Inr (), w')"
  shows "path \<notin> lk_held w" and "path \<in> lk_held w'"
  using assms open_lock_file_frame [of path w]
  by (auto simp: acquire_def andthen_def try_lock_exclusive_def
      split: prod.splits sum.splits option.splits if_splits)

end
