(* ===== verification/Launchd.thy ===== *)
theory Launchd
  imports Config_Ops
begin

text \<open>
  The property list that the daemon writes for launchd, \<^verbatim>\<open>src/src/launchd.rs\<close>: a shell loop that
  keeps the daemon in a tmux session and restarts it when its socket does not answer.

  The texts contain quotation marks and newlines; \<open>verbatim_text\<close> writes them as the characters
  caret (double quote), backtick (single quote) and tilde (newline), which do not occur otherwise.
\<close>

definition verbatim_text :: "string \<Rightarrow> string" where
  "verbatim_text = map (\<lambda>c. if c = CHR ''^'' then CHR 0x22 else if c = CHR ''`'' then CHR 0x27
     else if c = CHR ''~'' then CHR 0x0A else c)"

text \<open>\<open>str::replace\<close> of one character.\<close>

definition replace_char :: "char \<Rightarrow> string \<Rightarrow> string \<Rightarrow> string" where
  "replace_char c w s = concat (map (\<lambda>x. if x = c then w else [x]) s)"

definition xml_escape :: "string \<Rightarrow> string" where
  "xml_escape value =
     replace_char CHR ''>'' ''&gt;'' (replace_char CHR ''<'' ''&lt;'' (replace_char CHR ''&'' ''&amp;'' value))"

definition launchd_path :: "string \<Rightarrow> string" where
  "launchd_path home = home @ ''/.local/bin:/opt/homebrew/bin:/usr/local/bin:/usr/bin:/bin:/usr/sbin:/sbin''"

definition launchd_socket_path :: "string \<Rightarrow> string" where
  "launchd_socket_path home = path_join home ''.openclaw/subspace-daemon/daemon.sock''"

definition daemon_cmd :: "string \<Rightarrow> string \<Rightarrow> string \<Rightarrow> string" where
  "daemon_cmd binary_path config_path home =
     verbatim_text ''env -i HOME=`'' @ home @ verbatim_text ''` USER=`'' @ unwrap_or [] (file_name home)
     @ verbatim_text ''` PATH=`'' @ launchd_path home @ verbatim_text ''` `'' @ binary_path
     @ verbatim_text ''` serve --config `'' @ config_path @ verbatim_text ''` 2>&1 | tee -a `''
     @ path_join home ''.local/state/subspace-daemon/tmux-daemon.log'' @ verbatim_text ''`''"

definition supervisor_cmd :: "string \<Rightarrow> string \<Rightarrow> string" where
  "supervisor_cmd socket_path cmd =
     verbatim_text (''TMUX=/opt/homebrew/bin/tmux; SESSION=subspace-daemon-live; '' @
      ''ANCHOR=subspace-daemon-anchor; SOCKET=`'') @ socket_path
     @ verbatim_text ''`; CMD=^'' @ cmd
     @ verbatim_text (''^; START_GRACE=180; FAILS=0; LAST_START=0; ensure_anchor() { ^$TMUX^ '' @
      ''has-session -t ^$ANCHOR^ 2>/dev/null || ^$TMUX^ new-session -d -s ^$ANCHOR^ '' @
      ''`sleep 3650d`; }; start_session() { ensure_anchor; /bin/rm -f ^$SOCKET^; '' @
      ''^$TMUX^ new-session -d -s ^$SESSION^ ^$CMD^; LAST_START=$(/bin/date +%s); '' @
      ''FAILS=0; }; ensure_anchor; while true; do NOW=$(/bin/date +%s); if ! ^$TMUX^ '' @
      ''has-session -t ^$SESSION^ 2>/dev/null; then start_session; sleep 15; continue; '' @
      ''fi; if /usr/bin/curl --max-time 10 --fail --unix-socket ^$SOCKET^ '' @
      ''http://localhost/healthz >/dev/null 2>&1; then FAILS=0; elif [ '' @
      ''$((NOW-LAST_START)) -lt ^$START_GRACE^ ]; then :; else FAILS=$((FAILS+1)); if [ '' @
      ''^$FAILS^ -ge 3 ]; then ^$TMUX^ kill-session -t ^$SESSION^ 2>/dev/null || true; '' @
      ''start_session; fi; fi; sleep 30; done'')"

definition render_launchd_plist :: "string \<Rightarrow> string \<Rightarrow> string \<Rightarrow> string" where
  "render_launchd_plist binary_path config_path home =
     verbatim_text (''<?xml version=^1.0^ encoding=^UTF-8^?>~'' @
      ''<!DOCTYPE plist PUBLIC ^-//Apple//DTD PLIST 1.0//EN^ '' @
      ''^http://www.apple.com/DTDs/PropertyList-1.0.dtd^>~'' @
      ''<plist version=^1.0^>~'' @
      ''  <dict>~'' @
      ''    <key>Label</key>~'' @
      ''    <string>ai.openclaw.subspace-daemon</string>~'' @
      ''    <key>ProgramArguments</key>~'' @
      ''    <array>~'' @
      ''      <string>/bin/zsh</string>~      <string>-lc</string>~      <string>'')
     @ xml_escape (supervisor_cmd (launchd_socket_path home) (daemon_cmd binary_path config_path home))
     @ verbatim_text (''</string>~'' @
      ''    </array>~'' @
      ''    <key>RunAtLoad</key>~'' @
      ''    <true/>~'' @
      ''    <key>KeepAlive</key>~'' @
      ''    <true/>~    <key>WorkingDirectory</key>~    <string>'')
     @ home
     @ verbatim_text (''</string>~'' @
      ''    <key>EnvironmentVariables</key>~'' @
      ''    <dict>~      <key>HOME</key>~      <string>'')
     @ home
     @ verbatim_text (''</string>~      <key>USER</key>~      <string>'')
     @ unwrap_or [] (file_name home)
     @ verbatim_text (''</string>~      <key>PATH</key>~      <string>'')
     @ launchd_path home
     @ verbatim_text (''</string>~    </dict>~    <key>StandardOutPath</key>~    <string>'')
     @ home
     @ verbatim_text (''/.openclaw/subspace-daemon/logs/stdout.log</string>~'' @
      ''    <key>StandardErrorPath</key>~    <string>'')
     @ home
     @ verbatim_text (''/.openclaw/subspace-daemon/logs/stderr.log</string>~  </dict>~</plist>~'')"

section \<open>Escaping\<close>

definition xml_entity :: "char \<Rightarrow> string" where
  "xml_entity c = (if c = CHR ''&'' then ''&amp;'' else if c = CHR ''<'' then ''&lt;''
     else if c = CHR ''>'' then ''&gt;'' else [c])"

lemma xml_escape_map: "xml_escape s = concat (map xml_entity s)"
  by (induction s) (simp_all add: xml_escape_def replace_char_def xml_entity_def)

text \<open>Reading the text of an XML element.\<close>

fun xml_text :: "string \<Rightarrow> string" where
  "xml_text [] = []"
| "xml_text (c # s) =
     (if c = CHR ''&'' then
        if prefix ''amp;'' s then CHR ''&'' # xml_text (drop 4 s)
        else if prefix ''lt;'' s then CHR ''<'' # xml_text (drop 3 s)
        else if prefix ''gt;'' s then CHR ''>'' # xml_text (drop 3 s)
        else c # xml_text s
      else c # xml_text s)"

theorem xml_escape_round_trip:
  "xml_text (xml_escape s) = s \<and> CHR ''<'' \<notin> set (xml_escape s) \<and> CHR ''>'' \<notin> set (xml_escape s)"
proof -
  have "xml_text (concat (map xml_entity s)) = s"
    by (induction s) (simp_all add: xml_entity_def)
  moreover have "CHR ''<'' \<notin> set (xml_entity c)" "CHR ''>'' \<notin> set (xml_entity c)" for c
    by (simp_all add: xml_entity_def)
  ultimately show ?thesis unfolding xml_escape_map by auto
qed

section \<open>The socket that is watched\<close>

text \<open>
  The shell loop watches, and removes, the socket below the home directory, whatever configuration
  the daemon is started with; a daemon whose configuration lies in another directory listens on
  another socket, so that the loop finds no answer and restarts it.
\<close>

theorem launchd_watches_default_socket:
  assumes "derive_app_paths env config_path None = Inr paths" and "ce_home env = Some home"
    and "ap_root paths \<noteq> []" "last (ap_root paths) \<noteq> CHR ''/''"
    and "ap_root paths \<noteq> path_join home ''.openclaw/subspace-daemon''"
  shows "ap_socket_path paths \<noteq> launchd_socket_path home"
proof -
  have socket: "ap_socket_path paths = path_join (ap_root paths) ''daemon.sock''"
    using assms(1) by (auto simp: derive_app_paths_def Let_def result_iffs)
  have "launchd_socket_path home = path_join home ''.openclaw/subspace-daemon'' @ ''/daemon.sock''"
    by (simp add: launchd_socket_path_def path_join_def)
  moreover have "path_join (ap_root paths) ''daemon.sock'' = ap_root paths @ ''/daemon.sock''"
    using assms(3,4) by (auto simp: path_join_def suffix_def)
  ultimately show ?thesis using assms(5) unfolding socket by (metis append_same_eq)
qed

end
