(* ===== verification/Gateway_Client.thy ===== *)
theory Gateway_Client
  imports Gateway_Device Web_Socket Hard_Failure Daemon_Status
begin

text \<open>
  The gateway task, \<^verbatim>\<open>src/src/gateway/client.rs\<close>: it keeps one connection to the gateway, performs the
  connect handshake, sends the chat messages the wake router submits and hands the answers back.

  The task is a state machine over the outcomes of its \<open>await\<close>s. A phase says at which \<open>await\<close> it
  stands, an event which branch becomes ready; an event that is not possible in a phase leaves the
  state as it is. Between two \<open>await\<close>s the code runs without interruption, one operation below for
  each piece. The trace records what the task exchanges with the outside, in order; writes to the
  connection, random draws, clocks and fresh identifiers are functions of the position in it.

  A \<open>reply\<close> channel is a number. \<open>GaReply\<close> is what the caller of \<open>send_chat\<close> receives on it.
\<close>

section \<open>Data\<close>

record chat_command =
  ch_session_key :: string
  ch_message :: string
  ch_idempotency_key :: string
  ch_reply :: nat

record PendingRequest =
  pr_method :: string
  pr_reply :: nat

record SelectedConnectAuth =
  sl_auth_token :: "string option"
  sl_auth_device_token :: "string option"
  sl_auth_password :: "string option"
  sl_signature_token :: "string option"

datatype DisconnectReason = Restart | PairingRequired | AuthFailed | Transport

datatype outgoing =
    OutConnect "ConnectParams RequestFrame"
  | OutChat "json RequestFrame"
  | OutClose

datatype gateway_phase =
    Connecting
  | AwaitChallenge
  | AwaitHello string \<comment> \<open>the id of the connect request\<close>
  | Live
  | Sleeping
  | Ended "unit result"

datatype gateway_action =
    GaAccept chat_command \<comment> \<open>it entered the queue\<close>
  | GaConnect
  | GaSend outgoing
  | GaReceive ResponseFrame
  | GaReply nat "unit result"
  | GaHooks "hook_run list"
  | GaSleep u64

datatype gateway_event =
    Signal \<comment> \<open>the supervisor sends the shutdown message\<close>
  | Submit chat_command
  | HandlesDropped
  | ConnectDone "unit result"
  | TakeShutdown
  | TakeCommand
  | TakeIncoming incoming
  | SleepDone

record gateway_task =
  gt_phase :: gateway_phase
  gt_backoff :: u64
  gt_reconnecting :: bool
  gt_rx :: "chat_command list"
  gt_rx_closed :: bool
  gt_signals :: nat
  gt_pending :: "(string \<times> PendingRequest) list"
  gt_host :: host
  gt_status :: DaemonStatus
  gt_hooks :: HardFailureHooks
  gt_trace :: "gateway_action list"

record gateway_env =
  gv_config :: Config
  gv_identity :: GatewayDeviceIdentity
  gv_lib :: gateway_lib
  gv_parse_event :: "string \<Rightarrow> EventFrame result"
  gv_parse_response :: "string \<Rightarrow> ResponseFrame result"
  gv_parse_hello :: "json \<Rightarrow> HelloOk result"
  gv_os :: string
  gv_version :: string
  gv_uuid :: "nat \<Rightarrow> string"
  gv_now_ms :: "nat \<Rightarrow> u64"
  gv_write :: "nat \<Rightarrow> unit result"
  gv_draw :: "nat \<Rightarrow> f64"
  gv_print_event :: "HardFailureEvent \<Rightarrow> string result"
  gv_clock :: "nat \<Rightarrow> nat \<Rightarrow> int"

section \<open>Helpers of the connection\<close>

definition select_connect_auth :: "string option \<Rightarrow> string option \<Rightarrow> string option \<Rightarrow> SelectedConnectAuth" where
  "select_connect_auth shared_token shared_password stored_device_token =
     (case shared_token of
        Some token \<Rightarrow>
          \<lparr>sl_auth_token = Some token, sl_auth_device_token = None, sl_auth_password = None,
           sl_signature_token = Some token\<rparr>
      | None \<Rightarrow> (case shared_password of
          Some password \<Rightarrow>
            \<lparr>sl_auth_token = None, sl_auth_device_token = None, sl_auth_password = Some password,
             sl_signature_token = None\<rparr>
        | None \<Rightarrow> (case stored_device_token of
            Some token \<Rightarrow>
              \<lparr>sl_auth_token = Some token, sl_auth_device_token = Some token, sl_auth_password = None,
               sl_signature_token = Some token\<rparr>
          | None \<Rightarrow>
              \<lparr>sl_auth_token = None, sl_auth_device_token = None, sl_auth_password = None,
               sl_signature_token = None\<rparr>)))"

definition gateway_ws_text :: "ws_message \<Rightarrow> string result" where
  "gateway_ws_text m =
     (case m of
        MsgText t \<Rightarrow> Inr t
      | MsgBinary bytes \<Rightarrow> ok_or ''non-utf8 websocket message'' (from_utf8 bytes)
      | MsgClose _ \<Rightarrow> Inl ''websocket closed''
      | MsgPing \<Rightarrow> Inr []
      | MsgPong \<Rightarrow> Inr []
      | MsgFrame \<Rightarrow> Inr [])"

definition gateway_hard_failure_event :: "Config \<Rightarrow> string \<Rightarrow> string \<Rightarrow> HardFailureEvent" where
  "gateway_hard_failure_event config kind message =
     \<lparr>he_kind = kind, he_component = ''gateway'', he_target = Some (gw_ws_url (cf_gateway config)),
      he_message = message,
      he_metadata = JObj [(''gateway_ws_url'', JStr (gw_ws_url (cf_gateway config)))]\<rparr>"

definition connect_params :: "gateway_env \<Rightarrow> SelectedConnectAuth \<Rightarrow> u64 \<Rightarrow> string \<Rightarrow> ConnectParams" where
  "connect_params gv auth signed_at nonce =
     (let gw = cf_gateway (gv_config gv); d = gv_identity gv;
          payload = build_device_auth_payload_v3 (gd_device_id d) (gw_client_id gw) (gw_client_mode gw)
            (gw_requested_role gw) (gw_requested_scopes gw) signed_at (sl_signature_token auth) nonce
            (gv_os gv) None
      in \<lparr>cn_min_protocol = protocol_version, cn_max_protocol = protocol_version,
          cn_client = \<lparr>cc_id = gw_client_id gw, cc_display_name = Some (gw_display_name gw),
            cc_version = gv_version gv, cc_platform = gv_os gv, cc_device_family = None,
            cc_mode = gw_client_mode gw, cc_instance_id = None\<rparr>,
          cn_caps = [], cn_commands = None, cn_permissions = None, cn_path_env = None,
          cn_role = gw_requested_role gw, cn_scopes = gw_requested_scopes gw,
          cn_device = Some \<lparr>dp_id = gd_device_id d, dp_public_key = gd_public_key_raw_base64url d,
            dp_signature = sign_payload (gv_lib gv) d payload, dp_signed_at = signed_at, dp_nonce = nonce\<rparr>,
          cn_auth =
            (if sl_auth_token auth \<noteq> None \<or> sl_auth_device_token auth \<noteq> None \<or> sl_auth_password auth \<noteq> None
             then Some \<lparr>ap_token = sl_auth_token auth, ap_bootstrap_token = None,
                        ap_device_token = sl_auth_device_token auth, ap_password = sl_auth_password auth\<rparr>
             else None)\<rparr>)"

definition chat_frame :: "string \<Rightarrow> chat_command \<Rightarrow> json RequestFrame" where
  "chat_frame request_id c =
     \<lparr>rq_type = ''req'', rq_id = request_id, rq_method = ''chat.send'',
      rq_params = Some (JObj [(''sessionKey'', JStr (ch_session_key c)), (''message'', JStr (ch_message c)),
        (''idempotencyKey'', JStr (ch_idempotency_key c))])\<rparr>"

section \<open>Pieces of the task\<close>

definition record_action :: "gateway_action \<Rightarrow> gateway_task \<Rightarrow> gateway_task" where
  "record_action a s = s\<lparr>gt_trace := gt_trace s @ [a]\<rparr>"

definition send_frame :: "gateway_env \<Rightarrow> outgoing \<Rightarrow> gateway_task \<Rightarrow> unit result \<times> gateway_task" where
  "send_frame gv f s = (gv_write gv (length (gt_trace s)), record_action (GaSend f) s)"

definition update_gateway_state :: "string \<Rightarrow> gateway_task \<Rightarrow> gateway_task" where
  "update_gateway_state value s = s\<lparr>gt_status := set_gateway_state value (gt_status s)\<rparr>"

definition fire_gateway_hooks :: "gateway_env \<Rightarrow> string \<Rightarrow> string \<Rightarrow> gateway_task \<Rightarrow> gateway_task" where
  "fire_gateway_hooks gv kind message s =
     (let (runs, hs) = fire (gv_print_event gv) (gv_clock gv (length (gt_trace s)))
            (gateway_hard_failure_event (gv_config gv) kind message) (gt_hooks s)
      in record_action (GaHooks runs) (s\<lparr>gt_hooks := hs\<rparr>))"

text \<open>
  Requests whose entry goes away are answered by the relay of \<open>oneshot_map_ok\<close>, commands still
  in the queue by the closing of their channel.
\<close>

definition answer_all :: "string \<Rightarrow> nat list \<Rightarrow> gateway_task \<Rightarrow> gateway_task" where
  "answer_all e rs s = fold (\<lambda>r. record_action (GaReply r (Inl e))) rs s"

definition drop_pending :: "gateway_task \<Rightarrow> gateway_task" where
  "drop_pending s =
     (answer_all ''gateway request dropped'' (map (pr_reply \<circ> snd) (gt_pending s)) s)\<lparr>gt_pending := []\<rparr>"

definition end_task :: "unit result \<Rightarrow> gateway_task \<Rightarrow> gateway_task" where
  "end_task r s =
     (answer_all ''gateway response channel closed'' (map ch_reply (gt_rx s)) s)
       \<lparr>gt_rx := [], gt_phase := Ended r\<rparr>"

text \<open>The top of the loop, up to the start of the connection.\<close>

definition loop_top :: "gateway_task \<Rightarrow> gateway_task" where
  "loop_top s =
     (if 0 < gt_signals s then end_task (Inr ()) (s\<lparr>gt_signals := gt_signals s - 1\<rparr>)
      else record_action GaConnect
             (update_gateway_state (if gt_reconnecting s then ''reconnecting'' else ''connecting'') s)
               \<lparr>gt_phase := Connecting\<rparr>)"

definition fall_asleep :: "gateway_env \<Rightarrow> gateway_task \<Rightarrow> gateway_task" where
  "fall_asleep gv s =
     record_action (GaSleep (jitter (gv_draw gv (length (gt_trace s))) (gt_backoff s)
         (rc_jitter_ratio (cf_retry (gv_config gv))))) (s\<lparr>gt_phase := Sleeping\<rparr>)"

definition wake_up :: "gateway_env \<Rightarrow> gateway_task \<Rightarrow> gateway_task" where
  "wake_up gv s =
     loop_top (s\<lparr>gt_backoff := min (saturating_mul (gt_backoff s) 2) (rc_max_ms (cf_retry (gv_config gv)))\<rparr>)"

text \<open>What the loop does with the outcome of \<open>connect_once\<close>, whose pending requests go with it.\<close>

definition after_connect_once :: "gateway_env \<Rightarrow> DisconnectReason result \<Rightarrow> gateway_task \<Rightarrow> gateway_task" where
  "after_connect_once gv outcome s0 =
     (let s = drop_pending s0; base = rc_base_ms (cf_retry (gv_config gv)) in
      case outcome of
        Inr Restart \<Rightarrow> fall_asleep gv (s\<lparr>gt_backoff := base, gt_reconnecting := False\<rparr>)
      | Inr AuthFailed \<Rightarrow> loop_top (s\<lparr>gt_backoff := base, gt_reconnecting := False\<rparr>)
      | Inr PairingRequired \<Rightarrow>
          fall_asleep gv (fire_gateway_hooks gv ''gateway_pairing_required'' ''gateway pairing required''
            (s\<lparr>gt_backoff := base, gt_reconnecting := False\<rparr>))
      | Inr Transport \<Rightarrow>
          fall_asleep gv (fire_gateway_hooks gv ''gateway_transport_disconnected'' ''gateway transport disconnected''
            (update_gateway_state ''reconnecting'' (s\<lparr>gt_backoff := base, gt_reconnecting := True\<rparr>)))
      | Inl err \<Rightarrow>
          fall_asleep gv (fire_gateway_hooks gv
            (if gt_reconnecting s then ''gateway_reconnect_failed'' else ''gateway_connect_failed'') err
            (if gt_reconnecting s then update_gateway_state ''reconnecting'' s else s)))"

definition close_and_restart :: "gateway_env \<Rightarrow> gateway_task \<Rightarrow> gateway_task" where
  "close_and_restart gv s = after_connect_once gv (Inr Restart) (snd (send_frame gv OutClose s))"

section \<open>The handshake\<close>

definition send_connect :: "gateway_env \<Rightarrow> string \<Rightarrow> gateway_task \<Rightarrow> gateway_task" where
  "send_connect gv nonce s =
     (let gw = cf_gateway (gv_config gv);
          connect_id = gv_uuid gv (length (gt_trace s));
          stored_token = map_option de_token (load_token (gv_lib gv) (gt_host s)
            (ap_gateway_device_auth_store_path (cf_paths (gv_config gv))) (gd_device_id (gv_identity gv))
            (gw_requested_role gw));
          auth = select_connect_auth (gw_shared_token gw) (gw_shared_password gw) stored_token;
          frame = \<lparr>rq_type = ''req'', rq_id = connect_id, rq_method = ''connect'',
            rq_params = Some (connect_params gv auth (gv_now_ms gv (length (gt_trace s))) nonce)\<rparr>
      in case send_frame gv (OutConnect frame) s of
           (Inl e, s') \<Rightarrow> after_connect_once gv (Inl e) s'
         | (Inr _, s') \<Rightarrow> s'\<lparr>gt_phase := AwaitHello connect_id\<rparr>)"

definition on_challenge_text :: "gateway_env \<Rightarrow> string \<Rightarrow> gateway_task \<Rightarrow> gateway_task" where
  "on_challenge_text gv txt s =
     (if txt = [] then s
      else case gv_parse_event gv txt of
        Inl _ \<Rightarrow> s
      | Inr frame \<Rightarrow>
          if ef_type frame = ''event'' \<and> ef_event frame = ''connect.challenge''
          then (case json_str_at ''nonce'' (ef_payload frame) of
                  Some nonce \<Rightarrow> send_connect gv nonce s
                | None \<Rightarrow> after_connect_once gv (Inl ''gateway connect challenge missing nonce'') s)
          else s)"

definition detail_code :: "GatewayError \<Rightarrow> string" where
  "detail_code e = unwrap_or [] (Option.bind (ge_details e) (json_str_at ''code''))"

definition connect_refused :: "gateway_env \<Rightarrow> GatewayError \<Rightarrow> gateway_task \<Rightarrow> gateway_task" where
  "connect_refused gv error s =
     (if detail_code error = ''PAIRING_REQUIRED''
      then after_connect_once gv (Inr PairingRequired) (update_gateway_state ''pairing_required'' s)
      else if detail_code error = ''AUTH_TOKEN_MISMATCH'' \<or> detail_code error = ''AUTH_DEVICE_TOKEN_MISMATCH''
      then after_connect_once gv (Inr AuthFailed)
             (s\<lparr>gt_host := snd (clear_token (gv_lib gv)
                 (ap_gateway_device_auth_store_path (cf_paths (gv_config gv))) (gd_device_id (gv_identity gv))
                 (gw_requested_role (cf_gateway (gv_config gv))) (gt_host s))\<rparr>)
      else after_connect_once gv (Inl (ge_message error)) s)"

definition connect_accepted :: "gateway_env \<Rightarrow> HelloOk \<Rightarrow> gateway_task \<Rightarrow> gateway_task" where
  "connect_accepted gv hello s =
     (let go_live = (\<lambda>s. (update_gateway_state ''live'' s)\<lparr>gt_phase := Live, gt_pending := []\<rparr>)
      in case hk_auth hello of
           None \<Rightarrow> go_live s
         | Some auth \<Rightarrow>
             (case store_token (gv_lib gv) (gv_now_ms gv (length (gt_trace s)))
                 (ap_gateway_device_auth_store_path (cf_paths (gv_config gv))) (gd_device_id (gv_identity gv))
                 (ha_role auth) (ha_device_token auth) (ha_scopes auth) (gt_host s) of
                (Inl e, h) \<Rightarrow> after_connect_once gv (Inl e) (s\<lparr>gt_host := h\<rparr>)
              | (Inr _, h) \<Rightarrow> go_live (s\<lparr>gt_host := h\<rparr>)))"

definition on_hello_text :: "gateway_env \<Rightarrow> string \<Rightarrow> string \<Rightarrow> gateway_task \<Rightarrow> gateway_task" where
  "on_hello_text gv connect_id txt s =
     (if txt = [] then s
      else case gv_parse_response gv txt of
        Inl _ \<Rightarrow> s
      | Inr res \<Rightarrow>
          if rf_type res = ''res'' \<and> rf_id res = connect_id
          then (if rf_ok res
                then (case gv_parse_hello gv (rf_payload res) of
                        Inl _ \<Rightarrow> after_connect_once gv (Inl ''invalid hello-ok payload'') s
                      | Inr hello \<Rightarrow> connect_accepted gv hello s)
                else connect_refused gv
                       (unwrap_or \<lparr>ge_code = None, ge_message = ''connect failed'', ge_details = None\<rparr>
                         (rf_error res)) s)
          else s)"

section \<open>The live connection\<close>

text \<open>\<open>HashMap::insert\<close> drops an entry under the same key, which answers it.\<close>

definition insert_pending :: "string \<Rightarrow> PendingRequest \<Rightarrow> gateway_task \<Rightarrow> gateway_task" where
  "insert_pending k p s =
     (let old = filter (\<lambda>(a, b). a = k) (gt_pending s)
      in answer_all ''gateway request dropped'' (map (pr_reply \<circ> snd) old)
           (s\<lparr>gt_pending := (k, p) # filter (\<lambda>(a, b). a \<noteq> k) (gt_pending s)\<rparr>))"

definition on_chat_command :: "gateway_env \<Rightarrow> chat_command \<Rightarrow> gateway_task \<Rightarrow> gateway_task" where
  "on_chat_command gv c s =
     (let request_id = gv_uuid gv (length (gt_trace s))
      in case send_frame gv (OutChat (chat_frame request_id c)) s of
           (Inl e, s') \<Rightarrow>
             after_connect_once gv (Inr Transport)
               (record_action (GaReply (ch_reply c) (Inl (''gateway transport unavailable: '' @ e))) s')
         | (Inr _, s') \<Rightarrow> insert_pending request_id \<lparr>pr_method = ''chat.send'', pr_reply = ch_reply c\<rparr> s')"

definition on_command :: "gateway_env \<Rightarrow> gateway_task \<Rightarrow> gateway_task" where
  "on_command gv s =
     (case gt_rx s of
        c # rest \<Rightarrow> on_chat_command gv c (s\<lparr>gt_rx := rest\<rparr>)
      | [] \<Rightarrow> if gt_rx_closed s then close_and_restart gv s else s)"

definition response_result :: "PendingRequest \<Rightarrow> ResponseFrame \<Rightarrow> unit result" where
  "response_result p res =
     (if rf_ok res then Inr ()
      else Inl (case rf_error res of None \<Rightarrow> pr_method p @ '' failed'' | Some e \<Rightarrow> ge_message e))"

definition on_response :: "ResponseFrame \<Rightarrow> gateway_task \<Rightarrow> gateway_task" where
  "on_response res s0 =
     (let s = record_action (GaReceive res) s0 in
      case map_of (gt_pending s) (rf_id res) of
        None \<Rightarrow> s
      | Some p \<Rightarrow>
          record_action (GaReply (pr_reply p) (response_result p res))
            (s\<lparr>gt_pending := filter (\<lambda>(a, b). a \<noteq> rf_id res) (gt_pending s)\<rparr>))"

definition is_tick :: "gateway_env \<Rightarrow> string \<Rightarrow> bool" where
  "is_tick gv txt =
     (case gv_parse_event gv txt of
        Inl _ \<Rightarrow> False | Inr e \<Rightarrow> ef_type e = ''event'' \<and> ef_event e = ''tick'')"

definition on_live_text :: "gateway_env \<Rightarrow> string \<Rightarrow> gateway_task \<Rightarrow> gateway_task" where
  "on_live_text gv txt s =
     (if txt = [] \<or> is_tick gv txt then s
      else case gv_parse_response gv txt of Inl _ \<Rightarrow> s | Inr res \<Rightarrow> on_response res s)"

section \<open>The task\<close>

text \<open>The two loops of the handshake fail with the error of the read, the live loop disconnects.\<close>

definition on_incoming :: "gateway_env \<Rightarrow> incoming \<Rightarrow> gateway_task \<Rightarrow> gateway_task" where
  "on_incoming gv inc s =
     (case gt_phase s of
        AwaitChallenge \<Rightarrow>
          (case inc of
             StreamEnd \<Rightarrow> after_connect_once gv (Inl ''gateway closed before connect challenge'') s
           | StreamError e \<Rightarrow> after_connect_once gv (Inl e) s
           | Received m \<Rightarrow> (case gateway_ws_text m of
               Inl e \<Rightarrow> after_connect_once gv (Inl e) s
             | Inr txt \<Rightarrow> on_challenge_text gv txt s))
      | AwaitHello connect_id \<Rightarrow>
          (case inc of
             StreamEnd \<Rightarrow> after_connect_once gv (Inl ''gateway closed during connect'') s
           | StreamError e \<Rightarrow> after_connect_once gv (Inl e) s
           | Received m \<Rightarrow> (case gateway_ws_text m of
               Inl e \<Rightarrow> after_connect_once gv (Inl e) s
             | Inr txt \<Rightarrow> on_hello_text gv connect_id txt s))
      | Live \<Rightarrow>
          (case inc of
             StreamEnd \<Rightarrow> after_connect_once gv (Inr Transport) s
           | StreamError e \<Rightarrow> after_connect_once gv (Inr Transport) s
           | Received m \<Rightarrow> (case gateway_ws_text m of
               Inl e \<Rightarrow> after_connect_once gv (Inr Transport) s
             | Inr txt \<Rightarrow> on_live_text gv txt s))
      | _ \<Rightarrow> s)"

definition on_shutdown :: "gateway_env \<Rightarrow> gateway_task \<Rightarrow> gateway_task" where
  "on_shutdown gv s0 =
     (if gt_signals s0 = 0 then s0
      else let s = s0\<lparr>gt_signals := gt_signals s0 - 1\<rparr>
           in case gt_phase s of
                AwaitChallenge \<Rightarrow> after_connect_once gv (Inr Restart) s
              | AwaitHello _ \<Rightarrow> close_and_restart gv s
              | Live \<Rightarrow> close_and_restart gv s
              | Sleeping \<Rightarrow> end_task (Inr ()) s
              | _ \<Rightarrow> s0)"

definition command_capacity :: nat where
  "command_capacity = 128"

text \<open>A sender waits while the queue is full, and gets an error once the task has ended.\<close>

definition can_submit :: "gateway_task \<Rightarrow> bool" where
  "can_submit s \<longleftrightarrow> \<not> gt_rx_closed s \<and> length (gt_rx s) < command_capacity
     \<and> (case gt_phase s of Ended _ \<Rightarrow> False | _ \<Rightarrow> True)"

fun run_gateway_task :: "gateway_env \<Rightarrow> gateway_event \<Rightarrow> gateway_task \<Rightarrow> gateway_task" where
  "run_gateway_task gv Signal s = s\<lparr>gt_signals := Suc (gt_signals s)\<rparr>"
| "run_gateway_task gv (Submit c) s =
     (if can_submit s then record_action (GaAccept c) (s\<lparr>gt_rx := gt_rx s @ [c]\<rparr>) else s)"
| "run_gateway_task gv HandlesDropped s = s\<lparr>gt_rx_closed := True\<rparr>"
| "run_gateway_task gv (ConnectDone r) s =
     (if gt_phase s = Connecting
      then (case r of
              Inl _ \<Rightarrow> after_connect_once gv (Inl ''gateway websocket connect failed'') s
            | Inr _ \<Rightarrow> s\<lparr>gt_phase := AwaitChallenge\<rparr>)
      else s)"
| "run_gateway_task gv TakeShutdown s = on_shutdown gv s"
| "run_gateway_task gv TakeCommand s = (if gt_phase s = Live then on_command gv s else s)"
| "run_gateway_task gv (TakeIncoming inc) s = on_incoming gv inc s"
| "run_gateway_task gv SleepDone s = (if gt_phase s = Sleeping then wake_up gv s else s)"

definition gateway_run :: "gateway_env \<Rightarrow> gateway_event list \<Rightarrow> gateway_task \<Rightarrow> gateway_task" where
  "gateway_run gv es s = fold (run_gateway_task gv) es s"

definition start_gateway_task :: "gateway_env \<Rightarrow> host \<Rightarrow> DaemonStatus \<Rightarrow> HardFailureHooks \<Rightarrow> gateway_task" where
  "start_gateway_task gv h status hooks =
     loop_top
       \<lparr>gt_phase = Connecting, gt_backoff = rc_base_ms (cf_retry (gv_config gv)), gt_reconnecting = False,
        gt_rx = [], gt_rx_closed = False, gt_signals = 0, gt_pending = [], gt_host = h,
        gt_status = status, gt_hooks = hooks, gt_trace = []\<rparr>"

text \<open>\<open>start_gateway_client\<close>: the device identity first, then the task.\<close>

definition start_gateway_client :: "gateway_env \<Rightarrow> string \<Rightarrow> DaemonStatus \<Rightarrow> HardFailureHooks
    \<Rightarrow> (host, gateway_env \<times> gateway_task) op" where
  "start_gateway_client gv fresh status hooks =
     andthen (load_or_create_device (gv_lib gv) fresh (ap_gateway_private_key_path (cf_paths (gv_config gv)))
       (ap_gateway_public_key_path (cf_paths (gv_config gv)))) (\<lambda>d h.
     let gv' = gv\<lparr>gv_identity := d\<rparr> in (Inr (gv', start_gateway_task gv' h status hooks), h))"

end
