(* ===== verification/Event_Machine.thy ===== *)
theory Event_Machine
  imports Prelude "HOL-Library.Multiset"
begin

text \<open>
  What the tasks of the daemon have in common: a state that events change one at a time, an
  invariant, and a trace of outside actions that only grows. The lemmas are proved once here and
  reused for the gateway task and the server managers.
\<close>

locale event_machine =
  fixes step :: "'e \<Rightarrow> 's \<Rightarrow> 's" and inv :: "'s \<Rightarrow> bool"
  assumes step_inv: "inv s \<Longrightarrow> inv (step e s)"
begin

lemma run_inv: "inv s \<Longrightarrow> inv (fold step es s)"
  by (induction es arbitrary: s) (simp_all add: step_inv)

end

locale traced_machine = event_machine step inv
  for step :: "'e \<Rightarrow> 's \<Rightarrow> 's" and inv :: "'s \<Rightarrow> bool" +
  fixes trace :: "'s \<Rightarrow> 'a list"
  assumes trace_grows: "prefix (trace s) (trace (step e s))"
begin

lemma run_trace_grows: "prefix (trace s) (trace (fold step es s))"
proof (induction es arbitrary: s)
  case (Cons e es)
  then show ?case using trace_grows prefix_order.trans by fastforce
qed simp

text \<open>An action of a run is the action of one of its steps, taken in a state with the invariant.\<close>

lemma action_origin:
  assumes "inv s" and "i < length (trace (fold step es s))" and "length (trace s) \<le> i"
  shows "\<exists>es1 e es2. es = es1 @ e # es2 \<and> inv (fold step es1 s)
    \<and> length (trace (fold step es1 s)) \<le> i \<and> i < length (trace (step e (fold step es1 s)))
    \<and> trace (fold step es s) ! i = trace (step e (fold step es1 s)) ! i"
  using assms
proof (induction es rule: rev_induct)
  case Nil
  then show ?case by simp
next
  case (snoc e es)
  let ?t = "trace (fold step es s)"
  have grow: "prefix ?t (trace (step e (fold step es s)))" by (rule trace_grows)
  show ?case
  proof (cases "i < length ?t")
    case True
    with snoc obtain es1 e1 es2 where "es = es1 @ e1 # es2" "inv (fold step es1 s)"
      "length (trace (fold step es1 s)) \<le> i" "i < length (trace (step e1 (fold step es1 s)))"
      "?t ! i = trace (step e1 (fold step es1 s)) ! i" by blast
    moreover have "trace (fold step (es @ [e]) s) ! i = ?t ! i"
      using grow True by (auto simp: prefix_def nth_append)
    ultimately show ?thesis by (intro exI [of _ es1] exI [of _ e1] exI [of _ "es2 @ [e]"]) simp
  next
    case False
    with snoc.prems run_inv show ?thesis
      by (intro exI [of _ es] exI [of _ e] exI [of _ "[]"]) simp
  qed
qed

end

end
