(* ===== verification/Supervisor.thy ===== *)
theory Supervisor
  imports Ipc State_Lock Launchd Gateway_Client Event_Machine
begin

text \<open>
  The supervisor, \<open>run_supervisor\<close> in \<^verbatim>\<open>src/src/supervisor.rs\<close> with \<open>run_ipc_server\<close> in
  \<^verbatim>\<open>src/src/ipc.rs\<close>: the start of the daemon under the state lock, and the loop that watches the
  tasks until one of them ends or the process is interrupted.

  The loop is a state machine. Its events are the ends of the tasks, which the supervisor does not
  control, the branches its \<open>select!\<close> takes, and the ends of the waits of an orderly stop; an event
  that is not possible in a state leaves it as it is.
\<close>

section \<open>The socket server\<close>

datatype ipc_event = IpcShutdown | AcceptFailed string | Accepted ipc_request

text \<open>
  What the system answers when a file is removed and when a socket is bound; a directory is not
  removed, and binding fails where a file exists.
\<close>

record socket_env =
  so_remove :: "string \<Rightarrow> unit result"
  so_bind :: "string \<Rightarrow> unit result"

definition remove_file :: "socket_env \<Rightarrow> string \<Rightarrow> (host, unit) op" where
  "remove_file so path h =
     (if fs_is_dir (ho_fs h) path then (Inl ''Is a directory (os error 21)'', h)
      else if \<not> fs_exists (ho_fs h) path then (Inl ''No such file or directory (os error 2)'', h)
      else case so_remove so path of
             Inl e \<Rightarrow> (Inl e, h)
           | Inr _ \<Rightarrow> (Inr (), h\<lparr>ho_fs := (ho_fs h)(path := None)\<rparr>))"

definition bind_socket :: "socket_env \<Rightarrow> string \<Rightarrow> (host, unit) op" where
  "bind_socket so path h =
     (if fs_exists (ho_fs h) path then (Inl ''Address already in use (os error 98)'', h)
      else case so_bind so path of
             Inl e \<Rightarrow> (Inl e, h)
           | Inr _ \<Rightarrow> (Inr (), h\<lparr>ho_fs := (ho_fs h)(path \<mapsto> RegularFile (Inl ''not a file''))\<rparr>))"

text \<open>A file left at the path of the socket is removed; that this fails shows only in the bind.\<close>

definition open_listener :: "socket_env \<Rightarrow> string \<Rightarrow> (host, unit) op" where
  "open_listener so socket_path =
     andthen (create_parent socket_path) (\<lambda>_.
     andthen (\<lambda>h. (Inr (), if fs_exists (ho_fs h) socket_path then snd (remove_file so socket_path h) else h)) (\<lambda>_.
     andthen (bind_socket so socket_path) (\<lambda>_.
     set_permissions socket_path)))"

text \<open>
  The loop of \<open>run_ipc_server\<close>. A connection is served by a task of its own; its request takes
  effect where it occurs in the sequence. The result is \<open>None\<close> while the loop goes on.
\<close>

fun accept_loop :: "ipc_env \<Rightarrow> ipc_event list \<Rightarrow> ipc_world
    \<Rightarrow> unit result option \<times> ipc_response result list \<times> ipc_world" where
  "accept_loop ix [] w = (None, [], w)"
| "accept_loop ix (IpcShutdown # es) w = (Some (Inr ()), [], w)"
| "accept_loop ix (AcceptFailed e # es) w = (Some (Inl e), [], w)"
| "accept_loop ix (Accepted req # es) w =
     (let (response, w1) = handle_request ix req w; (r, responses, w2) = accept_loop ix es w1
      in (r, response # responses, w2))"

definition run_ipc_server :: "socket_env \<Rightarrow> ipc_env \<Rightarrow> string \<Rightarrow> ipc_event list \<Rightarrow> ipc_world
    \<Rightarrow> unit result option \<times> ipc_response result list \<times> ipc_world" where
  "run_ipc_server so ix socket_path es w =
     (case open_listener so socket_path (iw_host w) of
        (Inl e, h) \<Rightarrow> (Some (Inl e), [], w\<lparr>iw_host := h\<rparr>)
      | (Inr _, h) \<Rightarrow> accept_loop ix es (w\<lparr>iw_host := h\<rparr>))"

section \<open>Ends of tasks\<close>

datatype task_end = TaskReturned "unit result" | TaskPanicked string

fun task_error :: "string \<Rightarrow> task_end \<Rightarrow> string" where
  "task_error name (TaskReturned (Inr u)) = name @ '' exited unexpectedly''"
| "task_error name (TaskReturned (Inl e)) = e"
| "task_error name (TaskPanicked e) = e"

definition task_exit_event :: "string \<Rightarrow> string \<Rightarrow> HardFailureEvent" where
  "task_exit_event name err =
     \<lparr>he_kind = ''critical_task_exit'', he_component = ''supervisor'', he_target = Some name,
      he_message = err, he_metadata = JObj [(''task'', JStr name)]\<rparr>"

section \<open>The state\<close>

datatype sup_phase =
    Watching
  | StopWake | StopGateway | StopIpc \<comment> \<open>waiting, for five seconds at most, for one task\<close>
  | StopServers nat
  | Returned "unit result"

datatype sup_action =
    SuShutdown
  | SuRemoveSocket
  | SuHook HardFailureEvent "hook_run list"

record supervisor =
  su_phase :: sup_phase
  su_gateway :: "task_end option"
  su_wake :: "task_end option"
  su_ipc :: "task_end option"
  su_servers :: "(string \<times> task_end option) list"
  su_hooks :: HardFailureHooks
  su_trace :: "sup_action list"

record sup_env =
  sn_print_event :: "HardFailureEvent \<Rightarrow> string result"
  sn_clock :: "nat \<Rightarrow> nat \<Rightarrow> int"

datatype sup_event =
    GatewayEnds task_end | WakeEnds task_end | IpcEnds task_end
  | ServerEnds nat task_end | ServerAdded string
  | CtrlC | SeesGateway | SeesWake | SeesIpc | Tick | WaitOver

definition su_act :: "sup_action \<Rightarrow> supervisor \<Rightarrow> supervisor" where
  "su_act a s = s\<lparr>su_trace := su_trace s @ [a]\<rparr>"

definition fire_task_exit_hook :: "sup_env \<Rightarrow> string \<Rightarrow> string \<Rightarrow> supervisor \<Rightarrow> supervisor" where
  "fire_task_exit_hook sn name err s =
     (let (runs, hs) = fire (sn_print_event sn) (sn_clock sn (length (su_trace s))) (task_exit_event name err) (su_hooks s)
      in su_act (SuHook (task_exit_event name err) runs) (s\<lparr>su_hooks := hs\<rparr>))"

definition handle_task_exit :: "sup_env \<Rightarrow> string \<Rightarrow> task_end \<Rightarrow> supervisor \<Rightarrow> unit result \<times> supervisor" where
  "handle_task_exit sn name outcome s =
     (Inl (task_error name outcome), fire_task_exit_hook sn name (task_error name outcome) s)"

text \<open>The first server task that has ended.\<close>

definition check_server_exit :: "sup_env \<Rightarrow> supervisor \<Rightarrow> (unit result \<times> supervisor) option" where
  "check_server_exit sn s =
     (case List.map_filter (\<lambda>(key, x). map_option (\<lambda>outcome. (key, outcome)) x) (su_servers s) of
        [] \<Rightarrow> None
      | (key, outcome) # _ \<Rightarrow> Some (handle_task_exit sn (''subspace:'' @ key) outcome s))"

definition leave_for :: "sup_env \<Rightarrow> string \<Rightarrow> task_end option \<Rightarrow> supervisor \<Rightarrow> supervisor" where
  "leave_for sn name seen s =
     (case seen of
        None \<Rightarrow> s
      | Some outcome \<Rightarrow>
          let (r, s1) = handle_task_exit sn name outcome (su_act SuRemoveSocket (su_act SuShutdown s))
          in s1\<lparr>su_phase := Returned r\<rparr>)"

definition on_tick :: "sup_env \<Rightarrow> supervisor \<Rightarrow> supervisor" where
  "on_tick sn s =
     (case check_server_exit sn s of
        None \<Rightarrow> s
      | Some (r, s1) \<Rightarrow> (su_act SuRemoveSocket (su_act SuShutdown s1))\<lparr>su_phase := Returned r\<rparr>)"

text \<open>The waits for the server tasks, from the \<open>i\<close>-th on, and the end of the stop.\<close>

definition stop_servers :: "nat \<Rightarrow> supervisor \<Rightarrow> supervisor" where
  "stop_servers i s =
     (if i < length (su_servers s) then s\<lparr>su_phase := StopServers i\<rparr>
      else (su_act SuRemoveSocket s)\<lparr>su_phase := Returned (Inr ())\<rparr>)"

fun on_wait_over :: "sup_phase \<Rightarrow> supervisor \<Rightarrow> supervisor" where
  "on_wait_over StopWake s = s\<lparr>su_phase := StopGateway\<rparr>"
| "on_wait_over StopGateway s = s\<lparr>su_phase := StopIpc\<rparr>"
| "on_wait_over StopIpc s = stop_servers 0 s"
| "on_wait_over (StopServers i) s = stop_servers (Suc i) s"
| "on_wait_over p s = s"

text \<open>A setup can add a task until the stop holds the lock of the list.\<close>

fun takes_servers :: "sup_phase \<Rightarrow> bool" where
  "takes_servers (StopServers i) = False"
| "takes_servers (Returned r) = False"
| "takes_servers p = True"

fun mark_server :: "nat \<Rightarrow> task_end \<Rightarrow> (string \<times> task_end option) list \<Rightarrow> (string \<times> task_end option) list" where
  "mark_server i e [] = []"
| "mark_server 0 e ((key, x) # ts) = (key, case x of None \<Rightarrow> Some e | Some old \<Rightarrow> Some old) # ts"
| "mark_server (Suc i) e (t # ts) = t # mark_server i e ts"

text \<open>
  \<open>CtrlC\<close> is the \<open>shutdown\<close> branch of the \<open>select!\<close>: it becomes ready when an interrupt arrives, and also
  when the handler for it cannot be registered, since the branch takes the outcome of
  \<open>tokio::signal::ctrl_c()\<close> without looking at it.
\<close>

fun run_supervisor :: "sup_env \<Rightarrow> sup_event \<Rightarrow> supervisor \<Rightarrow> supervisor" where
  "run_supervisor sn (GatewayEnds e) s = (if su_gateway s = None then s\<lparr>su_gateway := Some e\<rparr> else s)"
| "run_supervisor sn (WakeEnds e) s = (if su_wake s = None then s\<lparr>su_wake := Some e\<rparr> else s)"
| "run_supervisor sn (IpcEnds e) s = (if su_ipc s = None then s\<lparr>su_ipc := Some e\<rparr> else s)"
| "run_supervisor sn (ServerEnds i e) s = s\<lparr>su_servers := mark_server i e (su_servers s)\<rparr>"
| "run_supervisor sn (ServerAdded key) s =
     (if takes_servers (su_phase s) then s\<lparr>su_servers := su_servers s @ [(key, None)]\<rparr> else s)"
| "run_supervisor sn CtrlC s =
     (if su_phase s = Watching then (su_act SuShutdown s)\<lparr>su_phase := StopWake\<rparr> else s)"
| "run_supervisor sn SeesGateway s =
     (if su_phase s = Watching then leave_for sn ''gateway'' (su_gateway s) s else s)"
| "run_supervisor sn SeesWake s =
     (if su_phase s = Watching then leave_for sn ''wake_queue'' (su_wake s) s else s)"
| "run_supervisor sn SeesIpc s =
     (if su_phase s = Watching then leave_for sn ''ipc'' (su_ipc s) s else s)"
| "run_supervisor sn Tick s = (if su_phase s = Watching then on_tick sn s else s)"
| "run_supervisor sn WaitOver s = on_wait_over (su_phase s) s"

definition supervisor_start :: "HardFailureHooks \<Rightarrow> string list \<Rightarrow> supervisor" where
  "supervisor_start hooks keys =
     \<lparr>su_phase = Watching, su_gateway = None, su_wake = None, su_ipc = None,
      su_servers = map (\<lambda>key. (key, None)) keys, su_hooks = hooks, su_trace = []\<rparr>"

section \<open>The start of the daemon\<close>

record boot_env =
  bt_setup :: setup_env
  bt_gateway :: gateway_env
  bt_fresh_device :: string
  bt_exe :: "string option"
  bt_print_event :: "HardFailureEvent \<Rightarrow> string result"
  bt_clock :: "nat \<Rightarrow> int"

record boot_world =
  bo_lock :: lock_host
  bo_db :: database
  bo_runs :: "hook_run list"

record daemon =
  dm_store :: "DeliveryStore option"
  dm_gateway :: "gateway_env \<times> gateway_task"
  dm_live :: LiveSetupState
  dm_supervisor :: supervisor

definition on_lock :: "(lock_host, 'a) op \<Rightarrow> (boot_world, 'a) op" where
  "on_lock m w = (let (r, l) = m (bo_lock w) in (r, w\<lparr>bo_lock := l\<rparr>))"

definition on_boot_host :: "(host, 'a) op \<Rightarrow> (boot_world, 'a) op" where
  "on_boot_host m = on_lock (\<lambda>l. let (r, h) = m (lk_host l) in (r, l\<lparr>lk_host := h\<rparr>))"

definition create_dir_all :: "string \<Rightarrow> (host, unit) op" where
  "create_dir_all d h =
     (case ho_mkdir h d of
        Inl e \<Rightarrow> (Inl e, h)
      | Inr _ \<Rightarrow> (Inr (), h\<lparr>ho_fs := fs_exec (CreateDirAll d) (ho_fs h)\<rparr>))"

text \<open>
  The property list is written when the executable is known; a failure is ignored. Without a home
  directory the start panics.
\<close>

definition write_plist :: "string option \<Rightarrow> string option \<Rightarrow> AppPaths \<Rightarrow> (host, unit) op" where
  "write_plist exe home_dir paths h =
     (case exe of
        None \<Rightarrow> (Inr (), h)
      | Some path \<Rightarrow>
          case home_dir of
            None \<Rightarrow> (Inl ''home dir'', h)
          | Some home \<Rightarrow> (Inr (), snd (fs_write (ap_launchd_plist_path paths)
              (render_launchd_plist path (ap_config_path paths) home) h)))"

definition db_ready_failed :: "string \<Rightarrow> string \<Rightarrow> HardFailureEvent" where
  "db_ready_failed database_path err =
     \<lparr>he_kind = ''db_sink_ready_failed'', he_component = ''storage'', he_target = Some database_path,
      he_message = err, he_metadata = JObj [(''database_path'', JStr database_path)]\<rparr>"

definition prepare_store :: "boot_env \<Rightarrow> Config \<Rightarrow> HardFailureHooks
    \<Rightarrow> (boot_world, DeliveryStore option \<times> HardFailureHooks) op" where
  "prepare_store bt config hooks w =
     (if list_ex (\<lambda>sink. sk_enabled sink \<and> sk_kind sink = Db) (cf_sinks config)
      then let store = delivery_store_new (cf_storage config);
               (r, db) = ensure_ready store (bo_db w)
           in case r of
                Inr _ \<Rightarrow> (Inr (Some store, hooks), w\<lparr>bo_db := db\<rparr>)
              | Inl err \<Rightarrow>
                  let (runs, hs) = fire (bt_print_event bt) (bt_clock bt)
                        (db_ready_failed (sc_database_path (cf_storage config)) err) hooks
                  in (Inl err, w\<lparr>bo_db := db, bo_runs := bo_runs w @ runs\<rparr>)
      else (Inr (None, hooks), w))"

definition boot_tasks :: "boot_env \<Rightarrow> Config \<Rightarrow> (boot_world, daemon) op" where
  "boot_tasks bt config =
     (let paths = cf_paths config; status = daemon_status_new config
      in andthen (on_boot_host (create_dir_all (ap_root paths))) (\<lambda>_.
         andthen (on_boot_host (create_parent (ap_log_file paths))) (\<lambda>_.
         andthen (on_boot_host (write_plist (bt_exe bt) (ce_home (sp_config (bt_setup bt))) paths)) (\<lambda>_.
         andthen (prepare_store bt config (hooks_new (cf_hard_failure_hooks config))) (\<lambda>(store, hooks).
         andthen (on_boot_host (start_gateway_client ((bt_gateway bt)\<lparr>gv_config := config\<rparr>)
           (bt_fresh_device bt) status hooks)) (\<lambda>gateway w.
         let live = start_managers (bt_setup bt) (lk_host (bo_lock w)) config
         in (Inr \<lparr>dm_store = store, dm_gateway = gateway, dm_live = live,
                 dm_supervisor = supervisor_start hooks (map fst (lv_server_tasks live))\<rparr>, w)))))))"

text \<open>The lock is held until the function returns, also when the start fails.\<close>

definition boot :: "boot_env \<Rightarrow> Config \<Rightarrow> (boot_world, daemon) op" where
  "boot bt config =
     (let path = ap_state_lock_path (cf_paths config)
      in andthen (on_lock (acquire path)) (\<lambda>_ w.
         case boot_tasks bt config w of
           (Inl e, w') \<Rightarrow> (Inl e, w'\<lparr>bo_lock := release path (bo_lock w')\<rparr>)
         | (Inr d, w') \<Rightarrow> (Inr d, w')))"

end
