(* ===== verification/Cli.thy ===== *)
theory Cli
  imports Supervisor
begin

text \<open>
  The command line, \<^verbatim>\<open>src/src/main.rs\<close>, with the client of the local interface, the module
  \<open>client\<close> of \<^verbatim>\<open>src/src/ipc.rs\<close>.

  The exchange with the daemon over its socket, the JSON texts and the terminal are given by
  \<open>client_env\<close> and \<open>terminal\<close>. Arguments are parsed by the library; the commands work on the parsed
  ones. Of \<open>init_logging\<close> only the directory it creates is visible.
\<close>

section \<open>The client of the local interface\<close>

record ClientSendResult =
  cs_server :: string
  cs_sent :: bool
  cs_subspace_message_id :: "string option"
  cs_idempotency_key :: "string option"
  cs_error :: "string option"

record ClientResponse =
  cr_ok :: bool
  cr_results :: "ClientSendResult list"
  cr_error :: "json option"

record ClientSendRequest =
  cq_text :: string
  cq_idempotency_key :: "string option"
  cq_server :: "string option"
  cq_embeddings :: "MessageEmbedding list"
  cq_generate_for_spaces :: "string list"
  cq_generated_embeddings_override_supplied :: bool

record client_env =
  cl_connect :: "string \<Rightarrow> unit result"
  cl_exchange :: "string \<Rightarrow> ipc_request \<Rightarrow> (nat \<times> string) result"
  cl_print_setup :: "SetupRequest \<Rightarrow> string"
  cl_print_json :: "json \<Rightarrow> string"
  cl_parse_setup_result :: "string \<Rightarrow> SetupResult result"
  cl_parse_response :: "string \<Rightarrow> ClientResponse result"
  cl_status_text :: "nat \<Rightarrow> string"
  cl_lossy :: "string \<Rightarrow> string"
  cl_uuid :: string

definition connect_socket :: "client_env \<Rightarrow> string \<Rightarrow> unit result" where
  "connect_socket cl socket_path =
     with_context (''failed connecting to '' @ socket_path) (cl_connect cl socket_path)"

definition daemon_returned :: "client_env \<Rightarrow> nat \<Rightarrow> string \<Rightarrow> string" where
  "daemon_returned cl status body = ''daemon returned '' @ cl_status_text cl status @ '': '' @ cl_lossy cl body"

definition parse_failed :: "client_env \<Rightarrow> string \<Rightarrow> string" where
  "parse_failed cl body = ''failed parsing daemon response: '' @ cl_lossy cl body"

definition setup_via_socket :: "client_env \<Rightarrow> string \<Rightarrow> SetupRequest \<Rightarrow> SetupResult result" where
  "setup_via_socket cl socket_path request =
     rbind (connect_socket cl socket_path) (\<lambda>_.
     rbind (cl_exchange cl socket_path \<lparr>ir_method = ''POST'', ir_path = ''/v1/setup'',
       ir_body = Inr (cl_print_setup cl request)\<rparr>) (\<lambda>(status, body).
     if status \<noteq> 200 then Inl (daemon_returned cl status body)
     else with_context (parse_failed cl body) (cl_parse_setup_result cl body)))"

definition json_opt_str :: "string option \<Rightarrow> json" where
  "json_opt_str x = (case x of None \<Rightarrow> JNull | Some s \<Rightarrow> JStr s)"

definition send_request_json :: "client_env \<Rightarrow> ClientSendRequest \<Rightarrow> json" where
  "send_request_json cl request =
     JObj [(''text'', JStr (cq_text request)), (''server'', json_opt_str (cq_server request)),
       (''idempotency_key'', JStr (unwrap_or (cl_uuid cl) (cq_idempotency_key request))),
       (''embeddings'', sender_embeddings_json (cq_embeddings request)),
       (''generate_for_spaces'', JArr (map JStr (cq_generate_for_spaces request))),
       (''generated_embeddings_override_supplied'', JBool (cq_generated_embeddings_override_supplied request))]"

text \<open>Here the body is parsed before the status is looked at.\<close>

definition send_via_socket :: "client_env \<Rightarrow> string \<Rightarrow> ClientSendRequest \<Rightarrow> ClientResponse result" where
  "send_via_socket cl socket_path request =
     rbind (connect_socket cl socket_path) (\<lambda>_.
     rbind (cl_exchange cl socket_path \<lparr>ir_method = ''POST'', ir_path = ''/v1/messages'',
       ir_body = Inr (cl_print_json cl (send_request_json cl request))\<rparr>) (\<lambda>(status, body).
     rbind (with_context (parse_failed cl body) (cl_parse_response cl body)) (\<lambda>parsed.
     if status \<noteq> 200 then Inl (daemon_returned cl status body) else Inr parsed)))"

section \<open>Commands\<close>

record SendArgs =
  as_config :: string
  as_server :: "string option"
  as_idempotency_key :: "string option"
  as_text :: string

record SetupArgs =
  ag_url :: string
  ag_name :: "string option"
  ag_identity :: "string option"

record EvalAttentionArgs =
  ae_config :: string
  ae_server :: string
  ae_embedding_json :: string
  ae_text :: string

datatype cli_command =
    Serve string
  | Send SendArgs
  | SetupServer SetupArgs
  | EvalAttention EvalAttentionArgs
  | ShowVersion

definition argv0_mode :: "string option \<Rightarrow> string option" where
  "argv0_mode argv0 =
     Option.bind argv0 (\<lambda>path.
     Option.bind (file_name path) (\<lambda>name. if name = ''subspace-send'' then Some ''send'' else None))"

text \<open>\<open>main\<close>: the command that is run; \<open>send_args\<close> are the arguments of \<open>subspace-send\<close>.\<close>

definition main_command :: "config_env \<Rightarrow> string option \<Rightarrow> SendArgs \<Rightarrow> bool \<Rightarrow> cli_command option \<Rightarrow> cli_command" where
  "main_command ce argv0 send_args version command =
     (if argv0_mode argv0 = Some ''send'' then Send send_args
      else if version then ShowVersion
      else case command of Some c \<Rightarrow> c | None \<Rightarrow> Serve (default_config_path ce))"

record terminal =
  tm_flush :: "unit result"
  tm_line :: "string result"

record cli_world =
  cw_lock :: lock_host
  cw_http :: http
  cw_out :: "string list"

definition print_line :: "string \<Rightarrow> cli_world \<Rightarrow> cli_world" where
  "print_line line w = w\<lparr>cw_out := cw_out w @ [line]\<rparr>"

section \<open>send\<close>

definition quote_char :: string where
  "quote_char = [CHR 0x27]"

definition send_target :: "string option \<Rightarrow> string option result" where
  "send_target server =
     (case server of
        None \<Rightarrow> Inl (''--server is required. Use --server <url> to target a specific server, or --server ''
                     @ quote_char @ ''*'' @ quote_char @ '' to broadcast to all.'')
      | Some s \<Rightarrow> Inr (if s = ''*'' then None else Some s))"

definition send :: "config_env \<Rightarrow> client_env \<Rightarrow> SendArgs \<Rightarrow> ClientResponse result" where
  "send ce cl args =
     rbind (send_target (as_server args)) (\<lambda>server.
     rbind (config_load ce (as_config args)) (\<lambda>config.
     send_via_socket cl (ap_socket_path (cf_paths config))
       \<lparr>cq_text = as_text args, cq_idempotency_key = as_idempotency_key args, cq_server = server,
        cq_embeddings = [], cq_generate_for_spaces = [],
        cq_generated_embeddings_override_supplied = False\<rparr>))"

section \<open>setup\<close>

definition validate_registration_name :: "string \<Rightarrow> string result" where
  "validate_registration_name name =
     (if trim name = [] then Inl ''registration name must not be empty'' else Inr (trim name))"

definition prompt_with_default :: "terminal \<Rightarrow> string \<Rightarrow> string \<Rightarrow> (cli_world, string) op" where
  "prompt_with_default tm label preset w =
     (rbind (tm_flush tm) (\<lambda>_.
      rbind (tm_line tm) (\<lambda>input.
      if trim input = [] then Inr preset else validate_registration_name (trim input))),
      print_line (label @ '' ['' @ preset @ '']: '') w)"

definition existing_setup_registration_name :: "config_env \<Rightarrow> identity_lib \<Rightarrow> string \<Rightarrow> string \<Rightarrow> host
    \<Rightarrow> string option result" where
  "existing_setup_registration_name ce lib config_path base_url h =
     rbind (stored_load_or_default ce config_path) (\<lambda>stored.
     case Option.bind (find (names_url ce base_url) (so_servers stored)) ss_registration_name of
       Some name \<Rightarrow> Inr (Some name)
     | None \<Rightarrow>
         rbind (derive_app_paths ce config_path None) (\<lambda>paths.
         rbind (derive_server_key ce base_url) (\<lambda>server_key.
         rbind (fst (load_session_record lib (setup_session_path paths server_key) h)) (\<lambda>existing_session.
         Inr (case existing_session of
                Some (LegacySession session) \<Rightarrow> Some (lg_registration_name session)
              | _ \<Rightarrow> None)))))"

definition setup_name :: "setup_env \<Rightarrow> terminal \<Rightarrow> SetupArgs \<Rightarrow> string option \<Rightarrow> (cli_world, string option) op" where
  "setup_name env tm args existing_name w =
     (case ag_name args of
        Some name \<Rightarrow> (rbind (validate_registration_name name) (\<lambda>n. Inr (Some n)), w)
      | None \<Rightarrow>
          if existing_name \<noteq> None then (Inr None, w)
          else andthen (prompt_with_default tm ''Subspace registration name''
                 (default_registration_name (ho_fs (lk_host (cw_lock w))))) (\<lambda>n. ret (Some n)) w)"

definition print_setup_result :: "SetupResult \<Rightarrow> string list" where
  "print_setup_result result =
     [''configured Subspace server'', ''base_url: '' @ sr_base_url result,
      ''server_key: '' @ sr_server_key result, ''session_path: '' @ sr_session_path result,
      ''config_path: '' @ sr_config_path result,
      if sr_had_existing_session result then ''identity: preserved existing identity assignment''
      else ''identity: '' @ sr_identity result]
     @ (if sr_applied_live result then [''live_apply: true''] else [])
     @ [''agent_id: '' @ sr_agent_id result]"

text \<open>The setup in this process, without a running daemon.\<close>

definition setup_here :: "setup_env \<Rightarrow> SetupRequest \<Rightarrow> (cli_world, SetupResult) op" where
  "setup_here env request w =
     (let (r, sw) = perform_setup env request
            \<lparr>sw_host = lk_host (cw_lock w), sw_http = cw_http w, sw_runtime = None\<rparr>
      in (r, w\<lparr>cw_lock := (cw_lock w)\<lparr>lk_host := sw_host sw\<rparr>, cw_http := sw_http sw\<rparr>))"

definition on_cli_lock :: "(lock_host, 'a) op \<Rightarrow> (cli_world, 'a) op" where
  "on_cli_lock m w = (let (r, l) = m (cw_lock w) in (r, w\<lparr>cw_lock := l\<rparr>))"

text \<open>The guard of the lock is dropped whether or not the setup succeeds.\<close>

definition setup_locked :: "setup_env \<Rightarrow> client_env \<Rightarrow> AppPaths \<Rightarrow> SetupRequest \<Rightarrow> (cli_world, SetupResult) op" where
  "setup_locked env cl paths request =
     andthen (on_cli_lock (try_acquire (ap_state_lock_path paths))) (\<lambda>acquired.
     if acquired
     then (\<lambda>w. let (r, w') = setup_here env request w
               in (r, w'\<lparr>cw_lock := release (ap_state_lock_path paths) (cw_lock w')\<rparr>))
     else lift (setup_via_socket cl (ap_socket_path paths) request))"

definition setup_server :: "setup_env \<Rightarrow> client_env \<Rightarrow> terminal \<Rightarrow> SetupArgs \<Rightarrow> (cli_world, unit) op" where
  "setup_server env cl tm args w =
     (let h = lk_host (cw_lock w); ce = config_at env h; config_path = default_config_path ce
      in andthen (lift (canonicalize_base_url ce (ag_url args))) (\<lambda>base_url.
         andthen (lift (existing_setup_registration_name ce (sp_lib env) config_path base_url h)) (\<lambda>existing_name.
         andthen (setup_name env tm args existing_name) (\<lambda>name.
         let request = \<lparr>sq_url = ag_url args, sq_name = name, sq_identity = ag_identity args\<rparr>
         in andthen (lift (derive_app_paths ce config_path None)) (\<lambda>paths.
            andthen (setup_locked env cl paths request) (\<lambda>result w'.
            (Inr (), fold print_line (print_setup_result result) w')))))) w)"

section \<open>eval-attention, version and serve\<close>

definition load_eval_embeddings :: "(string \<Rightarrow> json result) \<Rightarrow> fsys \<Rightarrow> string \<Rightarrow> MessageEmbedding list result" where
  "load_eval_embeddings parse fs path =
     rbind (rbind (fs_read fs path) parse) (\<lambda>value.
     rbind (ok_or ''embedding_json must include top-level space_id'' (json_str_at ''space_id'' value)) (\<lambda>space_id.
     rbind (ok_or ''embedding_json must include vectors[]''
       (Option.bind (json_get ''vectors'' value) json_as_array)) (\<lambda>vectors.
     case vectors of
       [] \<Rightarrow> Inl ''embedding_json vectors[] must not be empty''
     | first_vector # _ \<Rightarrow>
         rbind (ok_or ''embedding_json vectors[0].vector must be an array''
           (Option.bind (json_get ''vector'' first_vector) json_as_array)) (\<lambda>xs.
         rbind (try_map (\<lambda>x. rbind (ok_or ''embedding vector values must be numbers'' (json_as_f64 x))
             (\<lambda>number. Inr (f32_of_f64 number))) xs) (\<lambda>vector.
         Inr [\<lparr>me_space_id = space_id, me_vector = vector\<rparr>])))))"

definition init_logging :: "string \<Rightarrow> (host, unit) op" where
  "init_logging log_file = create_parent log_file"

text \<open>The result is the evaluation with the state of the veto enforcement, as they are printed.\<close>

definition eval_attention :: "setup_env \<Rightarrow> (string \<Rightarrow> json result) \<Rightarrow> EvalAttentionArgs
    \<Rightarrow> (host, AttentionResult \<times> string) op" where
  "eval_attention env parse args h =
     andthen (lift (config_load (config_at env h) (ae_config args))) (\<lambda>config.
     andthen (init_logging (ap_log_file (cf_paths config))) (\<lambda>_ h'.
     (rbind (ok_or (''configured server not found: '' @ ae_server args)
        (find (\<lambda>server. sv_base_url server = ae_server args \<or> sv_server_key server = ae_server args)
          (cf_servers config))) (\<lambda>server.
      let attention = attention_new ((sp_attention env)\<lparr>env_fs := ho_fs h'\<rparr>)
            ((cf_attention config)\<lparr>ac_local_pack_paths :=
               effective_local_pack_paths server (ac_local_pack_paths (cf_attention config))\<rparr>)
      in rbind (load_eval_embeddings parse (ho_fs h') (ae_embedding_json args)) (\<lambda>embeddings.
         Inr (evaluate attention embeddings, veto_enforcement_state attention))), h'))) h"

definition show_version :: "build_env \<Rightarrow> BuildInfo" where
  "show_version be = build_info_current be (current_exe_sha256 be)"

text \<open>The start of \<open>serve\<close>.\<close>

definition serve :: "boot_env \<Rightarrow> string \<Rightarrow> (boot_world, daemon) op" where
  "serve bt config_path w =
     andthen (lift (config_load (config_at (bt_setup bt) (lk_host (bo_lock w))) config_path)) (\<lambda>config.
     andthen (on_boot_host (init_logging (ap_log_file (cf_paths config)))) (\<lambda>_.
     boot bt config)) w"

end
