(* ===== verification/Setup_Properties.thy ===== *)
theory Setup_Properties
  imports Setup
begin

text \<open>
  What a setup leaves behind: the files it writes are kept apart by their paths, the session it
  reports is the one a manager of the server loads, and the managers of a running daemon are one
  per server.
\<close>

section \<open>Paths\<close>

lemma join_below: "a \<noteq> [] \<Longrightarrow> last a \<noteq> CHR ''/'' \<Longrightarrow> \<not> prefix ''/'' b \<Longrightarrow> path_join a b = a @ ''/'' @ b"
  by (auto simp: path_join_def suffix_def)

text \<open>The layout below an absolute home directory.\<close>

lemma default_paths:
  assumes home: "ce_home ce = Some home" "prefix ''/'' home"
    and paths: "derive_app_paths ce (default_config_path ce) None = Inr paths"
  shows "ap_config_path paths = default_config_path ce"
    and "default_config_path ce = path_join (ap_root paths) ''config.json''"
    and "ap_identities_dir paths = path_join (ap_root paths) ''identities''"
    and "ap_root paths \<noteq> []" and "last (ap_root paths) \<noteq> CHR ''/''"
proof -
  let ?root = "path_join home ''.openclaw/subspace-daemon''"
  have root: "?root \<noteq> []" "last ?root \<noteq> CHR ''/''" by (auto simp: path_join_def)
  have config: "default_config_path ce = path_join ?root ''config.json''"
    using root by (auto simp: default_config_path_def expand_tilde_def home path_join_def suffix_def)
  have "prefix ''/'' (default_config_path ce)"
    using home(2) unfolding config by (auto simp: path_join_def prefix_def)
  then have same: "expand_tilde (ce_home ce) (default_config_path ce) = default_config_path ce"
    by (auto simp: expand_tilde_def prefix_def)
  have "plain_component ''config.json''" by (simp add: plain_component_def)
  from path_parent_join [OF this root] have "path_parent (default_config_path ce) = Some ?root"
    by (simp add: config)
  with paths same have "ap_root paths = ?root" "ap_config_path paths = default_config_path ce"
    "ap_identities_dir paths = path_join ?root ''identities''"
    by (auto simp: derive_app_paths_def home)
  then show "ap_config_path paths = default_config_path ce"
    "default_config_path ce = path_join (ap_root paths) ''config.json''"
    "ap_identities_dir paths = path_join (ap_root paths) ''identities''"
    "ap_root paths \<noteq> []" "last (ap_root paths) \<noteq> CHR ''/''"
    using root config by simp_all
qed

lemma with_extension_tmp:
  assumes "takeWhile (\<lambda>c. c \<noteq> CHR ''/'') (rev x) \<noteq> []"
  shows "with_extension (x @ ''.json'') ''tmp'' = x @ ''.tmp''"
proof -
  define w where "w = rev (takeWhile (\<lambda>c. c \<noteq> CHR ''/'') (rev x))"
  have w: "w \<noteq> []" using assms by (simp add: w_def)
  have "suffix w x"
    unfolding w_def suffix_to_prefix by (simp add: takeWhile_is_prefix)
  then obtain a where x: "x = a @ w" by (auto simp: suffix_def)
  have "with_extension (x @ ''.json'') ''tmp''
      = take (length (x @ ''.json'') - length (w @ ''.json'')) (x @ ''.json'') @ w @ ''.tmp''"
    using w by (simp add: with_extension_def file_name_json stem_json flip: w_def)
  then show ?thesis by (simp add: x)
qed

text \<open>A file below \<open>base\<close> and its temporary file, by the part of the path after \<open>base\<close>.\<close>

definition below :: "string \<Rightarrow> string \<Rightarrow> string" where
  "below base rel = base @ ''/'' @ rel"

lemma below_inject [simp]: "below base a = below base b \<longleftrightarrow> a = b"
  by (simp add: below_def)

lemma below_tmp:
  assumes "rel \<noteq> []" and "last rel \<noteq> CHR ''/''"
  shows "with_extension (below base (rel @ ''.json'')) ''tmp'' = below base (rel @ ''.tmp'')"
proof -
  have "takeWhile (\<lambda>c. c \<noteq> CHR ''/'') (rev (below base rel)) \<noteq> []"
    using assms by (cases rel rule: rev_cases) (auto simp: below_def)
  from with_extension_tmp [OF this] show ?thesis by (simp add: below_def)
qed

text \<open>Writing one of these files leaves another one as it is.\<close>

lemma persist_json_frame:
  assumes run: "persist_json (below base (a @ ''.json'')) content h = (Inr u, h')"
    and a: "a \<noteq> []" "last a \<noteq> CHR ''/''" and b: "b \<noteq> a"
    and there: "fs_is_file (ho_fs h) (below base (b @ ''.json''))"
  shows "ho_fs h' (below base (b @ ''.json'')) = ho_fs h (below base (b @ ''.json''))"
proof -
  have "below base (b @ ''.json'') \<noteq> with_extension (below base (a @ ''.json'')) ''tmp''"
  proof
    assume "below base (b @ ''.json'') = with_extension (below base (a @ ''.json'')) ''tmp''"
    then have "b @ ''.json'' = a @ ''.tmp''" by (simp add: below_tmp a)
    then have "last (b @ ''.json'') = last (a @ ''.tmp'')" by simp
    then show False by simp
  qed
  moreover have "below base (b @ ''.json'') \<noteq> below base (a @ ''.json'')" using b by simp
  ultimately show ?thesis using run there by (auto simp: persist_json_ok write_json_atomic_frame)
qed

section \<open>A session that a manager can use\<close>

text \<open>
  The session file holds a session of the identity and the agent, and the file of that identity
  holds a key pair with the agent as its public key.
\<close>

definition usable :: "identity_lib \<Rightarrow> string \<Rightarrow> string \<Rightarrow> string \<Rightarrow> string \<Rightarrow> fsys \<Rightarrow> bool" where
  "usable lib dir session_path name agent fs \<longleftrightarrow>
     (\<exists>s. rbind (fs_read fs session_path) (il_parse_session lib) = Inr s
        \<and> se_identity s = name \<and> se_agent_id s = agent) \<and>
     (\<exists>r. rbind (rbind (fs_read fs (identity_path dir name)) (il_parse_identity lib))
            (identity_of_file lib (identity_path dir name)) = Inr r
        \<and> ni_public_key r = agent)"

lemma fs_read_Inr: "fs_read fs p = Inr content \<longleftrightarrow> fs p = Some (RegularFile (Inr content))"
  by (auto simp: fs_read_def split: option.splits node.splits)

lemma identity_load_Some_iff:
  "identity_load lib path h = (Inr (Some r), h') \<longleftrightarrow>
     h' = h \<and> rbind (rbind (fs_read (ho_fs h) path) (il_parse_identity lib))
       (identity_of_file lib path) = Inr r"
  by (auto simp: identity_load_def fs_exists_def result_iffs fs_read_Inr)

lemma load_session_record_current:
  assumes "rbind (fs_read (ho_fs h) path) (il_parse_session lib) = Inr s"
  shows "load_session_record lib path h = (Inr (Some (CurrentSession s)), h)"
  using assms by (auto simp: load_session_record_def fs_exists_def result_iffs fs_read_Inr)

lemma load_session_record_currentD:
  assumes "load_session_record lib path h = (Inr (Some (CurrentSession s)), h')"
  shows "rbind (fs_read (ho_fs h) path) (il_parse_session lib) = Inr s"
  using assms
  by (cases "fs_read (ho_fs h) path")
    (auto simp: load_session_record_def result_iffs split: if_splits sum.splits)

lemma load_session_record_legacyD:
  assumes "fst (load_session_record lib path h) = Inr (Some (LegacySession s))"
  shows "\<exists>d. il_pkcs8_decode lib d = Inr (lg_signing_key s)"
proof -
  from assms obtain content where "rbind (il_parse_legacy lib content) (session_of_legacy_file lib) = Inr s"
    by (cases "fs_read (ho_fs h) path"; cases "il_parse_session lib (projr (fs_read (ho_fs h) path))")
      (auto simp: load_session_record_def result_iffs split: if_splits)
  then show ?thesis by (auto simp: session_of_legacy_file_def result_iffs)
qed

lemma usable_cong:
  assumes "usable lib dir session_path name agent fs"
    and "fs' session_path = fs session_path"
    and "fs' (identity_path dir name) = fs (identity_path dir name)"
  shows "usable lib dir session_path name agent fs'"
  using assms by (simp add: usable_def fs_read_def)

lemma usable_files:
  assumes "usable lib dir session_path name agent fs"
  shows "fs_is_file fs session_path" and "fs_is_file fs (identity_path dir name)"
  using assms by (auto simp: usable_def result_iffs fs_read_Inr fs_is_file_def)

lemma usable_loads:
  assumes "usable (sx_lib sx) (sx_identities_dir sx) (sv_session_path (sx_server sx)) name agent (ho_fs h)"
  shows "\<exists>s r. load_active sx h = Inr (Some (ActiveCurrent s r)) \<and> se_identity s = name
    \<and> se_agent_id s = agent \<and> ni_public_key r = agent"
proof -
  from assms obtain s r where
    s: "rbind (fs_read (ho_fs h) (sv_session_path (sx_server sx))) (il_parse_session (sx_lib sx)) = Inr s"
    "se_identity s = name" "se_agent_id s = agent"
    and r: "identity_load (sx_lib sx) (identity_path (sx_identities_dir sx) name) h = (Inr (Some r), h)"
    "ni_public_key r = agent"
    by (auto simp: usable_def identity_load_Some_iff)
  from load_session_record_current [OF s(1)] r s(2,3) show ?thesis
    by (simp add: load_active_def identity_path_def ensure_matches_agent_id_def Let_def)
qed

section \<open>Identities on the way\<close>

text \<open>An identity that was found or has just been written is there under its name.\<close>

lemma identity_there:
  assumes found: "identity_load lib (identity_path dir n) h = (Inr (Some r), h) \<and> h' = h
      \<or> ni_name r = n \<and> length (ni_signing_key r) = 32
        \<and> (\<exists>u. identity_persist lib (identity_path dir n) r h = (Inr u, h'))"
    and json: "\<forall>f. il_parse_identity lib (il_print_identity lib f) = Inr f"
    and b64: "\<forall>k. il_b64_decode lib (il_b64_encode lib k) = Inr k"
    and n: "CHR ''/'' \<notin> set n" "n \<noteq> []"
  shows "ni_name r = n \<and> identity_load lib (identity_path dir n) h' = (Inr (Some r), h')"
  using found
proof (elim disjE conjE exE)
  assume load: "identity_load lib (identity_path dir n) h = (Inr (Some r), h)" "h' = h"
  then have "ni_name r = unwrap_or [] (file_stem (identity_path dir n))"
    by (auto simp: identity_load_Some_iff result_iffs identity_of_file_def Let_def)
  with load show ?thesis by (simp add: file_stem_plain [OF n])
next
  fix u
  assume r: "ni_name r = n" "length (ni_signing_key r) = 32"
    and "identity_persist lib (identity_path dir n) r h = (Inr u, h')"
  with identity_persist_reload [of lib dir r h u h'] json b64 show ?thesis
    by (simp add: file_stem_plain [OF n])
qed

lemma load_or_create_there:
  assumes run: "load_or_create lib fresh dir name h = (Inr r, h')"
    and json: "\<forall>f. il_parse_identity lib (il_print_identity lib f) = Inr f"
    and b64: "\<forall>k. il_b64_decode lib (il_b64_encode lib k) = Inr k"
    and key: "length fresh = 32" and plain: "CHR ''/'' \<notin> set (trim name)"
  shows "ni_name r = trim name \<and> identity_load lib (identity_path dir (trim name)) h' = (Inr (Some r), h')"
proof (rule identity_there [OF _ json b64 plain])
  show "identity_load lib (identity_path dir (trim name)) h = (Inr (Some r), h) \<and> h' = h
      \<or> ni_name r = trim name \<and> length (ni_signing_key r) = 32
        \<and> (\<exists>u. identity_persist lib (identity_path dir (trim name)) r h = (Inr u, h'))"
  proof -
    from run obtain existing h1 where load: "identity_load lib (identity_path dir (trim name)) h = (Inr existing, h1)"
      by (auto simp: load_or_create_def andthen_Inr_iff [of "lift x" for x] lift_def validate_name_def Let_def
          split: if_splits) (auto simp: andthen_Inr_iff)
    then have "h1 = h" using loads_pure(1) [of lib "identity_path dir (trim name)" h] by simp
    with run load key show ?thesis
      by (cases existing) (auto simp: load_or_create_def andthen_def lift_def validate_name_def Let_def ret_def
          split: if_splits prod.splits sum.splits)
  qed
  show "trim name \<noteq> []"
    using run by (auto simp: load_or_create_def andthen_Inr_iff lift_def validate_name_def split: if_splits)
qed

lemma from_legacy_there:
  assumes run: "load_or_create_from_legacy lib dir name legacy h = (Inr r, h')"
    and json: "\<forall>f. il_parse_identity lib (il_print_identity lib f) = Inr f"
    and b64: "\<forall>k. il_b64_decode lib (il_b64_encode lib k) = Inr k"
    and key: "length (lg_signing_key legacy) = 32" and plain: "CHR ''/'' \<notin> set (trim name)"
  shows "ni_name r = trim name \<and> identity_load lib (identity_path dir (trim name)) h' = (Inr (Some r), h')"
proof (rule identity_there [OF _ json b64 plain])
  show "identity_load lib (identity_path dir (trim name)) h = (Inr (Some r), h) \<and> h' = h
      \<or> ni_name r = trim name \<and> length (ni_signing_key r) = 32
        \<and> (\<exists>u. identity_persist lib (identity_path dir (trim name)) r h = (Inr u, h'))"
  proof -
    from run obtain existing h1 where load: "identity_load lib (identity_path dir (trim name)) h = (Inr existing, h1)"
      by (auto simp: load_or_create_from_legacy_def andthen_Inr_iff [of "lift x" for x] lift_def validate_name_def Let_def
          split: if_splits) (auto simp: andthen_Inr_iff)
    then have "h1 = h" using loads_pure(1) [of lib "identity_path dir (trim name)" h] by simp
    with run load key show ?thesis
      by (cases existing) (auto simp: load_or_create_from_legacy_def andthen_def lift_def validate_name_def Let_def ret_def
          split: if_splits prod.splits sum.splits)
  qed
  show "trim name \<noteq> []"
    using run by (auto simp: load_or_create_from_legacy_def andthen_Inr_iff lift_def validate_name_def
        split: if_splits)
qed

section \<open>The three kinds of files\<close>

definition session_rel :: "string \<Rightarrow> string" where
  "session_rel key = ''servers/'' @ key @ ''/subspace-session''"

definition identity_rel :: "string \<Rightarrow> string" where
  "identity_rel n = ''identities/'' @ n"

definition config_rel :: string where
  "config_rel = ''config''"

lemma rel_distinct:
  "session_rel key \<noteq> identity_rel n" "config_rel \<noteq> session_rel key" "config_rel \<noteq> identity_rel n"
  by (simp_all add: session_rel_def identity_rel_def config_rel_def)

lemma rel_ends [simp]:
  "session_rel key \<noteq> []" "last (session_rel key) \<noteq> CHR ''/''"
  "config_rel \<noteq> []" "last config_rel \<noteq> CHR ''/''"
  by (simp_all add: session_rel_def config_rel_def)

lemma identity_path_below:
  assumes "CHR ''/'' \<notin> set n"
  shows "identity_path (below base ''identities'') n = below base (identity_rel n @ ''.json'')"
proof -
  have "\<not> prefix ''/'' (n @ ''.json'')" using assms by (cases n) auto
  then show ?thesis by (simp add: identity_path_def join_below below_def identity_rel_def)
qed

lemma session_path_below:
  assumes "ap_root paths \<noteq> []" "last (ap_root paths) \<noteq> CHR ''/''" "safe_key key"
  shows "setup_session_path paths key = below (ap_root paths) (session_rel key @ ''.json'')"
proof -
  have plain: "plain_component key" by (rule safe_key_plain [OF assms(3)])
  then have "last key \<noteq> CHR ''/''" "key \<noteq> []"
    by (cases key rule: rev_cases; auto simp: plain_component_def)+
  then show ?thesis using assms path_join_plain [OF plain]
    by (simp add: setup_session_path_def join_below below_def session_rel_def)
qed

text \<open>The session is written after its identity.\<close>

lemma session_written:
  assumes r: "identity_load lib (identity_path (below base ''identities'') n) h = (Inr (Some r), h)"
    and run: "session_persist lib (below base (session_rel key @ ''.json'')) s h = (Inr u, h')"
    and s: "se_identity s = n" "se_agent_id s = ni_public_key r"
    and json: "\<forall>s. il_parse_session lib (il_print_session lib s) = Inr s"
    and n: "CHR ''/'' \<notin> set n"
  shows "usable lib (below base ''identities'') (below base (session_rel key @ ''.json'')) n
    (ni_public_key r) (ho_fs h')"
proof -
  let ?i = "identity_path (below base ''identities'') n"
  let ?s = "below base (session_rel key @ ''.json'')"
  have run': "persist_json ?s (il_print_session lib s) h = (Inr u, h')"
    using run by (simp add: session_persist_def)
  have "fs_is_file (ho_fs h) ?i"
    using r by (auto simp: identity_load_Some_iff result_iffs fs_read_Inr fs_is_file_def)
  then have frame: "ho_fs h' ?i = ho_fs h ?i"
    using persist_json_frame [OF run' rel_ends(1,2), of "identity_rel n"] rel_distinct(1) [of key n]
    by (simp add: identity_path_below [OF n])
  have "with_extension ?s ''tmp'' \<noteq> ?s" by (simp add: below_tmp)
  from persist_json_read [OF run' this] have "fs_read (ho_fs h') ?s = Inr (il_print_session lib s)"
    by (simp add: fs_read_Inr)
  moreover have "fs_read (ho_fs h') ?i = fs_read (ho_fs h) ?i" using frame by (simp add: fs_read_def)
  ultimately show ?thesis using r s json by (auto simp: usable_def identity_load_Some_iff)
qed

text \<open>The configuration is written last.\<close>

lemma usable_after_config:
  assumes "usable lib (below base ''identities'') (below base (session_rel key @ ''.json'')) n agent (ho_fs h)"
    and run: "persist_json (below base (config_rel @ ''.json'')) content h = (Inr u, h')"
    and n: "CHR ''/'' \<notin> set n"
  shows "usable lib (below base ''identities'') (below base (session_rel key @ ''.json'')) n agent (ho_fs h')"
proof (rule usable_cong [OF assms(1)])
  note frame = persist_json_frame [OF run rel_ends(3,4)]
  show "ho_fs h' (below base (session_rel key @ ''.json'')) = ho_fs h (below base (session_rel key @ ''.json''))"
    by (rule frame) (use usable_files(1) [OF assms(1)] rel_distinct(2) [of key] in simp_all)
  have "ho_fs h' (below base (identity_rel n @ ''.json''))
      = ho_fs h (below base (identity_rel n @ ''.json''))"
    by (rule frame)
      (use usable_files(2) [OF assms(1)] rel_distinct(3) [of n] in \<open>simp_all add: identity_path_below [OF n]\<close>)
  then show "ho_fs h' (identity_path (below base ''identities'') n)
      = ho_fs h (identity_path (below base ''identities'') n)"
    by (simp add: identity_path_below [OF n])
qed

section \<open>The three ways to an identity\<close>

lemma on_host_Inr: "on_host m w = (Inr x, w') \<longleftrightarrow> (\<exists>h. m (sw_host w) = (Inr x, h) \<and> w' = w\<lparr>sw_host := h\<rparr>)"
  by (auto simp: on_host_def split: prod.splits)

lemma on_http_Inr: "on_http m w = (Inr x, w') \<longleftrightarrow> (\<exists>h. m (sw_http w) = (Inr x, h) \<and> w' = w\<lparr>sw_http := h\<rparr>)"
  by (auto simp: on_http_def split: prod.splits)

lemma lift_Inr: "lift r w = (Inr x, w') \<longleftrightarrow> r = Inr x \<and> w' = w"
  by (auto simp: lift_def)

lemma ret_Inr: "ret y w = (Inr x, w') \<longleftrightarrow> y = x \<and> w' = w"
  by (auto simp: ret_def)

lemmas run_iffs = andthen_Inr_iff on_host_Inr on_http_Inr lift_Inr ret_Inr

lemma setup_current_usable:
  assumes run: "setup_current lib (below base ''identities'') requested s h = (Inr (n, agent), h')"
    and s: "rbind (fs_read (ho_fs h) session_path) (il_parse_session lib) = Inr s"
  shows "usable lib (below base ''identities'') session_path n agent (ho_fs h')"
proof -
  have "n = se_identity s" "agent = se_agent_id s"
    using run by (auto simp: setup_current_def run_iffs Let_def result_iffs split: option.splits)
  moreover from run obtain r h1 where "identity_load lib (identity_path (below base ''identities'') n) h = (Inr (Some r), h1)"
    "ni_public_key r = se_agent_id s" "h' = h1"
    by (auto simp: setup_current_def run_iffs Let_def result_iffs ensure_matches_agent_id_def)
  ultimately show ?thesis using s by (auto simp: usable_def identity_load_Some_iff)
qed

lemma setup_legacy_usable:
  assumes run: "setup_legacy lib (below base ''identities'') (below base (session_rel key @ ''.json''))
      requested legacy h = (Inr (n, agent), h')"
    and json: "\<forall>f. il_parse_identity lib (il_print_identity lib f) = Inr f"
      "\<forall>s. il_parse_session lib (il_print_session lib s) = Inr s"
    and b64: "\<forall>k. il_b64_decode lib (il_b64_encode lib k) = Inr k"
    and len: "length (lg_signing_key legacy) = 32"
    and plain: "\<forall>raw. requested = Some raw \<longrightarrow> CHR ''/'' \<notin> set (trim raw)"
  shows "usable lib (below base ''identities'') (below base (session_rel key @ ''.json'')) n agent (ho_fs h')"
proof -
  from run obtain raw r h1 migrated where raw: "requested = Some raw"
    and create: "load_or_create_from_legacy lib (below base ''identities'') raw legacy h = (Inr r, h1)"
    and migrate: "migrate_to_identity lib legacy r = Inr migrated"
    and persist: "session_persist lib (below base (session_rel key @ ''.json'')) migrated h1 = (Inr (), h')"
    and result: "n = ni_name r" "agent = se_agent_id migrated"
    by (auto simp: setup_legacy_def run_iffs result_iffs)
  have sep: "CHR ''/'' \<notin> set (trim raw)" using plain raw by simp
  note r = from_legacy_there [OF create json(1) b64 len sep]
  from migrate have m: "se_identity migrated = ni_name r" "se_agent_id migrated = ni_public_key r"
    by (auto simp: migrate_to_identity_def ensure_matches_agent_id_def result_iffs Let_def session_new_def
        session_update_token_def split: option.splits)
  show ?thesis
    using session_written [OF _ persist _ _ json(2) sep, of r] r m by (simp add: result)
qed

lemma setup_new_usable:
  assumes run: "setup_new env (below base ''identities'') (below base (session_rel key @ ''.json''))
      base_url name requested w = (Inr (n, agent), w')"
    and json: "\<forall>f. il_parse_identity (sp_lib env) (il_print_identity (sp_lib env) f) = Inr f"
      "\<forall>s. il_parse_session (sp_lib env) (il_print_session (sp_lib env) s) = Inr s"
    and b64: "\<forall>k. il_b64_decode (sp_lib env) (il_b64_encode (sp_lib env) k) = Inr k"
    and len: "length (sp_fresh env) = 32"
    and plain: "\<forall>raw. requested = Some raw \<longrightarrow> CHR ''/'' \<notin> set (trim raw)"
  shows "usable (sp_lib env) (below base ''identities'') (below base (session_rel key @ ''.json'')) n agent
    (ho_fs (sw_host w'))"
proof -
  let ?session = "\<lambda>(r :: NamedIdentityRecord) (auth :: SessionAuth). session_update_token (sa_token auth) (Some (sa_expires_at auth))
    (session_new (ni_name r) (ni_public_key r))"
  obtain raw r h1 auth h2 h3 where raw: "requested = Some raw"
    and create: "load_or_create (sp_lib env) (sp_fresh env) (below base ''identities'') raw (sw_host w) = (Inr r, h1)"
    and persist: "session_persist (sp_lib env) (below base (session_rel key @ ''.json'')) (?session r auth) h1 = (Inr (), h2)"
    and result: "(n, agent) = (ni_name r, ni_public_key r)" "w' = w\<lparr>sw_http := h3, sw_host := h2\<rparr>"
    using run unfolding setup_new_def by (clarsimp simp: run_iffs result_iffs Let_def)
  have sep: "CHR ''/'' \<notin> set (trim raw)" using plain raw by simp
  note r = load_or_create_there [OF create json(1) b64 len sep]
  have "se_identity (?session r auth) = ni_name r" "se_agent_id (?session r auth) = ni_public_key r"
    by (simp_all add: session_update_token_def session_new_def)
  then show ?thesis
    using session_written [OF _ persist _ _ json(2) sep, of r] r result by simp
qed

section \<open>The whole setup\<close>

text \<open>Paths, URLs and the update do not depend on the file tree.\<close>

lemma config_at_fields:
  "ce_home (config_at env h) = ce_home (sp_config env)"
  "ce_parse_url (config_at env h) = ce_parse_url (sp_config env)"
  by (simp_all add: config_at_def)

lemma fs_free:
  "derive_app_paths (config_at env h) = derive_app_paths (sp_config env)"
  "canonicalize_base_url (config_at env h) = canonicalize_base_url (sp_config env)"
  by (simp_all only: derive_app_paths_def canonicalize_base_url_def config_at_fields fun_eq_iff simp_thms)

lemma upsert_free: "upsert_server (config_at env h) = upsert_server (sp_config env)"
proof -
  have "upsert_in (config_at env h) url reg n ss = upsert_in (sp_config env) url reg n ss" for url reg n ss
    by (induction ss) (simp_all add: names_url_def fs_free)
  then show ?thesis by (simp add: upsert_server_def fun_eq_iff)
qed

text \<open>The stages of a setup that succeeds.\<close>

lemma load_session_record_Inr:
  "load_session_record lib p h = (Inr x, h') \<longleftrightarrow> h' = h \<and> fst (load_session_record lib p h) = Inr x"
  using loads_pure(3) [of lib p h] by (auto simp: prod_eq_iff)

lemma perform_setup_stages:
  assumes "perform_setup env request w = (Inr result, w')"
  obtains paths url key stored existing reg name agent w1 h live where
    "derive_app_paths (config_at env (sw_host w)) (default_config_path (sp_config env)) None = Inr paths"
    and "canonicalize_base_url (config_at env (sw_host w)) (sq_url request) = Inr url"
    and "derive_server_key (config_at env (sw_host w)) url = Inr key"
    and "stored_load_or_default (config_at env (sw_host w)) (default_config_path (sp_config env)) = Inr stored"
    and "fst (load_session_record (sp_lib env) (setup_session_path paths key) (sw_host w)) = Inr existing"
    and "setup_identity env paths (setup_session_path paths key) url reg (sq_identity request)
           existing w = (Inr (name, agent), w1)"
    and "persist_json (default_config_path (sp_config env)) (ce_print_stored (sp_config env)
           (upsert_server (config_at env (sw_host w)) url reg name stored)) (sw_host w1) = (Inr (), h)"
    and "setup_apply env paths (upsert_server (config_at env (sw_host w)) url reg name stored) url
           (w1\<lparr>sw_host := h\<rparr>) = (Inr live, w')"
    and "result = \<lparr>sr_base_url = url, sr_server_key = key, sr_session_path = setup_session_path paths key,
           sr_config_path = default_config_path (sp_config env), sr_agent_id = agent, sr_identity = name,
           sr_had_existing_session = existing \<noteq> None, sr_applied_live = live\<rparr>"
proof -
  have path: "default_config_path (config_at env h) = default_config_path (sp_config env)" for h
    by (simp add: default_config_path_def config_at_def)
  have print: "ce_print_stored (config_at env h) = ce_print_stored (sp_config env)" for h
    by (simp add: config_at_def)
  from assms show ?thesis
    unfolding perform_setup_def Let_def path print
    apply (clarsimp simp: run_iffs load_session_record_Inr simp del: not_None_eq)
    subgoal for paths url key stored existing reg name agent w1 h live
      by (rule that [of paths url key stored existing reg name agent w1 h live]) simp_all
    done
qed


lemma setup_apply_host: "setup_apply env paths stored url w = (r, w') \<Longrightarrow> sw_host w' = sw_host w"
  by (auto simp: setup_apply_def Let_def split: option.splits prod.splits)

lemma setup_identity_usable:
  assumes run: "setup_identity env paths (below base (session_rel key @ ''.json'')) url reg requested existing w
      = (Inr (n, agent), w')"
    and existing: "fst (load_session_record (sp_lib env) (below base (session_rel key @ ''.json'')) (sw_host w)) = Inr existing"
    and dir: "ap_identities_dir paths = below base ''identities''"
    and json: "\<forall>f. il_parse_identity (sp_lib env) (il_print_identity (sp_lib env) f) = Inr f"
      "\<forall>s. il_parse_session (sp_lib env) (il_print_session (sp_lib env) s) = Inr s"
    and b64: "\<forall>k. il_b64_decode (sp_lib env) (il_b64_encode (sp_lib env) k) = Inr k"
    and len: "length (sp_fresh env) = 32" "\<forall>d k. il_pkcs8_decode (sp_lib env) d = Inr k \<longrightarrow> length k = 32"
    and plain: "\<forall>raw. requested = Some raw \<longrightarrow> CHR ''/'' \<notin> set (trim raw)"
  shows "usable (sp_lib env) (below base ''identities'') (below base (session_rel key @ ''.json'')) n agent
    (ho_fs (sw_host w'))"
proof (cases existing)
  case None
  with run dir show ?thesis
    using setup_new_usable [OF _ json b64 len(1) plain, of base key url reg w n agent w']
    by (simp add: setup_identity_def)
next
  case (Some loaded)
  show ?thesis
  proof (cases loaded)
    case (CurrentSession s)
    have "load_session_record (sp_lib env) (below base (session_rel key @ ''.json'')) (sw_host w)
        = (Inr (Some (CurrentSession s)), sw_host w)"
      using existing Some CurrentSession by (simp add: load_session_record_Inr)
    from load_session_record_currentD [OF this] run dir Some CurrentSession show ?thesis
      using setup_current_usable [of "sp_lib env" base requested s "sw_host w" n agent]
      by (auto simp: setup_identity_def on_host_Inr)
  next
    case (LegacySession s)
    have "length (lg_signing_key s) = 32"
      using load_session_record_legacyD [OF existing [unfolded Some LegacySession]] len(2) by auto
    with run dir Some LegacySession show ?thesis
      using setup_legacy_usable [OF _ json b64 _ plain, of base key s "sw_host w" n agent]
      by (auto simp: setup_identity_def on_host_Inr)
  qed
qed

lemma perform_setup_files:
  assumes run: "perform_setup env request w = (Inr result, w')"
    and home: "ce_home (sp_config env) = Some home" "prefix ''/'' home"
    and plain: "\<forall>raw. sq_identity request = Some raw \<longrightarrow> CHR ''/'' \<notin> set (trim raw)"
      "CHR ''/'' \<notin> set (sr_identity result)"
    and json: "\<forall>f. il_parse_identity (sp_lib env) (il_print_identity (sp_lib env) f) = Inr f"
      "\<forall>s. il_parse_session (sp_lib env) (il_print_session (sp_lib env) s) = Inr s"
    and b64: "\<forall>k. il_b64_decode (sp_lib env) (il_b64_encode (sp_lib env) k) = Inr k"
    and len: "length (sp_fresh env) = 32" "\<forall>d k. il_pkcs8_decode (sp_lib env) d = Inr k \<longrightarrow> length k = 32"
  obtains paths stored reg where
    "derive_app_paths (sp_config env) (sr_config_path result) None = Inr paths"
    and "stored_load_or_default (config_at env (sw_host w)) (sr_config_path result) = Inr stored"
    and "ho_fs (sw_host w') (sr_config_path result) = Some (RegularFile (Inr (ce_print_stored (sp_config env)
           (upsert_server (sp_config env) (sr_base_url result) reg (sr_identity result) stored))))"
    and "usable (sp_lib env) (ap_identities_dir paths) (sr_session_path result) (sr_identity result)
           (sr_agent_id result) (ho_fs (sw_host w'))"
proof -
  from run show ?thesis
  proof (rule perform_setup_stages)
    fix paths url key stored existing reg name agent w1 h live
    assume paths: "derive_app_paths (config_at env (sw_host w)) (default_config_path (sp_config env)) None = Inr paths"
      and key: "derive_server_key (config_at env (sw_host w)) url = Inr key"
      and stored: "stored_load_or_default (config_at env (sw_host w)) (default_config_path (sp_config env)) = Inr stored"
      and existing: "fst (load_session_record (sp_lib env) (setup_session_path paths key) (sw_host w)) = Inr existing"
      and ident: "setup_identity env paths (setup_session_path paths key) url reg (sq_identity request)
           existing w = (Inr (name, agent), w1)"
      and save: "persist_json (default_config_path (sp_config env)) (ce_print_stored (sp_config env)
           (upsert_server (config_at env (sw_host w)) url reg name stored)) (sw_host w1) = (Inr (), h)"
      and apply_live: "setup_apply env paths (upsert_server (config_at env (sw_host w)) url reg name stored) url
           (w1\<lparr>sw_host := h\<rparr>) = (Inr live, w')"
      and result: "result = \<lparr>sr_base_url = url, sr_server_key = key, sr_session_path = setup_session_path paths key,
           sr_config_path = default_config_path (sp_config env), sr_agent_id = agent, sr_identity = name,
           sr_had_existing_session = existing \<noteq> None, sr_applied_live = live\<rparr>"
    define base where "base = ap_root paths"
    note layout = default_paths [OF home paths [unfolded fs_free]]
    have session: "setup_session_path paths key = below base (session_rel key @ ''.json'')"
      using session_path_below layout(4,5) derive_server_key_safe [OF key] by (simp add: base_def)
    have config: "default_config_path (sp_config env) = below base (config_rel @ ''.json'')"
      using layout(2,4,5) by (simp add: join_below base_def below_def config_rel_def)
    have dir: "ap_identities_dir paths = below base ''identities''"
      using layout(3,4,5) by (simp add: join_below base_def below_def)
    have host: "sw_host w' = h" using setup_apply_host [OF apply_live] by simp
    have use: "usable (sp_lib env) (below base ''identities'') (below base (session_rel key @ ''.json'')) name agent (ho_fs h)"
      using usable_after_config [OF setup_identity_usable [OF ident [unfolded session] existing [unfolded session]
            dir json(1,2) b64 len plain(1)] save [unfolded config]] plain(2) by (simp add: result)
    have "with_extension (below base (config_rel @ ''.json'')) ''tmp'' \<noteq> below base (config_rel @ ''.json'')"
      by (simp add: below_tmp)
    from persist_json_read [OF save [unfolded config upsert_free] this] show ?thesis
      using that [of paths stored reg] use paths stored
      by (simp add: result host session dir config fs_free)
  qed
qed

section \<open>Managers of a running daemon\<close>

text \<open>
  Handles and tasks describe the same managers, one per server URL, and the status has an entry for
  each of them.
\<close>

definition managers_ok :: "LiveSetupState \<Rightarrow> bool" where
  "managers_ok rt \<longleftrightarrow>
     status_ok (lv_status rt) \<and> omap_ok (lv_server_handles rt) \<and>
     distinct (map (\<lambda>(key, m). sv_base_url (mn_server m)) (lv_server_tasks rt)) \<and>
     (\<forall>url m. omap_get (lv_server_handles rt) url = Some m \<longleftrightarrow>
        url = sv_base_url (mn_server m) \<and> (sv_server_key (mn_server m), m) \<in> set (lv_server_tasks rt)) \<and>
     (\<forall>(key, m)\<in>set (lv_server_tasks rt). key = sv_server_key (mn_server m) \<and>
        omap_get (st_servers (lv_status rt)) (sv_base_url (mn_server m)) \<noteq> None)"

lemma attention_health_entry:
  "omap_get (st_servers (set_server_attention_health url key health status)) u \<noteq> None \<longleftrightarrow>
     u = url \<or> omap_get (st_servers status) u \<noteq> None"
  by (simp add: set_server_attention_health_def omap.get_ins Let_def)

lemma spawn_keeps_managers:
  assumes ok: "managers_ok rt" and new: "omap_get (lv_server_handles rt) (sv_base_url server) = None"
  shows "managers_ok (spawn_server_manager env h server dir rt)"
proof -
  define m where "m = \<lparr>mn_server = server, mn_retry = lv_retry rt, mn_replay = lv_replay rt,
    mn_identities_dir = dir, mn_clients = configured_generated_embedding_clients (ho_fs h) (lv_attention rt),
    mn_attention = attention_new ((sp_attention env)\<lparr>env_fs := ho_fs h\<rparr>)
      ((lv_attention rt)\<lparr>ac_local_pack_paths :=
         effective_local_pack_paths server (ac_local_pack_paths (lv_attention rt))\<rparr>)\<rparr>"
  let ?rt = "spawn_server_manager env h server dir rt"
  have m: "mn_server m = server" by (simp add: m_def)
  have handles: "lv_server_handles ?rt = omap_insert (sv_base_url server) m (lv_server_handles rt)"
    and tasks: "lv_server_tasks ?rt = lv_server_tasks rt @ [(sv_server_key server, m)]"
    and status: "lv_status ?rt = set_server_attention_health (sv_base_url server) (sv_server_key server)
          (health_from_layer (mn_attention m)) (lv_status rt)"
    by (simp_all add: spawn_server_manager_def Let_def m_def)
  have fresh: "sv_base_url (mn_server m') \<noteq> sv_base_url server" if "(key, m') \<in> set (lv_server_tasks rt)" for key m'
  proof -
    have "key = sv_server_key (mn_server m')" using ok that unfolding managers_ok_def by blast
    with that ok have "omap_get (lv_server_handles rt) (sv_base_url (mn_server m')) = Some m'"
      unfolding managers_ok_def by blast
    with new show ?thesis by auto
  qed
  show ?thesis
    unfolding managers_ok_def handles tasks status
  proof (intro conjI)
    show "distinct (map (\<lambda>(key, m). sv_base_url (mn_server m)) (lv_server_tasks rt @ [(sv_server_key server, m)]))"
      using ok fresh by (force simp: managers_ok_def m)
    show "\<forall>url m'. omap_get (omap_insert (sv_base_url server) m (lv_server_handles rt)) url = Some m' \<longleftrightarrow>
        url = sv_base_url (mn_server m') \<and>
        (sv_server_key (mn_server m'), m') \<in> set (lv_server_tasks rt @ [(sv_server_key server, m)])"
      using ok m by (auto simp: managers_ok_def omap.get_ins dest: fresh)
    show "\<forall>(key, m')\<in>set (lv_server_tasks rt @ [(sv_server_key server, m)]).
        key = sv_server_key (mn_server m') \<and>
        omap_get (st_servers (set_server_attention_health (sv_base_url server) (sv_server_key server)
          (health_from_layer (mn_attention m)) (lv_status rt))) (sv_base_url (mn_server m')) \<noteq> None"
      using ok unfolding attention_health_entry by (auto simp: managers_ok_def m)
  qed (use ok setters_ok(4) in \<open>auto simp: managers_ok_def omap.invar_ins\<close>)
qed

lemma ensure_keeps_managers:
  assumes ok: "managers_ok rt" and run: "ensure_server_manager env h stored p dir url rt = (r, rt')"
  shows "managers_ok rt'"
proof (cases "rt' = rt")
  case False
  then obtain server where "sv_base_url server = url" "omap_get (lv_server_handles rt) url = None"
    "rt' = spawn_server_manager env h server dir rt"
    using run
    by (auto simp: ensure_server_manager_def result_iffs split: if_splits sum.splits dest!: find_SomeD)
  then show ?thesis using spawn_keeps_managers [OF ok, of server] by simp
qed (simp add: ok)

lemma ensure_gives_handle:
  assumes "ensure_server_manager env h stored p dir url rt = (Inr u, rt')"
  shows "omap_get (lv_server_handles rt') url \<noteq> None"
  using assms
  by (auto simp: ensure_server_manager_def result_iffs spawn_server_manager_def Let_def omap.get_ins
      split: if_splits sum.splits dest!: find_SomeD)

text \<open>The state of a world that a setup works on.\<close>

definition live_ok :: "setup_world \<Rightarrow> bool" where
  "live_ok w \<longleftrightarrow> (\<exists>rt. sw_runtime w = Some rt \<and> managers_ok rt)"

lemma on_host_keeps: "keeps live_ok (on_host m)"
  by (auto simp: keeps_def live_ok_def on_host_def split: prod.splits)

lemma on_http_keeps: "keeps live_ok (on_http m)"
  by (auto simp: keeps_def live_ok_def on_http_def split: prod.splits)

lemmas keeps_steps = keeps_andthen keeps_basic on_host_keeps on_http_keeps

lemma setup_apply_keeps: "keeps live_ok (setup_apply env paths stored url)"
  by (auto simp: keeps_def live_ok_def setup_apply_def Let_def split: prod.splits intro: ensure_keeps_managers)

lemma setup_identity_keeps: "keeps live_ok (setup_identity env paths p url reg requested existing)"
  unfolding setup_identity_def setup_new_def Let_def
  by (auto split: option.split LoadedSessionRecord.split intro!: keeps_steps)

lemma perform_setup_keeps: "live_ok w \<Longrightarrow> live_ok (snd (perform_setup env request w))"
  unfolding perform_setup_def Let_def case_prod_unfold
  by (rule keepsD) (intro keeps_steps setup_apply_keeps setup_identity_keeps)

lemma setup_success_live:
  assumes run: "perform_setup env request w = (Inr result, w')" and live: "live_ok w"
  shows "\<exists>rt m. sw_runtime w' = Some rt \<and> omap_get (lv_server_handles rt) (sr_base_url result) = Some m
    \<and> sr_applied_live result"
  using run
proof (rule perform_setup_stages)
  fix paths url key stored existing reg name agent w1 h live
  assume ident: "setup_identity env paths (setup_session_path paths key) url reg (sq_identity request)
           existing w = (Inr (name, agent), w1)"
    and apply_live: "setup_apply env paths (upsert_server (config_at env (sw_host w)) url reg name stored) url
           (w1\<lparr>sw_host := h\<rparr>) = (Inr live, w')"
    and result: "result = \<lparr>sr_base_url = url, sr_server_key = key, sr_session_path = setup_session_path paths key,
           sr_config_path = default_config_path (sp_config env), sr_agent_id = agent, sr_identity = name,
           sr_had_existing_session = existing \<noteq> None, sr_applied_live = live\<rparr>"
  have "live_ok w1" using keepsD [OF setup_identity_keeps assms(2)] ident by (metis snd_conv)
  then obtain rt where "sw_runtime w1 = Some rt" by (auto simp: live_ok_def)
  with apply_live show ?thesis
    using ensure_gives_handle by (fastforce simp: setup_apply_def Let_def result_iffs result split: prod.splits)
qed

lemma start_managers_ok:
  assumes "distinct (map sv_base_url (cf_servers config))"
  shows "managers_ok (start_managers env h config)"
proof -
  let ?step = "\<lambda>server. spawn_server_manager env h server (ap_identities_dir (cf_paths config))"
  have keys: "omap_get (lv_server_handles (?step s rt)) url = None \<longleftrightarrow>
      url \<noteq> sv_base_url s \<and> omap_get (lv_server_handles rt) url = None" for s rt url
    by (simp add: spawn_server_manager_def Let_def omap.get_ins)
  have "managers_ok (fold ?step servers rt)"
    if "managers_ok rt" "distinct (map sv_base_url servers)"
      "\<forall>s\<in>set servers. omap_get (lv_server_handles rt) (sv_base_url s) = None" for servers rt
    using that
  proof (induction servers arbitrary: rt)
    case (Cons s servers)
    show ?case
      unfolding fold_Cons o_apply
      by (rule Cons.IH) (use Cons.prems spawn_keeps_managers in \<open>auto simp: keys image_iff simp del: not_None_eq\<close>)
  qed simp
  moreover have "distinct (map sv_base_url (filter sv_enabled (cf_servers config)))"
    using assms by (simp add: distinct_map_filter)
  ultimately show ?thesis
    unfolding start_managers_def by (simp add: managers_ok_def daemon_status_new_ok)
qed

lemma setups_keep: "live_ok w \<Longrightarrow> live_ok (fold (\<lambda>(env, request) w. snd (perform_setup env request w)) reqs w)"
  by (induction reqs arbitrary: w) (auto simp: perform_setup_keeps)

section \<open>Properties\<close>

text \<open>
  Claim C9. After a setup that succeeds, the server can be started: its manager loads, from the
  paths the result names, a current session of the reported identity and agent together with a key
  pair whose public key is the agent, in each of the three cases (an existing session, a legacy
  session that is migrated, a new registration). The configuration file holds the
  configuration from before the setup with the update of this server. This is so when the requested
  and the reported identity name have no separator (an identity whose name has one is lost), the home
  directory is absolute, printed files are read back and signing keys have 32 bytes.
\<close>

theorem setup_leaves_startable_server:
  assumes run: "perform_setup env request w = (Inr result, w')"
    and home: "ce_home (sp_config env) = Some home" "prefix ''/'' home"
    and plain: "\<forall>raw. sq_identity request = Some raw \<longrightarrow> CHR ''/'' \<notin> set (trim raw)"
      "CHR ''/'' \<notin> set (sr_identity result)"
    and json: "\<forall>f. il_parse_identity (sp_lib env) (il_print_identity (sp_lib env) f) = Inr f"
      "\<forall>s. il_parse_session (sp_lib env) (il_print_session (sp_lib env) s) = Inr s"
    and b64: "\<forall>k. il_b64_decode (sp_lib env) (il_b64_encode (sp_lib env) k) = Inr k"
    and len: "length (sp_fresh env) = 32" "\<forall>d k. il_pkcs8_decode (sp_lib env) d = Inr k \<longrightarrow> length k = 32"
  shows "\<exists>paths stored reg.
    derive_app_paths (sp_config env) (sr_config_path result) None = Inr paths
    \<and> stored_load_or_default (config_at env (sw_host w)) (sr_config_path result) = Inr stored
    \<and> ho_fs (sw_host w') (sr_config_path result) = Some (RegularFile (Inr (ce_print_stored (sp_config env)
         (upsert_server (sp_config env) (sr_base_url result) reg (sr_identity result) stored))))
    \<and> (\<forall>sx. sx_lib sx = sp_lib env \<longrightarrow> sx_identities_dir sx = ap_identities_dir paths \<longrightarrow>
         sv_session_path (sx_server sx) = sr_session_path result \<longrightarrow>
         (\<exists>s r. load_active sx (sw_host w') = Inr (Some (ActiveCurrent s r))
            \<and> se_identity s = sr_identity result \<and> se_agent_id s = sr_agent_id result
            \<and> ni_public_key r = sr_agent_id result))"
proof -
  obtain paths stored reg where
    files: "derive_app_paths (sp_config env) (sr_config_path result) None = Inr paths"
    "stored_load_or_default (config_at env (sw_host w)) (sr_config_path result) = Inr stored"
    "ho_fs (sw_host w') (sr_config_path result) = Some (RegularFile (Inr (ce_print_stored (sp_config env)
       (upsert_server (sp_config env) (sr_base_url result) reg (sr_identity result) stored))))"
    and use: "usable (sp_lib env) (ap_identities_dir paths) (sr_session_path result) (sr_identity result)
       (sr_agent_id result) (ho_fs (sw_host w'))"
    by (rule perform_setup_files [OF assms])
  have "\<exists>s r. load_active sx (sw_host w') = Inr (Some (ActiveCurrent s r))
      \<and> se_identity s = sr_identity result \<and> se_agent_id s = sr_agent_id result
      \<and> ni_public_key r = sr_agent_id result"
    if "sx_lib sx = sp_lib env" "sx_identities_dir sx = ap_identities_dir paths"
      "sv_session_path (sx_server sx) = sr_session_path result" for sx
    by (rule usable_loads) (simp add: that use)
  with files show ?thesis by blast
qed

text \<open>A registration on an empty host with a server that grants it.\<close>

definition put_opt :: "string option \<Rightarrow> string" where
  "put_opt x = (case x of None \<Rightarrow> ''n'' | Some s \<Rightarrow> ''s'' @ put_str s)"

definition get_opt :: "string \<Rightarrow> string option \<times> string" where
  "get_opt t = (if hd t = CHR ''n'' then (None, tl t) else let (s, rest) = get_str (tl t) in (Some s, rest))"

lemma get_put_opt [simp]: "get_opt (put_opt x @ rest) = (x, rest)"
  by (cases x) (simp_all add: get_opt_def put_opt_def)

definition print_session :: "SubspaceSessionRecord \<Rightarrow> string" where
  "print_session s = put_str (se_identity s) @ put_str (se_agent_id s) @ put_opt (se_session_token s)
     @ put_opt (se_session_expires_at s) @ []"

definition parse_session :: "string \<Rightarrow> SubspaceSessionRecord result" where
  "parse_session t =
     (let (a, t1) = get_str t; (b, t2) = get_str t1; (c, t3) = get_opt t2; (d, t4) = get_opt t3
      in Inr \<lparr>se_identity = a, se_agent_id = b, se_session_token = c, se_session_expires_at = d\<rparr>)"

lemma session_round_trip: "parse_session (print_session s) = Inr s"
  unfolding parse_session_def print_session_def by (simp del: append_Nil2)

definition demo_setup_env :: setup_env where
  "demo_setup_env =
     \<lparr>sp_config = demo_config_env,
      sp_lib = demo_identity_lib\<lparr>il_parse_session := parse_session, il_print_session := print_session,
        il_pkcs8_decode := (\<lambda>_. Inl ''no key'')\<rparr>,
      sp_json_string = quoted, sp_fresh = demo_key, sp_http_client = Inr (), sp_attention = demo_env\<rparr>"

definition demo_setup_world :: setup_world where
  "demo_setup_world =
     \<lparr>sw_host = demo_host,
      sw_http = \<lparr>ht_reply = (\<lambda>n. HttpResponse 200 (Some (JObj
        [(''challenge'', JStr ''c''), (''challengeId'', JStr ''i''), (''sessionToken'', JStr ''t''),
         (''sessionExpiresAt'', JStr ''e'')]))), ht_requests = []\<rparr>,
      sw_runtime = None\<rparr>"

definition demo_setup_request :: SetupRequest where
  "demo_setup_request = \<lparr>sq_url = ''https://a.b'', sq_name = Some ''me'', sq_identity = Some ''heimdal''\<rparr>"

lemma demo_setup_run:
  "\<exists>result w'. perform_setup demo_setup_env demo_setup_request demo_setup_world = (Inr result, w')
     \<and> sr_identity result = ''heimdal''"
proof -
  have trims: "trim ''heimdal'' = ''heimdal''" "trim ''me'' = ''me''" by code_simp+
  have "is_ok (derive_app_paths demo_config_env (default_config_path demo_config_env) None)" by code_simp
  then obtain paths where paths:
    "derive_app_paths demo_config_env (default_config_path demo_config_env) None = Inr paths"
    by (auto simp: is_ok_iff)
  have ce: "config_at demo_setup_env demo_host = demo_config_env"
    by (simp add: config_at_def demo_setup_env_def demo_config_env_def demo_host_def)
  have stored: "stored_load_or_default demo_config_env p = Inr default_stored_config" for p
    by (simp add: stored_load_or_default_def demo_config_env_def fs_exists_def)
  have session: "load_session_record lib p demo_host = (Inr None, demo_host)" for lib p
    by (simp add: load_session_record_def demo_host_def fs_exists_def)
  obtain r h where create: "load_or_create (sp_lib demo_setup_env) demo_key (ap_identities_dir paths) ''heimdal''
      demo_host = (Inr r, h)" and r: "ni_name r = ''heimdal''" and h: "ho_write h = ho_write demo_host"
    by (simp add: load_or_create_def andthen_def lift_def validate_name_def Let_def identity_load_def
        fs_exists_def demo_host_def identity_persist_def persist_json_def demo_setup_env_def
        demo_identity_lib_def ret_def trims)
  obtain auth ht where register: "register_identity (sp_lib demo_setup_env) (sp_json_string demo_setup_env)
      ''https://a.b'' ''me'' r (sw_http demo_setup_world) = (Inr auth, ht)"
    by (simp add: register_identity_def andthen_def http_post_def demo_setup_world_def Let_def lift_def
        is_success_def read_string_def json_str_at_def json_get_def json_as_str_def read_session_auth_def)
  have given: "sp_fresh demo_setup_env = demo_key" "sp_http_client demo_setup_env = Inr ()"
    "sw_host demo_setup_world = demo_host" "sw_runtime demo_setup_world = None"
    by (simp_all add: demo_setup_env_def demo_setup_world_def)
  have writable: "ho_write h p = Inr ()" for p by (simp add: h demo_host_def)
  show ?thesis
    using paths create register r
    by (simp add: perform_setup_def andthen_def lift_def on_host_def on_http_def Let_def ce demo_canonical
        demo_keys stored session demo_setup_request_def resolve_registration_name_def
        trims setup_identity_def setup_new_def session_persist_def persist_json_def
        writable ret_def setup_apply_def given)
qed

lemma demo_setup_facts:
  "ce_home (sp_config demo_setup_env) = Some ''/h''" "prefix ''/'' ''/h''"
  "\<forall>raw. sq_identity demo_setup_request = Some raw \<longrightarrow> CHR ''/'' \<notin> set (trim raw)"
  "\<forall>f. il_parse_identity (sp_lib demo_setup_env) (il_print_identity (sp_lib demo_setup_env) f) = Inr f"
  "\<forall>s. il_parse_session (sp_lib demo_setup_env) (il_print_session (sp_lib demo_setup_env) s) = Inr s"
  "\<forall>k. il_b64_decode (sp_lib demo_setup_env) (il_b64_encode (sp_lib demo_setup_env) k) = Inr k"
  "length (sp_fresh demo_setup_env) = 32"
  "\<forall>d k. il_pkcs8_decode (sp_lib demo_setup_env) d = Inr k \<longrightarrow> length k = 32"
proof -
  have "trim ''heimdal'' = ''heimdal''" by code_simp
  then show "\<forall>raw. sq_identity demo_setup_request = Some raw \<longrightarrow> CHR ''/'' \<notin> set (trim raw)"
    by (simp add: demo_setup_request_def)
qed (simp_all add: demo_setup_env_def demo_config_env_def demo_identity_lib_def demo_key_def
    identity_file_round_trip session_round_trip)

definition demo_server_env :: "string \<Rightarrow> string \<Rightarrow> server_env" where
  "demo_server_env dir session_path =
     \<lparr>sx_server = \<lparr>sv_base_url = ''https://a.b'', sv_websocket_url = [], sv_enabled = True,
        sv_server_key = ''https_a_b_443'', sv_registration_name = ''me'', sv_identity = Some ''heimdal'',
        sv_local_pack_paths = None, sv_session_path = session_path, sv_runtime_path = ''/r.json'',
        sv_wake_session_key = None\<rparr>,
      sx_retry = retry_of_stored (so_retry default_stored_config),
      sx_replay = \<lparr>rp_dedupe_window_size = 500, rp_discard_before_ts = None\<rparr>,
      sx_identities_dir = dir, sx_io = env_plugin demo_env, sx_clients = [],
      sx_attention = attention_new demo_env \<lparr>ac_local_pack_paths = [], ac_embedding_backends = []\<rparr>,
      sx_runtime_index = 0, sx_lib = sp_lib demo_setup_env, sx_json_string = quoted,
      sx_time = demo_time, sx_codec = demo_codec, sx_parse = (\<lambda>_. Inl ''no JSON''),
      sx_uuid = (\<lambda>_. []), sx_now = (\<lambda>_. 0), sx_draw = (\<lambda>_. FFin 0), sx_write = (\<lambda>_. Inr ()),
      sx_print_event = (\<lambda>_. Inr []), sx_clock = (\<lambda>_ _. 0)\<rparr>"

theorem setup_leaves_startable_server_witness:
  "\<exists>result w' (paths :: AppPaths) s r. perform_setup demo_setup_env demo_setup_request demo_setup_world = (Inr result, w')
     \<and> load_active (demo_server_env (ap_identities_dir paths) (sr_session_path result)) (sw_host w')
         = Inr (Some (ActiveCurrent s r))
     \<and> se_identity s = ''heimdal'' \<and> ni_public_key r = sr_agent_id result"
proof -
  from demo_setup_run obtain result w' where
    run: "perform_setup demo_setup_env demo_setup_request demo_setup_world = (Inr result, w')"
    and name: "sr_identity result = ''heimdal''" by blast
  have "CHR ''/'' \<notin> set (sr_identity result)" by (simp add: name)
  note startable = setup_leaves_startable_server [OF run demo_setup_facts(1-3) this demo_setup_facts(4-8)]
  have "sx_lib (demo_server_env d p) = sp_lib demo_setup_env" "sx_identities_dir (demo_server_env d p) = d"
    "sv_session_path (sx_server (demo_server_env d p)) = p" for d p
    by (simp_all add: demo_server_env_def)
  moreover from startable obtain paths :: AppPaths where load: "\<And>sx. sx_lib sx = sp_lib demo_setup_env \<Longrightarrow>
      sx_identities_dir sx = ap_identities_dir paths \<Longrightarrow>
      sv_session_path (sx_server sx) = sr_session_path result \<Longrightarrow>
      \<exists>s r. load_active sx (sw_host w') = Inr (Some (ActiveCurrent s r))
        \<and> se_identity s = ''heimdal'' \<and> ni_public_key r = sr_agent_id result"
    unfolding name by blast
  ultimately show ?thesis
    using run load [of "demo_server_env (ap_identities_dir paths) (sr_session_path result)"] by blast
qed

text \<open>
  Claim C11. A running daemon has one manager per server: starting the enabled servers of an accepted
  configuration and then performing any setups, whatever they answer, leaves handles and tasks that
  describe the same managers with distinct server URLs, each with an entry in the status. A setup
  that succeeds leaves a handle for its server and reports that it was applied live.
\<close>

theorem one_manager_per_server:
  assumes accepted: "from_stored ce stored paths = Inr config"
    and start: "sw_runtime w = Some (start_managers env0 h config)"
    and later: "w' = fold (\<lambda>(env, request) w. snd (perform_setup env request w)) reqs w"
  shows "(\<exists>rt. sw_runtime w' = Some rt \<and> managers_ok rt)
    \<and> (\<forall>env request result w''. perform_setup env request w' = (Inr result, w'') \<longrightarrow>
         (\<exists>rt m. sw_runtime w'' = Some rt \<and> managers_ok rt
            \<and> omap_get (lv_server_handles rt) (sr_base_url result) = Some m \<and> sr_applied_live result))"
proof -
  have "distinct (map sv_base_url (cf_servers config))"
    using from_stored_parts [OF accepted] servers_of_stored_props by metis
  then have "live_ok w" using start_managers_ok start by (auto simp: live_ok_def)
  then have live: "live_ok w'" unfolding later by (rule setups_keep)
  have "\<exists>rt m. sw_runtime w'' = Some rt \<and> managers_ok rt
      \<and> omap_get (lv_server_handles rt) (sr_base_url result) = Some m \<and> sr_applied_live result"
    if run: "perform_setup env request w' = (Inr result, w'')" for env request result w''
    using setup_success_live [OF run live] perform_setup_keeps [OF live, of env request] run
    by (auto simp: live_ok_def)
  with live show ?thesis unfolding live_ok_def by blast
qed

theorem one_manager_per_server_witness:
  "\<exists>config w'. from_stored demo_config_env demo_stored demo_paths = Inr config
     \<and> w' = snd (perform_setup demo_setup_env demo_setup_request
          (demo_setup_world\<lparr>sw_runtime := Some (start_managers demo_setup_env demo_host config)\<rparr>))
     \<and> (\<exists>rt. sw_runtime w' = Some rt \<and> managers_ok rt)"
proof -
  from demo_accepted obtain config where accepted: "from_stored demo_config_env demo_stored demo_paths = Inr config"
    by blast
  show ?thesis
    using accepted one_manager_per_server [OF accepted, of
      "demo_setup_world\<lparr>sw_runtime := Some (start_managers demo_setup_env demo_host config)\<rparr>" demo_setup_env
      demo_host _ "[(demo_setup_env, demo_setup_request)]"]
    by auto
qed

end
