(* ===== verification/Supervisor_Properties.thy ===== *)
theory Supervisor_Properties
  imports Supervisor Setup_Properties
begin

text \<open>
  When and how the supervisor returns, and that a stop comes to an end. The supervisor is an event
  machine with the invariant \<open>sup_ok\<close>.
\<close>

section \<open>What has been seen of the tasks\<close>

definition ended :: "supervisor \<Rightarrow> string \<Rightarrow> task_end \<Rightarrow> bool" where
  "ended s name e \<longleftrightarrow>
     name = ''gateway'' \<and> su_gateway s = Some e \<or> name = ''wake_queue'' \<and> su_wake s = Some e
     \<or> name = ''ipc'' \<and> su_ipc s = Some e
     \<or> (\<exists>key. name = ''subspace:'' @ key \<and> (key, Some e) \<in> set (su_servers s))"

lemma mark_server_keeps: "(key, Some e) \<in> set ts \<Longrightarrow> (key, Some e) \<in> set (mark_server i e' ts)"
  by (induction i e' ts rule: mark_server.induct) auto

lemma mark_server_length [simp]: "length (mark_server i e ts) = length ts"
  by (induction i e ts rule: mark_server.induct) auto

lemma su_act_fields [simp]:
  "su_phase (su_act a s) = su_phase s" "su_gateway (su_act a s) = su_gateway s" "su_wake (su_act a s) = su_wake s"
  "su_ipc (su_act a s) = su_ipc s" "su_servers (su_act a s) = su_servers s" "su_hooks (su_act a s) = su_hooks s"
  "su_trace (su_act a s) = su_trace s @ [a]"
  by (simp_all add: su_act_def)

lemma fire_task_exit_fields [simp]:
  "su_gateway (fire_task_exit_hook sn name err s) = su_gateway s"
  "su_wake (fire_task_exit_hook sn name err s) = su_wake s"
  "su_ipc (fire_task_exit_hook sn name err s) = su_ipc s"
  "su_servers (fire_task_exit_hook sn name err s) = su_servers s"
  by (simp_all add: fire_task_exit_hook_def split_beta)

lemma fire_task_exit_trace:
  "\<exists>runs. su_trace (fire_task_exit_hook sn name err s) = su_trace s @ [SuHook (task_exit_event name err) runs]"
  by (auto simp: fire_task_exit_hook_def split_beta)

section \<open>The invariant\<close>

text \<open>
  What the supervisor has done: nothing while it watches; it has broadcast the shutdown when it
  stops; and before it returns it has also removed the socket and, when a task has ended, fired the
  hooks for it.
\<close>

definition reported :: "supervisor \<Rightarrow> string \<Rightarrow> bool" where
  "reported s err \<longleftrightarrow>
     (\<exists>name e runs. ended s name e \<and> err = task_error name e
        \<and> mset (su_trace s) = {#SuShutdown, SuRemoveSocket, SuHook (task_exit_event name err) runs#})"

definition sup_ok :: "supervisor \<Rightarrow> bool" where
  "sup_ok s \<longleftrightarrow>
     (case su_phase s of
        Watching \<Rightarrow> su_trace s = []
      | Returned (Inr u) \<Rightarrow> su_trace s = [SuShutdown, SuRemoveSocket]
      | Returned (Inl err) \<Rightarrow> reported s err
      | _ \<Rightarrow> su_trace s = [SuShutdown])"

lemma ended_mono:
  assumes "ended s name e" and "\<And>x. su_gateway s = Some x \<Longrightarrow> su_gateway s' = Some x"
    and "\<And>x. su_wake s = Some x \<Longrightarrow> su_wake s' = Some x" and "\<And>x. su_ipc s = Some x \<Longrightarrow> su_ipc s' = Some x"
    and "\<And>key x. (key, Some x) \<in> set (su_servers s) \<Longrightarrow> (key, Some x) \<in> set (su_servers s')"
  shows "ended s' name e"
  using assms unfolding ended_def by blast

lemma sup_ok_cong:
  assumes "sup_ok s" and "su_phase s' = su_phase s" "su_trace s' = su_trace s"
    and "\<And>name e. ended s name e \<Longrightarrow> ended s' name e"
  shows "sup_ok s'"
  using assms by (auto simp: sup_ok_def reported_def split: sup_phase.splits sum.splits)

lemma leave_for_ok:
  assumes ok: "sup_ok s" and phase: "su_phase s = Watching"
    and seen: "\<And>e. seen = Some e \<Longrightarrow> ended s name e"
  shows "sup_ok (leave_for sn name seen s)"
proof (cases seen)
  case (Some e)
  let ?s = "su_act SuRemoveSocket (su_act SuShutdown s)"
  obtain runs where "su_trace (fire_task_exit_hook sn name (task_error name e) ?s)
      = su_trace ?s @ [SuHook (task_exit_event name (task_error name e)) runs]"
    using fire_task_exit_trace by blast
  moreover have "su_trace s = []" using ok phase by (simp add: sup_ok_def)
  ultimately show ?thesis
    using seen [OF Some] by (auto simp: leave_for_def Some handle_task_exit_def sup_ok_def reported_def ended_def)
qed (simp add: leave_for_def ok)

lemma check_server_exit_Some:
  assumes "check_server_exit sn s = Some (r, s1)"
  obtains key e where "(key, Some e) \<in> set (su_servers s)"
    and "handle_task_exit sn (''subspace:'' @ key) e s = (r, s1)"
proof -
  from assms obtain key e rest where
    first: "List.map_filter (\<lambda>(key, x). map_option (\<lambda>outcome. (key, outcome)) x) (su_servers s) = (key, e) # rest"
    and run: "handle_task_exit sn (''subspace:'' @ key) e s = (r, s1)"
    by (auto simp: check_server_exit_def split: list.splits)
  have "(key, e) \<in> set (List.map_filter (\<lambda>(key, x). map_option (\<lambda>outcome. (key, outcome)) x) (su_servers s))"
    by (simp add: first)
  then have "(key, Some e) \<in> set (su_servers s)" by (auto simp: List.map_filter_def)
  with run that show ?thesis by blast
qed

lemma on_tick_ok:
  assumes ok: "sup_ok s" and phase: "su_phase s = Watching"
  shows "sup_ok (on_tick sn s)"
proof (cases "check_server_exit sn s")
  case (Some x)
  then obtain r s1 where x: "check_server_exit sn s = Some (r, s1)" by (cases x) auto
  then obtain key e where task: "(key, Some e) \<in> set (su_servers s)"
    and run: "handle_task_exit sn (''subspace:'' @ key) e s = (r, s1)" by (rule check_server_exit_Some)
  let ?name = "''subspace:'' @ key"
  obtain runs where "su_trace (fire_task_exit_hook sn ?name (task_error ?name e) s)
      = su_trace s @ [SuHook (task_exit_event ?name (task_error ?name e)) runs]"
    using fire_task_exit_trace by blast
  moreover have "su_trace s = []" using ok phase by (simp add: sup_ok_def)
  moreover have "ended s' ?name e" if "su_servers s' = su_servers s" for s'
    using task that by (auto simp: ended_def)
  moreover from run have "r = Inl (task_error ?name e)" "s1 = fire_task_exit_hook sn ?name (task_error ?name e) s"
    by (auto simp: handle_task_exit_def)
  ultimately show ?thesis
    unfolding on_tick_def x sup_ok_def reported_def
    by (auto simp del: append.simps intro!: exI [of _ ?name] exI [of _ e] exI [of _ runs])
qed (simp add: on_tick_def ok)

lemma on_wait_over_ok: "sup_ok s \<Longrightarrow> sup_ok (on_wait_over (su_phase s) s)"
  by (cases "su_phase s") (auto simp: sup_ok_def stop_servers_def split: sum.splits)

lemma environment_ok:
  assumes ok: "sup_ok s"
  shows "sup_ok (run_supervisor sn (GatewayEnds x) s)" "sup_ok (run_supervisor sn (WakeEnds x) s)"
    "sup_ok (run_supervisor sn (IpcEnds x) s)" "sup_ok (run_supervisor sn (ServerEnds i x) s)"
    "sup_ok (run_supervisor sn (ServerAdded key) s)"
  by (rule sup_ok_cong [OF ok]; (erule ended_mono)?; simp add: mark_server_keeps)+

lemma run_supervisor_ok: "sup_ok s \<Longrightarrow> sup_ok (run_supervisor sn e s)"
proof (cases e)
  case CtrlC
  assume "sup_ok s"
  then show ?thesis by (cases "su_phase s = Watching") (simp_all add: CtrlC sup_ok_def)
qed (simp_all add: environment_ok on_tick_ok on_wait_over_ok leave_for_ok ended_def
    del: run_supervisor.simps(1-5))

interpretation supervision: event_machine "run_supervisor sn" sup_ok for sn
  by unfold_locales (rule run_supervisor_ok)

section \<open>The stop\<close>

text \<open>The number of waits that are left, and whether the supervisor is stopping or has stopped.\<close>

fun waits_left :: "sup_phase \<Rightarrow> nat \<Rightarrow> nat" where
  "waits_left StopWake n = n + 3"
| "waits_left StopGateway n = n + 2"
| "waits_left StopIpc n = n + 1"
| "waits_left (StopServers i) n = n - i"
| "waits_left p n = 0"

fun stopping :: "sup_phase \<Rightarrow> bool" where
  "stopping Watching = False"
| "stopping (Returned r) = (r = Inr ())"
| "stopping p = True"

lemma stopping_cases:
  "stopping p \<longleftrightarrow> p \<in> {StopWake, StopGateway, StopIpc, Returned (Inr ())} \<or> (\<exists>i. p = StopServers i)"
  by (cases p) auto

definition stop_ok :: "supervisor \<Rightarrow> bool" where
  "stop_ok s \<longleftrightarrow> stopping (su_phase s) \<and> (case su_phase s of StopServers i \<Rightarrow> i < length (su_servers s) | _ \<Rightarrow> True)"

lemma stop_step:
  assumes "stop_ok s"
  shows "stop_ok (run_supervisor sn e s)"
    and "waits_left (su_phase (run_supervisor sn e s)) (length (su_servers (run_supervisor sn e s)))
      \<le> waits_left (su_phase s) (length (su_servers s)) - (if e = WaitOver then 1 else 0)
         + (case e of ServerAdded key \<Rightarrow> 1 | _ \<Rightarrow> 0)"
  using assms
  by (cases e; cases "su_phase s"; auto simp: stop_ok_def stop_servers_def)+

fun is_added :: "sup_event \<Rightarrow> bool" where
  "is_added (ServerAdded key) = True"
| "is_added e = False"

lemma returned_stays: "su_phase s = Returned r \<Longrightarrow> su_phase (run_supervisor sn e s) = Returned r"
  by (cases e) simp_all

lemma returned_run: "su_phase s = Returned r \<Longrightarrow> su_phase (fold (run_supervisor sn) es s) = Returned r"
  by (induction es arbitrary: s) (simp_all add: returned_stays)

lemma stop_run:
  assumes "stop_ok s" and "su_phase (fold (run_supervisor sn) es s) \<noteq> Returned (Inr ())"
  shows "length (filter (\<lambda>e. e = WaitOver) es) < waits_left (su_phase s) (length (su_servers s)) + length (filter is_added es)"
  using assms
proof (induction es arbitrary: s)
  case Nil
  then show ?case by (cases "su_phase s") (auto simp: stop_ok_def)
next
  case (Cons e es)
  let ?t = "run_supervisor sn e s"
  have "length (filter (\<lambda>e. e = WaitOver) es) < waits_left (su_phase ?t) (length (su_servers ?t)) + length (filter is_added es)"
    using Cons.IH [OF stop_step(1) [OF Cons.prems(1)]] Cons.prems(2) by simp
  moreover have "0 < waits_left (su_phase s) (length (su_servers s))"
    using Cons.prems returned_run [of s "Inr ()" sn "e # es"] by (cases "su_phase s") (auto simp: stop_ok_def)
  ultimately show ?case
    using stop_step(2) [OF Cons.prems(1), of sn e] by (cases e) (auto simp del: run_supervisor.simps)
qed

text \<open>Only an interrupt leads to a stop.\<close>

lemma no_interrupt_no_stop:
  assumes "CtrlC \<notin> set es" and "\<not> stopping (su_phase s)"
  shows "\<not> stopping (su_phase (fold (run_supervisor sn) es s))"
  using assms
proof (induction es arbitrary: s)
  case (Cons e es)
  have "\<not> stopping (su_phase (run_supervisor sn e s))"
    using Cons.prems
    by (cases e; cases "su_phase s"; auto simp: leave_for_def on_tick_def handle_task_exit_def split_beta
        split: option.splits elim!: check_server_exit_Some)
  with Cons show ?case by simp
qed simp

section \<open>Properties\<close>

text \<open>
  Claim C13. No critical task ends unnoticed and none is blamed without cause. In every run of the
  supervisor from its start: while it watches it has done nothing; an error it returns is the error
  of a task that has ended, and it has then broadcast the shutdown, removed the socket and fired the
  hooks for that task, each once; it returns without an error only after its
  \<open>ctrl_c\<close> branch was taken (for an interrupt, or because its handler could not be registered), having
  broadcast the shutdown and removed the socket; and in between it has broadcast the shutdown.
\<close>

theorem supervisor_return_accounted:
  "let s = fold (run_supervisor sn) es (supervisor_start hooks keys)
   in case su_phase s of
        Watching \<Rightarrow> su_trace s = []
      | Returned (Inl err) \<Rightarrow>
          (\<exists>name e runs. ended s name e \<and> err = task_error name e
             \<and> mset (su_trace s) = {#SuShutdown, SuRemoveSocket, SuHook (task_exit_event name err) runs#})
      | Returned (Inr u) \<Rightarrow> CtrlC \<in> set es \<and> su_trace s = [SuShutdown, SuRemoveSocket]
      | _ \<Rightarrow> CtrlC \<in> set es \<and> su_trace s = [SuShutdown]"
proof -
  let ?start = "supervisor_start hooks keys"
  let ?s = "fold (run_supervisor sn) es ?start"
  have "sup_ok ?start" by (simp add: sup_ok_def supervisor_start_def)
  then have ok: "sup_ok ?s" by (rule supervision.run_inv)
  have "\<not> stopping (su_phase ?start)" by (simp add: supervisor_start_def)
  with no_interrupt_no_stop have "stopping (su_phase ?s) \<Longrightarrow> CtrlC \<in> set es" by blast
  with ok show ?thesis
    unfolding Let_def sup_ok_def reported_def by (auto split: sup_phase.splits sum.splits)
qed

text \<open>
  Claim C14. An interrupted supervisor stops: once it has taken its \<open>ctrl_c\<close> branch, it returns without an
  error as soon as it has waited once for each of its tasks (the wake queue, the gateway, the socket
  server and the servers, also those a setup still adds), whatever the tasks do, be it that they end
  or that the waits run out.
\<close>

theorem interrupt_stops_supervisor:
  assumes watching: "su_phase s = Watching"
    and waited: "3 + length (su_servers s) + length (filter is_added es) \<le> length (filter (\<lambda>e. e = WaitOver) es)"
  shows "su_phase (fold (run_supervisor sn) es (run_supervisor sn CtrlC s)) = Returned (Inr ())"
proof -
  let ?s = "run_supervisor sn CtrlC s"
  have ok: "stop_ok ?s" by (simp add: stop_ok_def watching)
  have "waits_left (su_phase ?s) (length (su_servers ?s)) = length (su_servers s) + 3" by (simp add: watching)
  with stop_run [OF ok, of sn es] waited show ?thesis by linarith
qed

definition demo_sup_env :: sup_env where
  "demo_sup_env = \<lparr>sn_print_event = (\<lambda>_. Inr []), sn_clock = (\<lambda>_ _. 0)\<rparr>"

theorem interrupt_stops_supervisor_witness:
  "su_phase (fold (run_supervisor demo_sup_env)
     [GatewayEnds (TaskReturned (Inr ())), WaitOver, ServerAdded ''b'', WaitOver, WaitOver, WaitOver,
      ServerEnds 0 (TaskPanicked ''p''), WaitOver]
     (run_supervisor demo_sup_env CtrlC (supervisor_start (hooks_new []) [''a'']))) = Returned (Inr ())"
  by (rule interrupt_stops_supervisor) (simp_all add: supervisor_start_def)

end
