(* ===== verification/Gateway_Client_Properties.thy ===== *)
theory Gateway_Client_Properties
  imports Gateway_Client Event_Machine
begin

text \<open>
  What the gateway task guarantees to the callers of \<open>send_chat\<close>: every accepted command is answered
  exactly once, and a success only after a positive response to the request sent for it. Both are
  invariants of the task as an event machine. Two theorems at the end show where the task departs
  from what it is meant to do.
\<close>

section \<open>Who is answered\<close>

fun accepts :: "gateway_action list \<Rightarrow> nat list" where
  "accepts [] = []"
| "accepts (GaAccept c # t) = ch_reply c # accepts t"
| "accepts (_ # t) = accepts t"

fun answered :: "gateway_action list \<Rightarrow> nat list" where
  "answered [] = []"
| "answered (GaReply r x # t) = r # answered t"
| "answered (_ # t) = answered t"

definition waiting :: "gateway_task \<Rightarrow> nat list" where
  "waiting s = map ch_reply (gt_rx s) @ map (pr_reply \<circ> snd) (gt_pending s)"

definition conserved :: "gateway_task \<Rightarrow> bool" where
  "conserved s \<longleftrightarrow> mset (accepts (gt_trace s)) = mset (answered (gt_trace s)) + mset (waiting s)"

definition books_ok :: "gateway_task \<Rightarrow> bool" where
  "books_ok s \<longleftrightarrow> conserved s \<and> distinct (map fst (gt_pending s))
     \<and> (gt_phase s = Live \<or> gt_pending s = []) \<and> (case gt_phase s of Ended _ \<Rightarrow> gt_rx s = [] | _ \<Rightarrow> True)"

lemma accepts_append [simp]: "accepts (t @ u) = accepts t @ accepts u"
  by (induction t rule: accepts.induct) simp_all

lemma answered_append [simp]: "answered (t @ u) = answered t @ answered u"
  by (induction t rule: answered.induct) simp_all

lemma replies_only [simp]:
  "accepts (map (\<lambda>r. GaReply r x) rs) = []" "answered (map (\<lambda>r. GaReply r x) rs) = rs"
  "accepts (map ((\<lambda>r. GaReply r x) \<circ> f) ys) = []" "answered (map ((\<lambda>r. GaReply r x) \<circ> f) ys) = map f ys"
  by (induction rs) (simp_all, (induction ys, simp_all)+)

lemma answer_all_eq: "answer_all e rs s = s\<lparr>gt_trace := gt_trace s @ map (\<lambda>r. GaReply r (Inl e)) rs\<rparr>"
proof (induction rs arbitrary: s)
  case Nil
  then show ?case by (simp add: answer_all_def)
next
  case (Cons r rs)
  then show ?case by (simp add: answer_all_def record_action_def)
qed

lemmas piece_defs = record_action_def send_frame_def update_gateway_state_def answer_all_eq
  drop_pending_def end_task_def loop_top_def fall_asleep_def wake_up_def Let_def

lemma fire_gateway_hooks_eq:
  "\<exists>runs hs. fire_gateway_hooks gv kind message s
     = s\<lparr>gt_hooks := hs, gt_trace := gt_trace s @ [GaHooks runs]\<rparr>"
  by (auto simp: fire_gateway_hooks_def record_action_def split: prod.split)

lemma conserved_pieces:
  "conserved s \<Longrightarrow> conserved (drop_pending s)"
  "conserved s \<Longrightarrow> gt_pending s = [] \<Longrightarrow> books_ok (end_task r s)"
  "conserved s \<Longrightarrow> gt_pending s = [] \<Longrightarrow> books_ok (loop_top s)"
  "conserved s \<Longrightarrow> gt_pending s = [] \<Longrightarrow> books_ok (fall_asleep gv s)"
  "conserved (fire_gateway_hooks gv kind message s) = conserved s"
  "conserved (update_gateway_state v s) = conserved s"
  "conserved (s\<lparr>gt_backoff := b\<rparr>) = conserved s"
  "conserved (s\<lparr>gt_reconnecting := q\<rparr>) = conserved s"
  "conserved (s\<lparr>gt_signals := n\<rparr>) = conserved s"
  "conserved (s\<lparr>gt_host := h\<rparr>) = conserved s"
  "conserved (s\<lparr>gt_phase := p\<rparr>) = conserved s"
  "conserved (snd (send_frame gv f s)) = conserved s"
  using fire_gateway_hooks_eq [of gv kind message s]
  by (auto simp: conserved_def books_ok_def waiting_def piece_defs)

lemma pending_pieces [simp]:
  "gt_pending (drop_pending s) = []"
  "gt_pending (fire_gateway_hooks gv kind message s) = gt_pending s"
  "gt_pending (update_gateway_state v s) = gt_pending s"
  using fire_gateway_hooks_eq [of gv kind message s] by (auto simp: piece_defs)

lemma after_connect_once_books: "conserved s \<Longrightarrow> books_ok (after_connect_once gv outcome s)"
  by (auto simp: after_connect_once_def Let_def conserved_pieces
      intro!: conserved_pieces(3,4) split: sum.split DisconnectReason.split)

lemma close_and_restart_books: "conserved s \<Longrightarrow> books_ok (close_and_restart gv s)"
  by (simp add: close_and_restart_def after_connect_once_books conserved_pieces)


text \<open>Outside the live phase nothing is pending, so every handler of the handshake keeps the books.\<close>

lemma books_conserved: "books_ok s \<Longrightarrow> conserved s"
  by (simp add: books_ok_def)

lemma books_move:
  "books_ok s \<Longrightarrow> gt_phase s \<noteq> Live \<Longrightarrow> (\<And>r. gt_phase s \<noteq> Ended r) \<Longrightarrow> (\<And>r. p \<noteq> Ended r) \<Longrightarrow> books_ok (s\<lparr>gt_phase := p\<rparr>)"
  by (cases p) (auto simp: books_ok_def conserved_pieces)

lemma send_connect_books:
  assumes "books_ok s" and "gt_phase s = AwaitChallenge"
  shows "books_ok (send_connect gv nonce s)"
proof -
  have "books_ok ((snd (send_frame gv f s))\<lparr>gt_phase := AwaitHello i\<rparr>)" for f i
    using assms by (auto simp: books_ok_def conserved_pieces) (simp_all add: piece_defs)
  then show ?thesis
    using assms books_conserved conserved_pieces(12) [of gv _ s]
    by (auto simp: send_connect_def Let_def intro!: after_connect_once_books split: prod.split sum.split)
      (metis snd_conv)+
qed

lemma go_live_books:
  "books_ok s \<Longrightarrow> gt_phase s = AwaitHello i \<Longrightarrow>
     books_ok ((update_gateway_state v (s\<lparr>gt_host := h\<rparr>))\<lparr>gt_phase := Live, gt_pending := []\<rparr>)"
  by (auto simp: books_ok_def conserved_def waiting_def update_gateway_state_def)

lemma connect_accepted_books:
  assumes "books_ok s" and "gt_phase s = AwaitHello i"
  shows "books_ok (connect_accepted gv hello s)"
  using go_live_books [OF assms, of "''live''"] go_live_books [OF assms, of "''live''" "gt_host s"] books_conserved [OF assms(1)]
  by (auto simp: connect_accepted_def Let_def conserved_pieces
      intro!: after_connect_once_books split: option.split prod.split sum.split)

lemma connect_refused_books: "conserved s \<Longrightarrow> books_ok (connect_refused gv error s)"
  by (simp add: connect_refused_def after_connect_once_books conserved_pieces)

lemma insert_pending_books:
  assumes "conserved (s\<lparr>gt_rx := c # gt_rx s\<rparr>)" and "distinct (map fst (gt_pending s))" and "gt_phase s = Live"
    and "pr_reply p = ch_reply c"
  shows "books_ok (insert_pending k p s)"
proof -
  have split: "mset (map (pr_reply \<circ> snd) ps) =
      mset (map (pr_reply \<circ> snd) (filter (\<lambda>(a, b). a = k) ps))
      + mset (map (pr_reply \<circ> snd) (filter (\<lambda>(a, b). a \<noteq> k) ps))" for ps
    by (induction ps) auto
  have "distinct (map fst (filter (\<lambda>(a, b). a \<noteq> k) (gt_pending s)))"
    using assms(2) by (simp add: distinct_map_filter)
  then show ?thesis using assms split [of "gt_pending s"]
    by (auto simp: insert_pending_def Let_def answer_all_eq books_ok_def conserved_def waiting_def)
qed


lemma on_chat_command_books:
  assumes "books_ok s" and "gt_phase s = Live" and "gt_rx s = c # rest"
  shows "books_ok (on_chat_command gv c (s\<lparr>gt_rx := rest\<rparr>))"
proof -
  let ?f = "OutChat (chat_frame (gv_uuid gv (length (gt_trace s))) c)"
  let ?s = "snd (send_frame gv ?f (s\<lparr>gt_rx := rest\<rparr>))"
  have pend: "conserved (?s\<lparr>gt_rx := c # gt_rx ?s\<rparr>)" "distinct (map fst (gt_pending ?s))" "gt_phase ?s = Live"
    using assms by (auto simp: books_ok_def conserved_def waiting_def piece_defs)
  have "conserved (record_action (GaReply (ch_reply c) x) ?s)" for x
    using assms by (auto simp: books_ok_def conserved_def waiting_def piece_defs)
  then show ?thesis
    using insert_pending_books [OF pend, of "\<lparr>pr_method = ''chat.send'', pr_reply = ch_reply c\<rparr>"]
    by (auto simp: on_chat_command_def Let_def after_connect_once_books send_frame_def split: prod.splits sum.splits)
qed

lemma on_command_books: "books_ok s \<Longrightarrow> gt_phase s = Live \<Longrightarrow> books_ok (on_command gv s)"
  using on_chat_command_books [of s] close_and_restart_books [OF books_conserved]
  by (auto simp: on_command_def split: list.split)

lemma pending_split:
  "distinct (map fst ps) \<Longrightarrow> map_of ps k = Some p \<Longrightarrow>
     mset (map (pr_reply \<circ> snd) ps) = add_mset (pr_reply p) (mset (map (pr_reply \<circ> snd) (filter (\<lambda>(a, b). a \<noteq> k) ps)))"
proof (induction ps)
  case (Cons x ps)
  show ?case
  proof (cases "fst x = k")
    case True
    then have "k \<notin> fst ` set ps" using Cons.prems(1) by auto
    then have "filter (\<lambda>(a, b). a \<noteq> k) ps = ps" by (force simp: filter_id_conv)
    with True Cons.prems show ?thesis by (cases x) auto
  qed (use Cons in \<open>cases x, auto\<close>)
qed simp

lemma on_response_books:
  assumes "books_ok s" and "gt_phase s = Live"
  shows "books_ok (on_response res s)"
proof (cases "map_of (gt_pending s) (rf_id res)")
  case None
  with assms show ?thesis
    by (simp add: on_response_def Let_def record_action_def books_ok_def conserved_def waiting_def split: gateway_phase.splits)
next
  case (Some p)
  with assms pending_split [OF _ Some] show ?thesis
    by (auto simp: on_response_def Let_def books_ok_def conserved_def waiting_def record_action_def distinct_map_filter)
qed

lemma on_incoming_books: "books_ok s \<Longrightarrow> books_ok (on_incoming gv inc s)"
  using after_connect_once_books [of s] connect_refused_books [of s]
  by (auto simp: on_incoming_def on_challenge_text_def on_hello_text_def on_live_text_def books_conserved
      send_connect_books connect_accepted_books on_response_books
      split: gateway_phase.split incoming.split sum.split option.split)

lemma books_idle: "books_ok s \<Longrightarrow> gt_phase s \<noteq> Live \<Longrightarrow> gt_pending s = []"
  by (simp add: books_ok_def)

lemma on_shutdown_books:
  assumes "books_ok s"
  shows "books_ok (on_shutdown gv s)"
proof (cases "gt_phase s")
  case Sleeping
  with assms show ?thesis
    by (simp add: on_shutdown_def Let_def conserved_pieces books_conserved books_idle)
qed (use assms in \<open>simp_all add: on_shutdown_def Let_def conserved_pieces books_conserved
      after_connect_once_books close_and_restart_books\<close>)

lemma run_gateway_task_books: "books_ok s \<Longrightarrow> books_ok (run_gateway_task gv e s)"
proof (induction gv e s rule: run_gateway_task.induct)
  case (2 gv c s)
  then show ?case
    by (auto simp: can_submit_def books_ok_def conserved_def waiting_def record_action_def
        split: gateway_phase.splits)
next
  case (4 gv r s)
  then show ?case using after_connect_once_books [OF books_conserved]
    by (auto split: sum.split intro: books_move)
next
  case (8 gv s)
  then show ?case
    by (simp add: wake_up_def conserved_pieces books_conserved books_idle)
next
  case (1 gv s)
  then show ?case by (simp add: books_ok_def conserved_def waiting_def split: gateway_phase.splits)
next
  case (3 gv s)
  then show ?case by (simp add: books_ok_def conserved_def waiting_def split: gateway_phase.splits)
qed (simp_all add: on_shutdown_books on_command_books on_incoming_books)

section \<open>The trace grows\<close>

definition extends :: "gateway_task \<Rightarrow> gateway_task \<Rightarrow> bool" where
  "extends s s' \<longleftrightarrow> prefix (gt_trace s) (gt_trace s')"

lemma extends_refl [simp]: "extends s s"
  by (simp add: extends_def)

lemma extends_fields [simp]:
  "extends s (t\<lparr>gt_phase := p\<rparr>) = extends s t" "extends s (t\<lparr>gt_pending := q\<rparr>) = extends s t"
  "extends s (t\<lparr>gt_host := h\<rparr>) = extends s t" "extends s (t\<lparr>gt_rx := r\<rparr>) = extends s t"
  "extends s (t\<lparr>gt_signals := n\<rparr>) = extends s t" "extends s (t\<lparr>gt_backoff := b\<rparr>) = extends s t"
  "extends s (t\<lparr>gt_reconnecting := w\<rparr>) = extends s t" "extends s (t\<lparr>gt_rx_closed := w\<rparr>) = extends s t"
  "extends s (update_gateway_state v t) = extends s t"
  by (simp_all add: extends_def update_gateway_state_def)

lemma extends_pieces [simp]:
  assumes "extends s t"
  shows "extends s (record_action a t)" "extends s (snd (send_frame gv f t))" "extends s (drop_pending t)"
    "extends s (end_task r t)" "extends s (loop_top t)" "extends s (fall_asleep gv t)"
    "extends s (wake_up gv t)" "extends s (answer_all e rs t)" "extends s (fire_gateway_hooks gv kind message t)"
  using assms fire_gateway_hooks_eq [of gv kind message t] by (auto simp: extends_def piece_defs)

lemma extends_handlers [simp]:
  assumes "extends s t"
  shows "extends s (after_connect_once gv outcome t)" "extends s (close_and_restart gv t)"
    "extends s (insert_pending k p t)" "extends s (on_response res t)"
    "extends s (connect_refused gv err t)"
  using assms
  by (simp_all add: after_connect_once_def close_and_restart_def insert_pending_def on_response_def
      connect_refused_def Let_def split: sum.split DisconnectReason.split option.split)

lemma send_frame_pair: "send_frame gv f s = (r, s') \<Longrightarrow> s' = record_action (GaSend f) s"
  by (simp add: send_frame_def)

lemma extends_requests [simp]:
  assumes "extends s t"
  shows "extends s (send_connect gv nonce t)" "extends s (connect_accepted gv hello t)"
    "extends s (on_chat_command gv c t)"
  using assms
  by (auto simp: send_connect_def connect_accepted_def on_chat_command_def Let_def
      split: prod.split sum.split option.split dest!: send_frame_pair)

lemma extends_step: "extends s (run_gateway_task gv e s)"
  by (cases "(gv, e, s)" rule: run_gateway_task.cases)
    (simp_all add: on_shutdown_def on_command_def on_incoming_def on_challenge_text_def on_hello_text_def
      on_live_text_def Let_def split: sum.split gateway_phase.split list.split incoming.split option.split)

interpretation gateway: traced_machine "run_gateway_task gv" books_ok gt_trace for gv
  using extends_step by unfold_locales (simp_all add: run_gateway_task_books extends_def)

lemma start_books: "books_ok (start_gateway_task gv h status hooks)"
  by (simp add: start_gateway_task_def conserved_pieces conserved_def waiting_def)

lemma run_books: "books_ok (gateway_run gv es (start_gateway_task gv h status hooks))"
  unfolding gateway_run_def using gateway.run_inv start_books by blast

section \<open>What a success means\<close>

text \<open>
  The history behind the queue, the pending requests and the successes: a queued command was
  accepted, a pending request was sent for an accepted command, and a success was reported after
  a positive response to such a request.
\<close>

definition confirmed :: "gateway_action list \<Rightarrow> nat \<Rightarrow> bool" where
  "confirmed t r \<longleftrightarrow>
     (\<exists>c q res. subseq [GaAccept c, GaSend (OutChat (chat_frame q c)), GaReceive res, GaReply r (Inr ())] t
        \<and> ch_reply c = r \<and> rf_ok res \<and> rf_id res = q)"

definition sent_for :: "gateway_action list \<Rightarrow> string \<Rightarrow> nat \<Rightarrow> bool" where
  "sent_for t q r \<longleftrightarrow>
     (\<exists>c. subseq [GaAccept c, GaSend (OutChat (chat_frame q c))] t \<and> ch_reply c = r)"

definition honest :: "gateway_task \<Rightarrow> bool" where
  "honest s \<longleftrightarrow>
     (\<forall>c. c \<in> set (gt_rx s) \<longrightarrow> GaAccept c \<in> set (gt_trace s))
     \<and> (\<forall>q p. (q, p) \<in> set (gt_pending s) \<longrightarrow> sent_for (gt_trace s) q (pr_reply p))
     \<and> (\<forall>r. GaReply r (Inr ()) \<in> set (gt_trace s) \<longrightarrow> confirmed (gt_trace s) r)"

lemma subseq_append: "subseq xs ys \<Longrightarrow> subseq xs (ys @ zs)"
  using list_emb_append_mono [of "(=)" xs ys "[]" zs] by simp

lemma confirmed_append: "confirmed t r \<Longrightarrow> confirmed (t @ u) r"
  unfolding confirmed_def using subseq_append by blast

lemma sent_for_append: "sent_for t q r \<Longrightarrow> sent_for (t @ u) q r"
  unfolding sent_for_def using subseq_append by blast

lemma honest_step:
  assumes "honest s" and t: "gt_trace s' = gt_trace s @ u" and "\<forall>r. GaReply r (Inr ()) \<notin> set u"
    and "\<forall>c. c \<in> set (gt_rx s') \<longrightarrow> c \<in> set (gt_rx s) \<or> GaAccept c \<in> set u"
    and "\<forall>q p. (q, p) \<in> set (gt_pending s') \<longrightarrow> (q, p) \<in> set (gt_pending s)"
  shows "honest s'"
  unfolding honest_def t
proof (intro conjI allI impI)
  fix q p assume "(q, p) \<in> set (gt_pending s')"
  with assms(1,5) show "sent_for (gt_trace s @ u) q (pr_reply p)" by (simp add: honest_def sent_for_append)
next
  fix r assume "GaReply r (Inr ()) \<in> set (gt_trace s @ u)"
  with assms(1,3) show "confirmed (gt_trace s @ u) r" by (simp add: honest_def confirmed_append)
next
  fix c assume "c \<in> set (gt_rx s')"
  with assms(1,4) show "GaAccept c \<in> set (gt_trace s @ u)" by (auto simp: honest_def)
qed

lemma honest_fields [simp]:
  "honest (t\<lparr>gt_phase := p\<rparr>) = honest t" "honest (t\<lparr>gt_host := h\<rparr>) = honest t"
  "honest (t\<lparr>gt_signals := n\<rparr>) = honest t" "honest (t\<lparr>gt_backoff := b\<rparr>) = honest t"
  "honest (t\<lparr>gt_reconnecting := w\<rparr>) = honest t" "honest (t\<lparr>gt_rx_closed := w\<rparr>) = honest t"
  "honest (update_gateway_state v t) = honest t"
  by (simp_all add: honest_def update_gateway_state_def)

lemma honest_pieces [simp]:
  assumes "honest t"
  shows "honest (t\<lparr>gt_pending := []\<rparr>)" "honest (snd (send_frame gv f t))" "honest (drop_pending t)"
    "honest (end_task r t)" "honest (loop_top t)" "honest (fall_asleep gv t)" "honest (wake_up gv t)"
    "honest (fire_gateway_hooks gv kind message t)" "honest (record_action (GaReply i (Inl e)) t)"
  using fire_gateway_hooks_eq [of gv kind message t]
  by (auto simp: piece_defs intro!: honest_step [OF assms])

lemma honest_handlers [simp]:
  assumes "honest t"
  shows "honest (after_connect_once gv outcome t)" "honest (close_and_restart gv t)"
    "honest (connect_refused gv err t)"
  using assms
  by (simp_all add: after_connect_once_def close_and_restart_def connect_refused_def Let_def
      split: sum.split DisconnectReason.split option.split)

lemma honest_connect [simp]:
  assumes "honest t"
  shows "honest (send_connect gv nonce t)" "honest (connect_accepted gv hello t)"
proof -
  have "honest (record_action (GaSend f) t)" for f
    using honest_pieces(2) [OF assms] by (simp add: send_frame_def)
  then show "honest (send_connect gv nonce t)"
    by (auto simp: send_connect_def Let_def split: prod.split sum.split dest!: send_frame_pair)
  show "honest (connect_accepted gv hello t)"
    using assms by (auto simp: connect_accepted_def Let_def split: option.split prod.split sum.split)
qed

lemma sent_for_send: "GaAccept c \<in> set t \<Longrightarrow> sent_for (t @ GaSend (OutChat (chat_frame q c)) # u) q (ch_reply c)"
proof -
  assume "GaAccept c \<in> set t"
  then have "subseq [GaAccept c] t" by (simp add: subseq_singleton_left)
  then have "subseq ([GaAccept c] @ [GaSend (OutChat (chat_frame q c))])
      (t @ GaSend (OutChat (chat_frame q c)) # u)"
    by (rule list_emb_append_mono) simp
  then show ?thesis unfolding sent_for_def by auto
qed

lemma honest_chat_command:
  assumes "honest s" and "gt_rx s = c # rest"
  shows "honest (on_chat_command gv c (s\<lparr>gt_rx := rest\<rparr>))"
proof -
  let ?q = "gv_uuid gv (length (gt_trace s))"
  let ?s = "record_action (GaSend (OutChat (chat_frame ?q c))) (s\<lparr>gt_rx := rest\<rparr>)"
  have s: "honest ?s" using assms(2) by (auto simp: record_action_def intro!: honest_step [OF assms(1)])
  have sent: "sent_for (gt_trace ?s @ u) ?q (ch_reply c)" for u
    using sent_for_send [of c "gt_trace s" ?q u] assms by (simp add: honest_def record_action_def)
  have "honest (insert_pending ?q \<lparr>pr_method = ''chat.send'', pr_reply = ch_reply c\<rparr> ?s)"
    using s sent
    by (auto simp: insert_pending_def Let_def answer_all_eq honest_def sent_for_append confirmed_append)
  then show ?thesis using s by (auto simp: on_chat_command_def Let_def send_frame_def split: sum.split)
qed

lemma confirmed_reply:
  assumes "sent_for t q r" and "rf_ok res" and "rf_id res = q"
  shows "confirmed (t @ [GaReceive res, GaReply r (Inr ())]) r"
proof -
  from assms(1) obtain c where c: "subseq [GaAccept c, GaSend (OutChat (chat_frame q c))] t" "ch_reply c = r"
    by (auto simp: sent_for_def)
  from c(1) have "subseq ([GaAccept c, GaSend (OutChat (chat_frame q c))] @ [GaReceive res, GaReply r (Inr ())])
      (t @ [GaReceive res, GaReply r (Inr ())])"
    by (rule list_emb_append_mono) simp
  with c(2) assms(2,3) show ?thesis unfolding confirmed_def by auto
qed

lemma honest_response:
  assumes "honest s"
  shows "honest (on_response res s)"
proof (cases "map_of (gt_pending s) (rf_id res)")
  case None
  then show ?thesis by (auto simp: on_response_def record_action_def intro!: honest_step [OF assms])
next
  case (Some p)
  let ?s = "on_response res s"
  have eq: "?s = s\<lparr>gt_trace := gt_trace s @ [GaReceive res, GaReply (pr_reply p) (response_result p res)],
      gt_pending := filter (\<lambda>(a, b). a \<noteq> rf_id res) (gt_pending s)\<rparr>"
    using Some by (simp add: on_response_def record_action_def)
  from Some have "sent_for (gt_trace s) (rf_id res) (pr_reply p)"
    using assms by (auto simp: honest_def dest: map_of_SomeD)
  from confirmed_reply [OF this _ refl] assms show ?thesis
    unfolding eq honest_def
    by (auto simp: sent_for_append confirmed_append response_result_def split: if_splits)
qed

lemma honest_run_step: "honest s \<Longrightarrow> honest (run_gateway_task gv e s)"
proof (induction gv e s rule: run_gateway_task.induct)
  case (2 gv c s)
  then show ?case by (auto simp: record_action_def intro!: honest_step [of s])
next
  case (6 gv s)
  then show ?case by (auto simp: on_command_def honest_chat_command split: list.split)
next
  case (7 gv inc s)
  then show ?case
    by (auto simp: on_incoming_def on_challenge_text_def on_hello_text_def on_live_text_def honest_response
        split: gateway_phase.split incoming.split sum.split option.split)
qed (auto simp: on_shutdown_def Let_def split: sum.split gateway_phase.split)

interpretation history: event_machine "run_gateway_task gv" honest for gv
  by unfold_locales (rule honest_run_step)

lemma start_honest: "honest (start_gateway_task gv h status hooks)"
  unfolding start_gateway_task_def by (rule honest_pieces(5)) (simp add: honest_def)


section \<open>Properties\<close>

text \<open>
  Claim C16. Every accepted \<open>chat.send\<close> is answered exactly once: at any moment of any run, whatever
  the connection, the gateway and the supervisor do, the accepted commands are, counted with
  multiplicity, those already answered and those still queued or in flight; nothing is in flight
  without a live connection, and once the task has ended nothing waits any more.
\<close>

theorem chat_answered_once:
  "let s = gateway_run gv es (start_gateway_task gv h status hooks)
   in mset (accepts (gt_trace s)) = mset (answered (gt_trace s)) + mset (waiting s)
      \<and> (gt_phase s = Live \<or> gt_pending s = [])
      \<and> (case gt_phase s of Ended r \<Rightarrow> waiting s = [] | _ \<Rightarrow> True)"
  using run_books [of gv es h status hooks] unfolding Let_def books_ok_def conserved_def
  by (auto simp: waiting_def split: gateway_phase.splits)

lemma reply_confirmed:
  assumes "GaReply r (Inr ()) \<in> set (gt_trace (gateway_run gv es (start_gateway_task gv h status hooks)))"
  shows "\<exists>c q res. subseq [GaAccept c, GaSend (OutChat (chat_frame q c)), GaReceive res, GaReply r (Inr ())]
        (gt_trace (gateway_run gv es (start_gateway_task gv h status hooks)))
      \<and> ch_reply c = r \<and> rf_ok res \<and> rf_id res = q"
  using history.run_inv [OF start_honest] assms
  unfolding gateway_run_def honest_def confirmed_def by blast

text \<open>
  Claim C17. A success is never invented: if a caller of \<open>send_chat\<close> is told \<open>Ok\<close>, then its command was
  accepted, a request frame with its session key, text and idempotency key was sent, and a response
  with \<open>ok\<close> to the id of that frame was received, in this order, before the answer.
\<close>

theorem chat_success_confirmed:
  assumes "GaReply r (Inr ()) \<in> set (gt_trace (gateway_run gv es (start_gateway_task gv h status hooks)))"
  shows "\<exists>c q res. subseq [GaAccept c, GaSend (OutChat (chat_frame q c)), GaReceive res, GaReply r (Inr ())]
        (gt_trace (gateway_run gv es (start_gateway_task gv h status hooks)))
      \<and> ch_reply c = r \<and> rf_ok res \<and> rf_id res = q"
  by (rule reply_confirmed [OF assms])

definition demo_daemon_config :: "string option \<Rightarrow> Config" where
  "demo_daemon_config token =
     \<lparr>cf_gateway = \<lparr>gw_ws_url = ''ws://gateway'', gw_client_id = ''c'', gw_client_mode = ''node'',
        gw_display_name = ''d'', gw_device_id = None, gw_shared_token = token, gw_shared_password = None,
        gw_requested_role = ''node'', gw_requested_scopes = []\<rparr>,
      cf_servers = [], cf_attention = demo_config, cf_wake_session_key = ''main'',
      cf_replay = \<lparr>rp_dedupe_window_size = 10, rp_discard_before_ts = None\<rparr>,
      cf_logging = \<lparr>lg_level = ''info'', lg_json = False\<rparr>,
      cf_retry = \<lparr>rc_base_ms = 100, rc_max_ms = 1000, rc_jitter_ratio = FFin 0,
        rc_storm_guard = default_storm_guard\<rparr>,
      cf_storage = \<lparr>sc_database_path = ''/db'', sc_artifact_root = ''/art'', sc_auto_migrate = True\<rparr>,
      cf_sinks = [], cf_hard_failure_hooks = [], cf_paths = demo_paths\<rparr>"

definition demo_event_frame :: "string \<Rightarrow> EventFrame result" where
  "demo_event_frame txt =
     (if txt = ''challenge''
      then Inr \<lparr>ef_type = ''event'', ef_event = ''connect.challenge'',
                ef_payload = JObj [(''nonce'', JStr ''n'')], ef_seq = None\<rparr>
      else Inl ''no event'')"

text \<open>A response to the request of that id; anything but \<open>ok\<close> is the code of a refusal.\<close>

definition demo_response_frame :: "string \<Rightarrow> string \<Rightarrow> ResponseFrame" where
  "demo_response_frame i code =
     \<lparr>rf_type = ''res'', rf_id = i, rf_ok = (code = ''ok''), rf_payload = JNull,
      rf_error = Some \<lparr>ge_code = None, ge_message = code, ge_details = Some (JObj [(''code'', JStr code)])\<rparr>\<rparr>"

definition demo_gateway_env :: "string option \<Rightarrow> gateway_env" where
  "demo_gateway_env token =
     \<lparr>gv_config = demo_daemon_config token,
      gv_identity = device_of_keys demo_gateway_lib demo_key (rev demo_key),
      gv_lib = demo_gateway_lib, gv_parse_event = demo_event_frame,
      gv_parse_response = (\<lambda>txt. if txt = ''challenge'' then Inl ''no response'' else Inr (demo_response_frame ''u'' txt)),
      gv_parse_hello = (\<lambda>_. Inr \<lparr>hk_type = ''hello-ok'', hk_protocol = 4, hk_server = None, hk_features = None,
        hk_snapshot = None, hk_auth = None, hk_policy = \<lparr>hp_tick_interval_ms = 0\<rparr>\<rparr>),
      gv_os = ''linux'', gv_version = ''1'', gv_uuid = (\<lambda>_. ''u''), gv_now_ms = (\<lambda>_. 0),
      gv_write = (\<lambda>_. Inr ()), gv_draw = (\<lambda>_. FFin 0), gv_print_event = (\<lambda>_. Inr ''{}''),
      gv_clock = (\<lambda>_ _. 0)\<rparr>"

definition demo_status :: DaemonStatus where
  "demo_status = \<lparr>st_gateway_state = ''connecting'', st_wake_session_key = ''main'', st_servers = []\<rparr>"

definition demo_task :: "string option \<Rightarrow> gateway_task" where
  "demo_task token = start_gateway_task (demo_gateway_env token) demo_host demo_status (hooks_new [])"

definition say :: "string \<Rightarrow> gateway_event" where
  "say txt = TakeIncoming (Received (MsgText txt))"

definition demo_chat :: chat_command where
  "demo_chat = \<lparr>ch_session_key = ''main'', ch_message = ''hi'', ch_idempotency_key = ''k'', ch_reply = 7\<rparr>"

definition demo_live :: "gateway_event list" where
  "demo_live = [ConnectDone (Inr ()), say ''challenge'', say ''ok'']"

lemmas gateway_eval = gateway_run_def demo_live_def demo_task_def start_gateway_task_def say_def
  on_incoming_def on_challenge_text_def on_hello_text_def on_live_text_def is_tick_def gateway_ws_text_def
  send_connect_def connect_accepted_def connect_refused_def on_command_def on_chat_command_def insert_pending_def
  on_response_def response_result_def on_shutdown_def close_and_restart_def after_connect_once_def piece_defs
  can_submit_def command_capacity_def

lemmas demo_gateway_eval = gateway_eval demo_gateway_env_def demo_event_frame_def demo_response_frame_def
  demo_chat_def json_str_at_def json_get_def json_as_str_def

theorem chat_success_confirmed_witness:
  "\<exists>c q res. subseq [GaAccept c, GaSend (OutChat (chat_frame q c)), GaReceive res, GaReply 7 (Inr ())]
        (gt_trace (gateway_run (demo_gateway_env None) (demo_live @ [Submit demo_chat, TakeCommand, say ''ok''])
          (start_gateway_task (demo_gateway_env None) demo_host demo_status (hooks_new []))))
      \<and> ch_reply c = 7 \<and> rf_ok res \<and> rf_id res = q"
  by (rule chat_success_confirmed) (simp add: demo_gateway_eval)

text \<open>
  Claim C34. A refused shared token is retried at once and for ever: when the gateway answers the
  connect request with \<open>AUTH_TOKEN_MISMATCH\<close>, the task reconnects without sleeping and presents the
  same shared token to the next challenge, so that as soon as the gateway has answered it is where
  it was before; between the two requests it does nothing but connect.
\<close>

theorem token_mismatch_retried_at_once:
  assumes at: "gt_phase s = AwaitHello i" "gt_pending s = []" "gt_signals s = 0"
    and token: "gw_shared_token (cf_gateway (gv_config gv)) = Some token"
    and refused: "gateway_ws_text m = Inr refusal" "refusal \<noteq> []" "gv_parse_response gv refusal = Inr res"
      "rf_type res = ''res''" "rf_id res = i" "\<not> rf_ok res" "rf_error res = Some err"
      "detail_code err = ''AUTH_TOKEN_MISMATCH''"
    and challenge: "gateway_ws_text m' = Inr greeting" "greeting \<noteq> []" "gv_parse_event gv greeting = Inr frame"
      "ef_type frame = ''event''" "ef_event frame = ''connect.challenge''"
      "json_str_at ''nonce'' (ef_payload frame) = Some nonce"
    and writable: "gv_write gv (Suc (length (gt_trace s))) = Inr ()"
  shows "\<exists>i' request params.
    gt_trace (gateway_run gv [TakeIncoming (Received m), ConnectDone (Inr ()), TakeIncoming (Received m')] s)
      = gt_trace s @ [GaConnect, GaSend (OutConnect request)]
    \<and> gt_phase (gateway_run gv [TakeIncoming (Received m), ConnectDone (Inr ()), TakeIncoming (Received m')] s)
      = AwaitHello i'
    \<and> rq_params request = Some params \<and> map_option ap_token (cn_auth params) = Some (Some token)"
proof -
  define s1 where "s1 = run_gateway_task gv (TakeIncoming (Received m)) s"
  have s1: "gt_phase s1 = Connecting" "gt_trace s1 = gt_trace s @ [GaConnect]"
    using at refused by (simp_all add: s1_def gateway_eval)
  have "gateway_run gv [TakeIncoming (Received m), ConnectDone (Inr ()), TakeIncoming (Received m')] s
    = gateway_run gv [ConnectDone (Inr ()), TakeIncoming (Received m')] s1"
    by (simp add: gateway_run_def s1_def)
  also have "\<dots> = send_connect gv nonce (s1\<lparr>gt_phase := AwaitChallenge\<rparr>)"
    using s1 challenge by (simp add: gateway_run_def on_incoming_def on_challenge_text_def)
  finally have "gateway_run gv [TakeIncoming (Received m), ConnectDone (Inr ()), TakeIncoming (Received m')] s
    = send_connect gv nonce (s1\<lparr>gt_phase := AwaitChallenge\<rparr>)" .
  with s1 writable token show ?thesis
    by (simp add: send_connect_def select_connect_auth_def connect_params_def send_frame_def record_action_def Let_def)
qed

theorem token_mismatch_retried_at_once_witness:
  "\<exists>i' request params.
    gt_trace (gateway_run (demo_gateway_env (Some ''bad''))
        [say ''AUTH_TOKEN_MISMATCH'', ConnectDone (Inr ()), say ''challenge'']
        (gateway_run (demo_gateway_env (Some ''bad'')) [ConnectDone (Inr ()), say ''challenge''] (demo_task (Some ''bad''))))
      = gt_trace (gateway_run (demo_gateway_env (Some ''bad'')) [ConnectDone (Inr ()), say ''challenge''] (demo_task (Some ''bad'')))
        @ [GaConnect, GaSend (OutConnect request)]
    \<and> gt_phase (gateway_run (demo_gateway_env (Some ''bad''))
        [say ''AUTH_TOKEN_MISMATCH'', ConnectDone (Inr ()), say ''challenge'']
        (gateway_run (demo_gateway_env (Some ''bad'')) [ConnectDone (Inr ()), say ''challenge''] (demo_task (Some ''bad''))))
      = AwaitHello i'
    \<and> rq_params request = Some params \<and> map_option ap_token (cn_auth params) = Some (Some ''bad'')"
  unfolding say_def
  by (rule token_mismatch_retried_at_once [where i = "''u''" and refusal = "''AUTH_TOKEN_MISMATCH''"
        and greeting = "''challenge''" and nonce = "''n''" and res = "demo_response_frame ''u'' ''AUTH_TOKEN_MISMATCH''"
        and err = "the (rf_error (demo_response_frame ''u'' ''AUTH_TOKEN_MISMATCH''))"
        and frame = "case demo_event_frame ''challenge'' of Inr f \<Rightarrow> f"])
    (simp_all add: demo_gateway_eval demo_daemon_config_def detail_code_def)

text \<open>
  Claim C35. The shutdown message can be swallowed: a task with a live connection that receives the
  one message the supervisor sends closes the connection, sleeps and then connects again instead
  of ending; only a message that finds it sleeping ends it.
\<close>

theorem shutdown_message_swallowed:
  assumes "gt_phase s = Live" and "gt_signals s = 0"
  shows "gt_phase (gateway_run gv [Signal, TakeShutdown, SleepDone] s) = Connecting
    \<and> gt_phase (gateway_run gv [Signal, TakeShutdown, Signal, TakeShutdown] s) = Ended (Inr ())"
  using assms by (simp add: gateway_eval)

theorem shutdown_message_swallowed_witness:
  "gt_phase (gateway_run (demo_gateway_env None) [Signal, TakeShutdown, SleepDone]
      (gateway_run (demo_gateway_env None) demo_live (demo_task None))) = Connecting"
proof -
  have "gt_phase (gateway_run (demo_gateway_env None) demo_live (demo_task None)) = Live"
    "gt_signals (gateway_run (demo_gateway_env None) demo_live (demo_task None)) = 0"
    by (simp_all add: demo_gateway_eval)
  from shutdown_message_swallowed [OF this] show ?thesis by blast
qed

end
