(* ===== verification/Storage_Invariant.thy ===== *)
theory Storage_Invariant
  imports Storage
begin

text \<open>
  What the delivery store guarantees across operations: integrity of the tables (unique keys and
  references), one event per message, and delivered deliveries that stay delivered. All of it
  rests on one relation between the database before and after a statement, \<open>db_ext\<close>: rows are
  never removed, their keys never change, and a delivered delivery keeps its status.
\<close>

section \<open>The tables as unique tables\<close>

interpretation source: unique_table is_server_key merge_ingress_source
  by unfold_locales (simp add: merge_ingress_source_def)

interpretation decision: unique_table attention_decision_key merge_attention_decision
  by unfold_locales (simp add: attention_decision_key_def merge_attention_decision_def)

interpretation matches: unique_table receptor_match_key merge_receptor_match
  by unfold_locales (simp add: receptor_match_key_def merge_receptor_match_def)

interpretation idem: unique_table idempotency_key "\<lambda>old new. old"
  by unfold_locales simp

text \<open>Read the other way, the table of idempotency keys says which message an event belongs to.\<close>

interpretation owner: unique_table ix_daemon_event_id "\<lambda>old new. old"
  by unfold_locales simp

interpretation target: unique_table tg_sink_key merge_sink_target
  by unfold_locales (simp add: merge_sink_target_def)

interpretation delivery: unique_table sink_delivery_key merge_sink_delivery
  by unfold_locales (simp add: sink_delivery_key_def merge_sink_delivery_def Let_def)

section \<open>References\<close>

definition refs :: "('r \<Rightarrow> int) \<Rightarrow> 'r sql_table \<Rightarrow> int set \<Rightarrow> bool" where
  "refs f t ids \<longleftrightarrow> (\<forall>(i, r)\<in>set (tb_rows t). f r \<in> ids)"

lemma refs_empty: "refs f empty_table ids"
  by (simp add: refs_def empty_table_def)

lemma refs_mono: "refs f t ids \<Longrightarrow> ids \<subseteq> ids' \<Longrightarrow> refs f t ids'"
  by (auto simp: refs_def)

lemma refs_update: "refs f t ids \<Longrightarrow> (\<And>r. f (g r) = f r) \<Longrightarrow> refs f (update_where P g t) ids"
  by (auto simp: refs_def update_where_def)

lemma refs_insert: "refs f t ids \<Longrightarrow> f r \<in> ids \<Longrightarrow> refs f (insert_row r t) ids"
  by (auto simp: refs_def insert_row_def)

lemma refs_upsert:
  "refs f t ids \<Longrightarrow> f r \<in> ids \<Longrightarrow> (\<And>x. f (merge x r) = f x) \<Longrightarrow> refs f (upsert key merge r t) ids"
  by (auto simp: upsert_def refs_insert refs_update)

section \<open>Integrity\<close>

text \<open>The events that belong to a message.\<close>

definition owned_events :: "event_idempotency sql_table \<Rightarrow> int set" where
  "owned_events t = {ix_daemon_event_id r | i r. row_at i t = Some r}"

definition db_ok :: "database \<Rightarrow> bool" where
  "db_ok db \<longleftrightarrow>
     source.unique_ok (db_ingress_source db) \<and>
     decision.unique_ok (db_attention_decision db) \<and>
     ids_ok (db_daemon_event db) \<and>
     idem.unique_ok (db_event_idempotency db) \<and>
     owner.unique_ok (db_event_idempotency db) \<and>
     matches.unique_ok (db_receptor_match db) \<and>
     target.unique_ok (db_sink_target db) \<and>
     delivery.unique_ok (db_sink_delivery db) \<and>
     refs ad_ingress_source_id (db_attention_decision db) (row_ids (db_ingress_source db)) \<and>
     refs de_ingress_source_id (db_daemon_event db) (row_ids (db_ingress_source db)) \<and>
     refs ix_ingress_source_id (db_event_idempotency db) (row_ids (db_ingress_source db)) \<and>
     refs ix_daemon_event_id (db_event_idempotency db) (row_ids (db_daemon_event db)) \<and>
     refs mr_daemon_event_id (db_receptor_match db) (row_ids (db_daemon_event db)) \<and>
     refs sd_daemon_event_id (db_sink_delivery db) (row_ids (db_daemon_event db)) \<and>
     refs sd_daemon_event_id (db_sink_delivery db) (owned_events (db_event_idempotency db)) \<and>
     refs sd_sink_target_id (db_sink_delivery db) (row_ids (db_sink_target db))"

definition fresh_database :: "(nat \<Rightarrow> string option) \<Rightarrow> (nat \<Rightarrow> string) \<Rightarrow> database" where
  "fresh_database faults clocks =
     \<lparr>db_steps = 0, db_faults = faults, db_clocks = clocks, db_tables = [],
      db_event_columns = [], db_ingress_source = empty_table, db_attention_decision = empty_table,
      db_daemon_event = empty_table, db_event_idempotency = empty_table,
      db_receptor_match = empty_table, db_sink_target = empty_table,
      db_sink_delivery = empty_table, db_event_artifact = []\<rparr>"

lemma fresh_database_ok: "db_ok (fresh_database faults clocks)"
  by (simp add: db_ok_def fresh_database_def source.unique_empty decision.unique_empty
      ids_ok_empty idem.unique_empty owner.unique_empty matches.unique_empty target.unique_empty
      delivery.unique_empty refs_empty)

section \<open>Growth\<close>

text \<open>Rows of \<open>t\<close> are still in \<open>t'\<close>, in the relation \<open>R\<close> to what they were.\<close>

definition grows :: "(int \<Rightarrow> 'r \<Rightarrow> 'r \<Rightarrow> bool) \<Rightarrow> 'r sql_table \<Rightarrow> 'r sql_table \<Rightarrow> bool" where
  "grows R t t' \<longleftrightarrow> (\<forall>i r. row_at i t = Some r \<longrightarrow> (\<exists>r'. row_at i t' = Some r' \<and> R i r r'))"

lemma grows_refl: "(\<And>i r. R i r r) \<Longrightarrow> grows R t t"
  by (auto simp: grows_def)

lemma grows_trans:
  "grows R t1 t2 \<Longrightarrow> grows R t2 t3 \<Longrightarrow> (\<And>i a b c. R i a b \<Longrightarrow> R i b c \<Longrightarrow> R i a c) \<Longrightarrow> grows R t1 t3"
  unfolding grows_def by meson

lemma grows_update:
  "(\<And>i r. R i r r) \<Longrightarrow> (\<And>i r. P i r \<Longrightarrow> R i r (f r)) \<Longrightarrow> grows R t (update_where P f t)"
  by (auto simp: grows_def row_at_update)

lemma grows_insert: "ids_ok t \<Longrightarrow> (\<And>i r. R i r r) \<Longrightarrow> grows R t (insert_row r t)"
  using row_at_None [of "tb_seq t + 1" t]
  by (force simp: grows_def row_at_insert ids_ok_def)

lemma grows_upsert:
  assumes "ids_ok t" and "\<And>i r. R i r r" and "\<And>i x. key x = key r \<Longrightarrow> R i x (merge x r)"
  shows "grows R t (upsert key merge r t)"
  using assms by (auto simp: upsert_def intro!: grows_update grows_insert)

lemma row_ids_row_at: "i \<in> row_ids t \<longleftrightarrow> (\<exists>r. row_at i t = Some r)"
  using row_at_None [of i t] by (cases "row_at i t") auto

lemma grows_ids: "grows R t t' \<Longrightarrow> row_ids t \<subseteq> row_ids t'"
  by (fastforce simp: grows_def row_ids_row_at)

lemma owned_events_grow: "grows (\<lambda>_ a b. b = a) t t' \<Longrightarrow> owned_events t \<subseteq> owned_events t'"
  by (fastforce simp: grows_def owned_events_def)

definition same_key :: "('r \<Rightarrow> 'k) \<Rightarrow> int \<Rightarrow> 'r \<Rightarrow> 'r \<Rightarrow> bool" where
  "same_key key i a b \<longleftrightarrow> key b = key a"

text \<open>A delivery outside \<open>D\<close> that was delivered stays delivered.\<close>

definition delivery_step :: "int set \<Rightarrow> int \<Rightarrow> sink_delivery \<Rightarrow> sink_delivery \<Rightarrow> bool" where
  "delivery_step D i a b \<longleftrightarrow>
     sink_delivery_key b = sink_delivery_key a \<and>
     (i \<notin> D \<longrightarrow> sd_status a = ''delivered'' \<longrightarrow> sd_status b = ''delivered'')"

definition db_ext :: "int set \<Rightarrow> database \<Rightarrow> database \<Rightarrow> bool" where
  "db_ext D db db' \<longleftrightarrow>
     grows (same_key is_server_key) (db_ingress_source db) (db_ingress_source db') \<and>
     grows (\<lambda>_ _ _. True) (db_daemon_event db) (db_daemon_event db') \<and>
     grows (\<lambda>_ a b. b = a) (db_event_idempotency db) (db_event_idempotency db') \<and>
     grows (same_key tg_sink_key) (db_sink_target db) (db_sink_target db') \<and>
     grows (delivery_step D) (db_sink_delivery db) (db_sink_delivery db')"

lemma relations_refl [simp]:
  "same_key key i r r" "delivery_step D i d d"
  by (simp_all add: same_key_def delivery_step_def)

lemma relations_trans:
  "same_key key i a b \<Longrightarrow> same_key key i b c \<Longrightarrow> same_key key i a c"
  "delivery_step D i d e \<Longrightarrow> delivery_step D i e f \<Longrightarrow> delivery_step D i d f"
  by (simp_all add: same_key_def delivery_step_def)

lemma db_ext_refl: "db_ext D db db"
  by (simp add: db_ext_def grows_refl)

lemma db_ext_trans: "db_ext D a b \<Longrightarrow> db_ext D b c \<Longrightarrow> db_ext D a c"
  unfolding db_ext_def
  by (auto elim!: grows_trans intro: relations_trans)

section \<open>Specifications of statements\<close>

text \<open>
  On a database with integrity that satisfies \<open>P\<close>, the operation keeps the integrity, only
  extends the database, and establishes \<open>Q\<close> for its result when it succeeds.
\<close>

definition stmt_spec :: "int set \<Rightarrow> (database \<Rightarrow> bool) \<Rightarrow> (database, 'a) op
    \<Rightarrow> ('a \<Rightarrow> database \<Rightarrow> bool) \<Rightarrow> bool" where
  "stmt_spec D P m Q \<longleftrightarrow>
     (\<forall>db. db_ok db \<longrightarrow> P db \<longrightarrow>
        db_ok (snd (m db)) \<and> db_ext D db (snd (m db)) \<and>
        (\<forall>x. fst (m db) = Inr x \<longrightarrow> Q x (snd (m db))))"

lemma stmt_specI:
  assumes "\<And>db. db_ok db \<Longrightarrow> P db \<Longrightarrow>
      db_ok (snd (m db)) \<and> db_ext D db (snd (m db)) \<and> (\<forall>x. fst (m db) = Inr x \<longrightarrow> Q x (snd (m db)))"
  shows "stmt_spec D P m Q"
  using assms by (simp add: stmt_spec_def)

lemma spec_andthen:
  assumes "stmt_spec D P m R" and "\<And>x. stmt_spec D (R x) (f x) Q"
  shows "stmt_spec D P (andthen m f) Q"
proof (rule stmt_specI)
  fix db assume db: "db_ok db" "P db"
  obtain r db1 where m: "m db = (r, db1)" by fastforce
  have first: "db_ok db1" "db_ext D db db1" "\<And>x. r = Inr x \<Longrightarrow> R x db1"
    using assms(1) db m unfolding stmt_spec_def by (metis fst_conv snd_conv)+
  show "db_ok (snd (andthen m f db)) \<and> db_ext D db (snd (andthen m f db))
      \<and> (\<forall>x. fst (andthen m f db) = Inr x \<longrightarrow> Q x (snd (andthen m f db)))"
  proof (cases r)
    case (Inl e)
    with m first show ?thesis by (simp add: andthen_def)
  next
    case (Inr x)
    with assms(2) [of x] first have "db_ok (snd (f x db1)) \<and> db_ext D db1 (snd (f x db1))
        \<and> (\<forall>y. fst (f x db1) = Inr y \<longrightarrow> Q y (snd (f x db1)))"
      by (simp add: stmt_spec_def)
    with m Inr first(2) show ?thesis by (auto simp: andthen_def intro: db_ext_trans)
  qed
qed

lemma spec_pure:
  assumes "\<And>db. snd (m db) = db" and "\<And>db x. db_ok db \<Longrightarrow> P db \<Longrightarrow> fst (m db) = Inr x \<Longrightarrow> Q x db"
  shows "stmt_spec D P m Q"
  using assms by (simp add: stmt_spec_def db_ext_refl)

text \<open>The number of accesses is not part of the data.\<close>

definition steady :: "(database \<Rightarrow> bool) \<Rightarrow> bool" where
  "steady S \<longleftrightarrow> (\<forall>db n. S (db\<lparr>db_steps := n\<rparr>) \<longleftrightarrow> S db)"

lemma steady_conj [intro]: "steady S \<Longrightarrow> steady T \<Longrightarrow> steady (\<lambda>db. S db \<and> T db)"
  by (simp add: steady_def)

lemma steady_all [intro]: "(\<And>x. steady (S x)) \<Longrightarrow> steady (\<lambda>db. \<forall>x. c x \<longrightarrow> S x db)"
  by (simp add: steady_def)

lemma steady_const [intro]: "steady (\<lambda>_. c)"
  by (simp add: steady_def)

lemma steps_ok [simp]: "db_ok (db\<lparr>db_steps := n\<rparr>) = db_ok db"
  by (simp add: db_ok_def)

lemma steps_ext [simp]: "db_ext D a (db\<lparr>db_steps := n\<rparr>) = db_ext D a db"
  by (simp add: db_ext_def)

lemma spec_reads:
  assumes "reads m" and "\<And>x. steady (Q x)" and "\<And>db x. db_ok db \<Longrightarrow> P db \<Longrightarrow> fst (m db) = Inr x \<Longrightarrow> Q x db"
  shows "stmt_spec D P m Q"
proof (rule stmt_specI)
  fix db assume db: "db_ok db" "P db"
  from assms(1) obtain n where "snd (m db) = db\<lparr>db_steps := n\<rparr>" unfolding reads_def by blast
  with db assms(2,3) show "db_ok (snd (m db)) \<and> db_ext D db (snd (m db)) \<and> (\<forall>x. fst (m db) = Inr x \<longrightarrow> Q x (snd (m db)))"
    by (simp add: db_ext_refl steady_def)
qed

lemma spec_access: "steady P \<Longrightarrow> stmt_spec D P access (\<lambda>_. P)"
  by (rule spec_reads) auto

lemma spec_after_access:
  assumes "steady P" and "stmt_spec D P m Q"
  shows "stmt_spec D P (andthen access (\<lambda>_. m)) Q"
  using spec_access [OF assms(1)] assms(2) by (rule spec_andthen)

text \<open>What a statement returns that reads: the value in the database, without the count of accesses.\<close>

lemma select_fst:
  assumes "fst (select f db) = Inr x" and "\<And>n. f (db\<lparr>db_steps := n\<rparr>) = f db"
  shows "x = f db"
  using assms by (auto simp: select_def andthen_def access_def query_def split: option.splits)

lemma query_row_fst:
  assumes "fst (query_row f db) = Inr x" and "\<And>n. f (db\<lparr>db_steps := n\<rparr>) = f db"
  shows "f db = Some x"
  using assms
  by (auto simp: query_row_def select_def andthen_def access_def query_def lift_def ok_or_Inr_iff split: option.splits)

lemma spec_ret: "(\<And>db. P db \<Longrightarrow> Q x db) \<Longrightarrow> stmt_spec D P (ret x) Q"
  by (rule spec_pure) (simp_all add: ret_def)

lemma spec_conseq:
  "stmt_spec D P m Q \<Longrightarrow> (\<And>db. P' db \<Longrightarrow> P db) \<Longrightarrow> (\<And>x db. Q x db \<Longrightarrow> Q' x db) \<Longrightarrow> stmt_spec D P' m Q'"
  by (simp add: stmt_spec_def)

text \<open>What every extension preserves may be carried past a statement.\<close>

definition stable :: "int set \<Rightarrow> (database \<Rightarrow> bool) \<Rightarrow> bool" where
  "stable D S \<longleftrightarrow> (\<forall>db db'. db_ok db \<longrightarrow> db_ok db' \<longrightarrow> db_ext D db db' \<longrightarrow> S db \<longrightarrow> S db')"

lemma spec_frame:
  "stmt_spec D P m Q \<Longrightarrow> stable D S \<Longrightarrow> stmt_spec D (\<lambda>db. P db \<and> S db) m (\<lambda>x db. Q x db \<and> S db)"
  by (auto simp: stmt_spec_def stable_def)

lemma spec_for_each:
  assumes "\<And>x. x \<in> set xs \<Longrightarrow> stmt_spec D S (f x) (\<lambda>_. S)"
  shows "stmt_spec D S (for_each f xs) (\<lambda>_. S)"
  using assms
proof (induction xs)
  case Nil
  then show ?case by (auto intro: spec_ret)
next
  case (Cons x xs)
  then show ?case by (auto intro: spec_andthen)
qed

lemma stable_conj: "stable D S \<Longrightarrow> stable D T \<Longrightarrow> stable D (\<lambda>db. S db \<and> T db)"
  by (auto simp: stable_def)

lemma stable_const: "stable D (\<lambda>_. c)"
  by (simp add: stable_def)

lemma stable_ids:
  "stable D (\<lambda>db. i \<in> row_ids (db_ingress_source db))"
  "stable D (\<lambda>db. i \<in> row_ids (db_daemon_event db))"
  "stable D (\<lambda>db. i \<in> row_ids (db_sink_target db))"
  by (auto simp: stable_def db_ext_def dest!: grows_ids)

section \<open>Replacing one table\<close>

lemma spec_update:
  assumes "\<And>db. db_ok db \<Longrightarrow> P db \<Longrightarrow> db_ok (f db) \<and> db_ext D db (f db) \<and> Q () (f db)"
  shows "stmt_spec D P (update f) Q"
  using assms by (simp add: stmt_spec_def update_def)

lemma spec_execute:
  assumes "steady P" and "\<And>db. db_ok db \<Longrightarrow> P db \<Longrightarrow> db_ok (f db) \<and> db_ext D db (f db) \<and> Q () (f db)"
  shows "stmt_spec D P (execute f) Q"
  unfolding execute_def by (rule spec_after_access [OF assms(1)], rule spec_update, rule assms(2))

lemma set_ingress_source:
  assumes "db_ok db" and "source.unique_ok t" and "grows (same_key is_server_key) (db_ingress_source db) t"
  shows "db_ok (db\<lparr>db_ingress_source := t\<rparr>)" "db_ext D db (db\<lparr>db_ingress_source := t\<rparr>)"
proof -
  note mono = refs_mono [OF _ grows_ids [OF assms(3)]]
  show "db_ok (db\<lparr>db_ingress_source := t\<rparr>)"
    using assms(1,2) by (simp add: db_ok_def mono)
  show "db_ext D db (db\<lparr>db_ingress_source := t\<rparr>)"
    using assms(3) by (simp add: db_ext_def grows_refl)
qed

lemma set_attention_decision:
  assumes "db_ok db" and "decision.unique_ok t"
    and "refs ad_ingress_source_id t (row_ids (db_ingress_source db))"
  shows "db_ok (db\<lparr>db_attention_decision := t\<rparr>)" "db_ext D db (db\<lparr>db_attention_decision := t\<rparr>)"
  using assms by (simp_all add: db_ok_def db_ext_def grows_refl)

lemma set_daemon_event:
  assumes "db_ok db" and "ids_ok t" and "grows (\<lambda>_ _ _. True) (db_daemon_event db) t"
    and "refs de_ingress_source_id t (row_ids (db_ingress_source db))"
  shows "db_ok (db\<lparr>db_daemon_event := t\<rparr>)" "db_ext D db (db\<lparr>db_daemon_event := t\<rparr>)"
proof -
  note mono = refs_mono [OF _ grows_ids [OF assms(3)]]
  show "db_ok (db\<lparr>db_daemon_event := t\<rparr>)"
    using assms(1,2,4) by (simp add: db_ok_def mono)
  show "db_ext D db (db\<lparr>db_daemon_event := t\<rparr>)"
    using assms(3) by (simp add: db_ext_def grows_refl)
qed

lemma set_event_idempotency:
  assumes "db_ok db" and "idem.unique_ok t" and "owner.unique_ok t"
    and "grows (\<lambda>_ a b. b = a) (db_event_idempotency db) t"
    and "refs ix_ingress_source_id t (row_ids (db_ingress_source db))"
    and "refs ix_daemon_event_id t (row_ids (db_daemon_event db))"
  shows "db_ok (db\<lparr>db_event_idempotency := t\<rparr>)" "db_ext D db (db\<lparr>db_event_idempotency := t\<rparr>)"
proof -
  note mono = refs_mono [OF _ owned_events_grow [OF assms(4)]]
  show "db_ok (db\<lparr>db_event_idempotency := t\<rparr>)"
    using assms by (simp add: db_ok_def mono)
  show "db_ext D db (db\<lparr>db_event_idempotency := t\<rparr>)"
    using assms(4) by (simp add: db_ext_def grows_refl)
qed

lemma set_receptor_match:
  assumes "db_ok db" and "matches.unique_ok t"
    and "refs mr_daemon_event_id t (row_ids (db_daemon_event db))"
  shows "db_ok (db\<lparr>db_receptor_match := t\<rparr>)" "db_ext D db (db\<lparr>db_receptor_match := t\<rparr>)"
  using assms by (simp_all add: db_ok_def db_ext_def grows_refl)

lemma set_sink_target:
  assumes "db_ok db" and "target.unique_ok t" and "grows (same_key tg_sink_key) (db_sink_target db) t"
  shows "db_ok (db\<lparr>db_sink_target := t\<rparr>)" "db_ext D db (db\<lparr>db_sink_target := t\<rparr>)"
proof -
  note mono = refs_mono [OF _ grows_ids [OF assms(3)]]
  show "db_ok (db\<lparr>db_sink_target := t\<rparr>)"
    using assms(1,2) by (simp add: db_ok_def mono)
  show "db_ext D db (db\<lparr>db_sink_target := t\<rparr>)"
    using assms(3) by (simp add: db_ext_def grows_refl)
qed

lemma set_sink_delivery:
  assumes "db_ok db" and "delivery.unique_ok t" and "grows (delivery_step D) (db_sink_delivery db) t"
    and "refs sd_daemon_event_id t (row_ids (db_daemon_event db))"
    and "refs sd_daemon_event_id t (owned_events (db_event_idempotency db))"
    and "refs sd_sink_target_id t (row_ids (db_sink_target db))"
  shows "db_ok (db\<lparr>db_sink_delivery := t\<rparr>)" "db_ext D db (db\<lparr>db_sink_delivery := t\<rparr>)"
  using assms by (simp_all add: db_ok_def db_ext_def grows_refl)

lemma ids_ok_tables:
  assumes "db_ok db"
  shows "ids_ok (db_ingress_source db)" "ids_ok (db_daemon_event db)"
    "ids_ok (db_event_idempotency db)" "ids_ok (db_sink_target db)" "ids_ok (db_sink_delivery db)"
  using assms
  by (simp_all add: db_ok_def source.unique_ok_def idem.unique_ok_def target.unique_ok_def
      delivery.unique_ok_def)

section \<open>Ingress sources and events\<close>

definition source_is :: "string \<Rightarrow> int \<Rightarrow> database \<Rightarrow> bool" where
  "source_is server_key i db \<longleftrightarrow>
     (\<exists>r. row_at i (db_ingress_source db) = Some r \<and> is_server_key r = server_key)"

lemma steady_source [intro]: "steady (source_is k i)"
  by (simp add: steady_def source_is_def)

lemma select_source:
  assumes "db_ok db"
  shows "select_id (\<lambda>r. is_server_key r = k) (db_ingress_source db) = Some i \<longleftrightarrow> source_is k i db"
proof
  assume "select_id (\<lambda>r. is_server_key r = k) (db_ingress_source db) = Some i"
  then show "source_is k i db"
    using assms
    by (auto simp: source_is_def select_id_def db_ok_def source.unique_ok_def row_at_iff
        dest!: find_SomeD)
next
  assume "source_is k i db"
  then show "select_id (\<lambda>r. is_server_key r = k) (db_ingress_source db) = Some i"
    using assms source.select_unique [of "db_ingress_source db" i]
    by (auto simp: source_is_def db_ok_def)
qed

lemma source_is_unique: "db_ok db \<Longrightarrow> source_is k i db \<Longrightarrow> source_is k j db \<Longrightarrow> j = i"
  using select_source by (metis option.inject)

lemma source_is_ids: "source_is k i db \<Longrightarrow> i \<in> row_ids (db_ingress_source db)"
  by (auto simp: source_is_def row_ids_row_at)

lemma stable_source: "stable D (source_is k i)"
  by (fastforce simp: stable_def source_is_def db_ext_def grows_def same_key_def)

lemma spec_ingress_source:
  "stmt_spec D (\<lambda>_. True) (upsert_ingress_source server k) (source_is k)"
  unfolding upsert_ingress_source_def
proof (rule spec_andthen [where R = "\<lambda>_ _. True"], rule spec_execute [OF steady_const], intro conjI)
  fix db assume ok: "db_ok db"
  let ?t = "upsert is_server_key merge_ingress_source
      \<lparr>is_server = server, is_server_key = k, is_created_at = db_clock db\<rparr> (db_ingress_source db)"
  have t: "source.unique_ok ?t"
    using ok by (intro source.unique_upsert) (simp add: db_ok_def)
  have g: "grows (same_key is_server_key) (db_ingress_source db) ?t"
    using ids_ok_tables(1) [OF ok]
    by (intro grows_upsert) (simp_all add: same_key_def merge_ingress_source_def)
  show "db_ok (db\<lparr>db_ingress_source := ?t\<rparr>)" "db_ext D db (db\<lparr>db_ingress_source := ?t\<rparr>)"
    by (rule set_ingress_source [OF ok t g])+
next
  show "stmt_spec D (\<lambda>_. True)
      (query_row (\<lambda>db. select_id (\<lambda>r. is_server_key r = k) (db_ingress_source db))) (source_is k)"
    by (rule spec_reads) (auto dest!: query_row_fst simp: select_source)
qed simp

text \<open>The event a message was recorded under.\<close>

definition recorded :: "WakeEnvelope \<Rightarrow> int \<Rightarrow> database \<Rightarrow> bool" where
  "recorded env e db \<longleftrightarrow>
     (\<exists>src i r. source_is (we_server_key env) src db \<and> row_at i (db_event_idempotency db) = Some r
        \<and> idempotency_key r = (src, ''subspace_message'', compute_event_idempotency_key env)
        \<and> ix_daemon_event_id r = e)"

lemma steady_recorded [intro]: "steady (recorded env e)"
  by (simp add: steady_def recorded_def source_is_def)

lemma steady_ids [intro]:
  "steady (\<lambda>db. i \<in> row_ids (db_daemon_event db))" "steady (\<lambda>db. i \<in> row_ids (db_sink_target db))"
  "steady (\<lambda>db. i \<in> owned_events (db_event_idempotency db))" "steady (\<lambda>db. i \<notin> owned_events (db_event_idempotency db))"
  by (simp_all add: steady_def)

lemma lookup_existing_iff:
  assumes "db_ok db"
  shows "lookup_existing_event src key db = Some e \<longleftrightarrow>
    (\<exists>i r. row_at i (db_event_idempotency db) = Some r
       \<and> idempotency_key r = (src, ''subspace_message'', key) \<and> ix_daemon_event_id r = e)"
proof -
  let ?t = "db_event_idempotency db"
  have u: "idem.unique_ok ?t" using assms by (simp add: db_ok_def)
  have rows: "row_at i ?t = Some r \<longleftrightarrow> (i, r) \<in> set (tb_rows ?t)" for i r
    using u by (simp add: idem.unique_ok_def row_at_iff)
  have found: "find (\<lambda>(i, r). idempotency_key r = k) (tb_rows ?t) = Some (i, r)"
    if "row_at i ?t = Some r" "idempotency_key r = k" for i r k
  proof -
    have "find (\<lambda>(i, r). idempotency_key r = k) xs = Some (i, r)"
      if "distinct (map (\<lambda>(i, r). idempotency_key r) xs)" "(i, r) \<in> set xs" "idempotency_key r = k" for xs
      using that by (induction xs) (auto simp: image_iff)
    then show ?thesis using that rows u by (simp add: idem.unique_ok_def)
  qed
  show ?thesis
  proof
    assume "lookup_existing_event src key db = Some e"
    then show "\<exists>i r. row_at i ?t = Some r
       \<and> idempotency_key r = (src, ''subspace_message'', key) \<and> ix_daemon_event_id r = e"
      using rows by (auto simp: lookup_existing_event_def dest!: find_SomeD)
  next
    assume "\<exists>i r. row_at i ?t = Some r
       \<and> idempotency_key r = (src, ''subspace_message'', key) \<and> ix_daemon_event_id r = e"
    then show "lookup_existing_event src key db = Some e"
      using found by (fastforce simp: lookup_existing_event_def)
  qed
qed

lemma recorded_lookup:
  assumes "db_ok db" and "source_is (we_server_key env) src db"
  shows "recorded env e db \<longleftrightarrow>
    lookup_existing_event src (compute_event_idempotency_key env) db = Some e"
  using assms source_is_unique [OF assms] unfolding recorded_def lookup_existing_iff [OF assms(1)]
  by blast

lemma recorded_event_exists: "db_ok db \<Longrightarrow> recorded env e db \<Longrightarrow> e \<in> row_ids (db_daemon_event db)"
  using ids_ok_tables(3) [of db]
  by (auto simp: recorded_def db_ok_def refs_def row_at_iff)

lemma owned_events_exist:
  assumes "db_ok db" and "e \<in> owned_events (db_event_idempotency db)"
  shows "e \<in> row_ids (db_daemon_event db)"
proof -
  have "refs ix_daemon_event_id (db_event_idempotency db) (row_ids (db_daemon_event db))"
    using assms(1) by (simp add: db_ok_def)
  then show ?thesis
    using assms(2) ids_ok_tables(3) [OF assms(1)] by (auto simp: owned_events_def refs_def row_at_iff)
qed

lemma recorded_owned: "recorded env e db \<Longrightarrow> e \<in> owned_events (db_event_idempotency db)"
  unfolding recorded_def owned_events_def by blast

lemma stable_recorded: "stable D (recorded env e)"
  unfolding stable_def
proof (intro allI impI)
  fix db db' assume ok: "db_ok db" "db_ok db'" and ext: "db_ext D db db'" and rec: "recorded env e db"
  then obtain src i r where src: "source_is (we_server_key env) src db"
    and row: "row_at i (db_event_idempotency db) = Some r"
      "idempotency_key r = (src, ''subspace_message'', compute_event_idempotency_key env)"
      "ix_daemon_event_id r = e"
    by (auto simp: recorded_def)
  from ext row(1) have "row_at i (db_event_idempotency db') = Some r"
    unfolding db_ext_def grows_def by blast
  moreover from src ok ext have "source_is (we_server_key env) src db'"
    using stable_source unfolding stable_def by blast
  ultimately show "recorded env e db'" using row(2,3) unfolding recorded_def by blast
qed

lemma spec_receptor_matches:
  "stmt_spec D (\<lambda>db. e \<in> row_ids (db_daemon_event db))
     (upsert_receptor_matches pj e attention routing) (\<lambda>_ db. e \<in> row_ids (db_daemon_event db))"
  unfolding upsert_receptor_matches_def
proof (rule spec_for_each, unfold upsert_receptor_match_def, rule spec_after_access [OF steady_ids(1)], rule stmt_specI)
  fix m db
  assume ok: "db_ok db" and e: "e \<in> row_ids (db_daemon_event db)"
  let ?r = "\<lparr>mr_daemon_event_id = e, mr_receptor_id = rm_receptor_id m,
                mr_receptor_class = receptor_class_as_str (rm_class m),
                mr_score = rm_score m, mr_threshold = rm_threshold m,
                mr_above_threshold = rm_above_threshold m,
                mr_routing_json = pj (receptor_routing_json m routing),
                mr_matched_at = db_clock db\<rparr>"
  let ?t = "upsert receptor_match_key merge_receptor_match ?r (db_receptor_match db)"
  have t: "matches.unique_ok ?t" using ok by (intro matches.unique_upsert) (simp add: db_ok_def)
  have "refs mr_daemon_event_id ?t (row_ids (db_daemon_event db))"
    using ok e by (intro refs_upsert) (simp_all add: db_ok_def merge_receptor_match_def)
  note set = set_receptor_match [OF ok t this]
  let ?m = "if rm_score m = FNaN then (Inl ''NOT NULL constraint failed: receptor_match.score'', db)
      else if rm_threshold m = FNaN then (Inl ''NOT NULL constraint failed: receptor_match.threshold'', db)
      else (Inr (), db\<lparr>db_receptor_match := ?t\<rparr>)"
  show "db_ok (snd ?m) \<and> db_ext D db (snd ?m)
      \<and> (\<forall>x. fst ?m = Inr x \<longrightarrow> e \<in> row_ids (db_daemon_event (snd ?m)))"
    using set ok e by (simp add: db_ext_refl)
qed

lemma spec_insert_event:
  "stmt_spec D (source_is k src) (insert_daemon_event pj src env attention)
     (\<lambda>e db. e \<in> row_ids (db_daemon_event db) \<and> e \<notin> owned_events (db_event_idempotency db) \<and> source_is k src db)"
  unfolding insert_daemon_event_def
proof (rule spec_after_access [OF steady_source], rule stmt_specI)
  fix db assume ok: "db_ok db" and src: "source_is k src db"
  let ?r = "new_daemon_event pj src env attention (db_clock db)"
  let ?t = "insert_row ?r (db_daemon_event db)"
  have t: "ids_ok ?t" using ids_ok_tables(2) [OF ok] by (rule ids_ok_insert)
  have g: "grows (\<lambda>_ _ _. True) (db_daemon_event db) ?t"
    using ids_ok_tables(2) [OF ok] by (intro grows_insert) simp_all
  have "refs de_ingress_source_id ?t (row_ids (db_ingress_source db))"
    using ok source_is_ids [OF src] by (intro refs_insert) (simp_all add: db_ok_def new_daemon_event_def)
  note set = set_daemon_event [OF ok t g this]
  have "tb_seq (db_daemon_event db) + 1 \<notin> row_ids (db_daemon_event db)"
    using ids_ok_tables(2) [OF ok] by (force simp: ids_ok_def)
  then have fresh: "tb_seq ?t \<notin> owned_events (db_event_idempotency db)"
    using owned_events_exist [OF ok] by (auto simp: insert_row_def)
  have "tb_seq ?t \<in> row_ids ?t" by (simp add: insert_row_def row_ids_def)
  let ?m = "let t = ?t in (Inr (tb_seq t), db\<lparr>db_daemon_event := t\<rparr>)"
  from \<open>tb_seq ?t \<in> row_ids ?t\<close> set src fresh show "db_ok (snd ?m) \<and> db_ext D db (snd ?m)
      \<and> (\<forall>e. fst ?m = Inr e \<longrightarrow> e \<in> row_ids (db_daemon_event (snd ?m))
            \<and> e \<notin> owned_events (db_event_idempotency (snd ?m)) \<and> source_is k src (snd ?m))"
    by (simp add: Let_def source_is_def)
qed

lemma spec_insert_idempotency:
  "stmt_spec D (\<lambda>db. e \<in> row_ids (db_daemon_event db) \<and> e \<notin> owned_events (db_event_idempotency db)
        \<and> source_is (we_server_key env) src db)
     (insert_event_idempotency src (compute_event_idempotency_key env) e)
     (\<lambda>_ db. recorded env e db)"
  unfolding insert_event_idempotency_def
proof (rule spec_after_access [OF steady_conj [OF steady_ids(1) steady_conj [OF steady_ids(4) steady_source]]],
    rule stmt_specI)
  fix db
  assume ok: "db_ok db"
    and pre: "e \<in> row_ids (db_daemon_event db) \<and> e \<notin> owned_events (db_event_idempotency db)
        \<and> source_is (we_server_key env) src db"
  let ?key = "compute_event_idempotency_key env"
  let ?r = "\<lparr>ix_ingress_source_id = src, ix_scope = ''subspace_message'',
               ix_idempotency_key = ?key, ix_daemon_event_id = e, ix_created_at = db_clock db\<rparr>"
  let ?t = "db_event_idempotency db"
  let ?m = "let r = ?r in
      if list_ex (\<lambda>(i, x). idempotency_key x = idempotency_key r) (tb_rows ?t)
      then (Inl ''UNIQUE constraint failed: event_idempotency'', db)
      else (Inr (), db\<lparr>db_event_idempotency := insert_row r ?t\<rparr>)"
  show "db_ok (snd ?m) \<and> db_ext D db (snd ?m) \<and> (\<forall>x. fst ?m = Inr x \<longrightarrow> recorded env e (snd ?m))"
  proof (cases "list_ex (\<lambda>(i, x). idempotency_key x = idempotency_key ?r) (tb_rows ?t)")
    case True
    with ok show ?thesis by (simp add: Let_def db_ext_refl)
  next
    case False
    then have m: "?m = (Inr (), db\<lparr>db_event_idempotency := insert_row ?r ?t\<rparr>)"
      by (simp add: Let_def)
    have ids: "ids_ok ?t" by (rule ids_ok_tables(3) [OF ok])
    have u: "idem.unique_ok (insert_row ?r ?t)"
      using ok False by (intro idem.unique_insert) (auto simp: db_ok_def list_ex_iff)
    have o: "owner.unique_ok (insert_row ?r ?t)"
      using ok pre row_at_iff [OF ids]
      by (intro owner.unique_insert) (fastforce simp: db_ok_def owned_events_def)+
    have g: "grows (\<lambda>_ a b. b = a) ?t (insert_row ?r ?t)"
      using ids by (intro grows_insert) simp_all
    have "refs ix_ingress_source_id (insert_row ?r ?t) (row_ids (db_ingress_source db))"
      "refs ix_daemon_event_id (insert_row ?r ?t) (row_ids (db_daemon_event db))"
      using ok pre source_is_ids by (auto intro!: refs_insert simp: db_ok_def)
    note set = set_event_idempotency [OF ok u o g this]
    have "row_at (tb_seq ?t + 1) (insert_row ?r ?t) = Some ?r"
      using ids by (simp add: row_at_insert)
    with pre have "recorded env e (db\<lparr>db_event_idempotency := insert_row ?r ?t\<rparr>)"
      by (force simp: recorded_def source_is_def idempotency_key_def)
    with set m show ?thesis by simp
  qed
qed

text \<open>
  One event per message: whatever was recorded before is found again, and what is returned is
  recorded.
\<close>

lemma spec_lookup_event:
  "stmt_spec D (\<lambda>db. source_is (we_server_key env) src db \<and> (\<forall>e0. old = Some e0 \<longrightarrow> recorded env e0 db)) (select (lookup_existing_event src (compute_event_idempotency_key env)))
    (\<lambda>ex db. source_is (we_server_key env) src db \<and> (case ex of None \<Rightarrow> old = None
       | Some e \<Rightarrow> e \<in> row_ids (db_daemon_event db) \<and> recorded env e db
           \<and> (\<forall>e0. old = Some e0 \<longrightarrow> e = e0)))"
proof (rule spec_reads)
  show "steady (\<lambda>db. source_is (we_server_key env) src db \<and> (case ex of None \<Rightarrow> old = None
       | Some e \<Rightarrow> e \<in> row_ids (db_daemon_event db) \<and> recorded env e db \<and> (\<forall>e0. old = Some e0 \<longrightarrow> e = e0)))" for ex
    by (cases ex) (auto simp: steady_def source_is_def recorded_def)
next
  fix db ex assume ok: "db_ok db" and pre: "source_is (we_server_key env) src db \<and> (\<forall>e0. old = Some e0 \<longrightarrow> recorded env e0 db)"
    and q: "fst (select (lookup_existing_event src (compute_event_idempotency_key env)) db) = Inr ex"
  note look = recorded_lookup [OF ok conjunct1 [OF pre]]
  from select_fst [OF q] have "lookup_existing_event src (compute_event_idempotency_key env) db = ex"
    by (simp add: lookup_existing_event_def)
  then show "source_is (we_server_key env) src db \<and> (case ex of None \<Rightarrow> old = None
       | Some e \<Rightarrow> e \<in> row_ids (db_daemon_event db) \<and> recorded env e db
           \<and> (\<forall>e0. old = Some e0 \<longrightarrow> e = e0))"
    using pre look recorded_event_exists [OF ok] by (cases ex; cases old) auto
qed auto

lemma spec_existing_event:
  "stmt_spec D (\<lambda>db. e \<in> row_ids (db_daemon_event db) \<and> recorded env e db
           \<and> (\<forall>e0. old = Some e0 \<longrightarrow> e = e0))
    (andthen (upsert_receptor_matches pj e attention routing)
            (\<lambda>_. ret \<lparr>ev_daemon_event_id = e, ev_inserted = False\<rparr>)) (\<lambda>ev db. recorded env (ev_daemon_event_id ev) db
      \<and> (\<forall>e0. old = Some e0 \<longrightarrow> ev_daemon_event_id ev = e0 \<and> \<not> ev_inserted ev))"
  by (rule spec_andthen, rule spec_frame, rule spec_receptor_matches)
    (auto intro: spec_ret stable_conj stable_recorded stable_const)

lemma spec_new_event:
  "stmt_spec D (\<lambda>db. source_is (we_server_key env) src db \<and> old = None)
    (andthen (insert_daemon_event pj src env attention) (\<lambda>event_id.
          andthen (insert_event_idempotency src (compute_event_idempotency_key env) event_id) (\<lambda>_.
          andthen (upsert_receptor_matches pj event_id attention routing) (\<lambda>_.
          ret \<lparr>ev_daemon_event_id = event_id, ev_inserted = True\<rparr>)))) (\<lambda>ev db. recorded env (ev_daemon_event_id ev) db
      \<and> (\<forall>e0. old = Some e0 \<longrightarrow> ev_daemon_event_id ev = e0 \<and> \<not> ev_inserted ev))"
proof (rule spec_andthen, rule spec_frame [OF spec_insert_event stable_const])
  fix e
  have keep: "stmt_spec D (\<lambda>db. (e \<in> row_ids (db_daemon_event db) \<and> e \<notin> owned_events (db_event_idempotency db)
        \<and> source_is (we_server_key env) src db) \<and> old = None)
     (insert_event_idempotency src (compute_event_idempotency_key env) e)
     (\<lambda>_ db. e \<in> row_ids (db_daemon_event db) \<and> recorded env e db \<and> old = None)"
    using spec_frame [OF spec_insert_idempotency
        stable_conj [OF stable_ids(2) [of D e] stable_const [of D "old = None"]]]
    by (rule spec_conseq) auto
  show "stmt_spec D (\<lambda>db. (e \<in> row_ids (db_daemon_event db) \<and> e \<notin> owned_events (db_event_idempotency db)
        \<and> source_is (we_server_key env) src db) \<and> old = None)
     (andthen (insert_event_idempotency src (compute_event_idempotency_key env) e) (\<lambda>_.
          andthen (upsert_receptor_matches pj e attention routing) (\<lambda>_.
          ret \<lparr>ev_daemon_event_id = e, ev_inserted = True\<rparr>))) (\<lambda>ev db. recorded env (ev_daemon_event_id ev) db
      \<and> (\<forall>e0. old = Some e0 \<longrightarrow> ev_daemon_event_id ev = e0 \<and> \<not> ev_inserted ev))"
    by (rule spec_andthen [OF keep], rule spec_andthen, rule spec_frame, rule spec_receptor_matches)
      (auto intro: spec_ret stable_conj stable_recorded stable_const)
qed

lemma spec_canonical_event:
  "stmt_spec D (\<lambda>db. \<forall>e0. old = Some e0 \<longrightarrow> recorded env e0 db)
     (upsert_canonical_event pj env attention routing)
     (\<lambda>ev db. recorded env (ev_daemon_event_id ev) db
        \<and> (\<forall>e0. old = Some e0 \<longrightarrow> ev_daemon_event_id ev = e0 \<and> \<not> ev_inserted ev))"
proof -
  let ?k = "we_server_key env" and ?key = "compute_event_idempotency_key env"
  let ?old = "\<lambda>db. \<forall>e0. old = Some e0 \<longrightarrow> recorded env e0 db"
  have stable_old: "stable D ?old" using stable_recorded unfolding stable_def by blast
  have ingress: "stmt_spec D ?old (upsert_ingress_source (we_server env) ?k)
      (\<lambda>src db. source_is ?k src db \<and> ?old db)"
    using spec_frame [OF spec_ingress_source stable_old] by (rule spec_conseq) auto
  let ?Q = "\<lambda>ev db. recorded env (ev_daemon_event_id ev) db
        \<and> (\<forall>e0. old = Some e0 \<longrightarrow> ev_daemon_event_id ev = e0 \<and> \<not> ev_inserted ev)"
  show ?thesis
    unfolding upsert_canonical_event_def Let_def
  proof (rule spec_andthen [OF ingress], rule spec_andthen [OF spec_lookup_event])
    fix src ex
    show "stmt_spec D (\<lambda>db. source_is ?k src db \<and> (case ex of None \<Rightarrow> old = None
         | Some e \<Rightarrow> e \<in> row_ids (db_daemon_event db) \<and> recorded env e db
             \<and> (\<forall>e0. old = Some e0 \<longrightarrow> e = e0)))
      (case ex of
          Some existing_id \<Rightarrow>
            andthen (upsert_receptor_matches pj existing_id attention routing)
              (\<lambda>_. ret \<lparr>ev_daemon_event_id = existing_id, ev_inserted = False\<rparr>)
        | None \<Rightarrow>
            andthen (insert_daemon_event pj src env attention) (\<lambda>event_id.
            andthen (insert_event_idempotency src ?key event_id) (\<lambda>_.
            andthen (upsert_receptor_matches pj event_id attention routing) (\<lambda>_.
            ret \<lparr>ev_daemon_event_id = event_id, ev_inserted = True\<rparr>)))) ?Q"
    proof (cases ex)
      case None
      then show ?thesis using spec_new_event [of D env src old] by simp
    next
      case (Some e)
      have "stmt_spec D (\<lambda>db. source_is ?k src db \<and> e \<in> row_ids (db_daemon_event db)
             \<and> recorded env e db \<and> (\<forall>e0. old = Some e0 \<longrightarrow> e = e0))
          (andthen (upsert_receptor_matches pj e attention routing)
              (\<lambda>_. ret \<lparr>ev_daemon_event_id = e, ev_inserted = False\<rparr>)) ?Q"
        by (rule spec_conseq [OF spec_existing_event]) auto
      with Some show ?thesis by simp
    qed
  qed
qed

section \<open>Sink targets and deliveries\<close>

definition target_is :: "string \<Rightarrow> int \<Rightarrow> database \<Rightarrow> bool" where
  "target_is key i db \<longleftrightarrow> (\<exists>r. row_at i (db_sink_target db) = Some r \<and> tg_sink_key r = key)"

definition delivery_is :: "int \<times> int \<Rightarrow> int \<Rightarrow> database \<Rightarrow> bool" where
  "delivery_is key i db \<longleftrightarrow>
     (\<exists>r. row_at i (db_sink_delivery db) = Some r \<and> sink_delivery_key r = key)"

definition delivered_at :: "int \<Rightarrow> database \<Rightarrow> bool" where
  "delivered_at i db \<longleftrightarrow>
     (\<exists>r. row_at i (db_sink_delivery db) = Some r \<and> sd_status r = ''delivered'')"

definition delivered_set :: "database \<Rightarrow> int set" where
  "delivered_set db = {d. delivered_at d db}"

lemma steady_delivery [intro]: "steady (target_is k i)" "steady (delivery_is key i)" "steady (delivered_at i)"
  by (simp_all add: steady_def target_is_def delivery_is_def delivered_at_def)

lemma select_row:
  assumes "ids_ok t" and "select_id P t = Some i"
  shows "\<exists>r. row_at i t = Some r \<and> P r"
  using assms by (auto simp: select_id_def row_at_iff dest!: find_SomeD)

lemma target_is_unique:
  assumes "db_ok db" and "target_is k i db" and "target_is k j db"
  shows "j = i"
  using assms target.key_unique [of "db_sink_target db"]
  unfolding target_is_def db_ok_def by blast

lemma delivery_is_unique:
  assumes "db_ok db" and "delivery_is k i db" and "delivery_is k j db"
  shows "j = i"
  using assms delivery.key_unique [of "db_sink_delivery db"]
  unfolding delivery_is_def db_ok_def by blast

lemma target_is_ids: "target_is k i db \<Longrightarrow> i \<in> row_ids (db_sink_target db)"
  by (auto simp: target_is_def row_ids_row_at)

lemma stable_target: "stable D (target_is k i)"
  by (fastforce simp: stable_def target_is_def db_ext_def grows_def same_key_def)

lemma stable_delivery: "stable D (delivery_is k i)"
  by (fastforce simp: stable_def delivery_is_def db_ext_def grows_def delivery_step_def)

lemma stable_delivered: "i \<notin> D \<Longrightarrow> stable D (delivered_at i)"
  by (fastforce simp: stable_def delivered_at_def db_ext_def grows_def delivery_step_def)

lemma spec_sink_target:
  "stmt_spec D (\<lambda>_. True) (upsert_sink_target snapshot) (target_is (sn_sink_key snapshot))"
  unfolding upsert_sink_target_def
proof (rule spec_andthen [where R = "\<lambda>_ _. True"], rule spec_pure, simp add: lift_def, simp,
    rule spec_andthen [where R = "\<lambda>_ _. True"], rule spec_execute [OF steady_const], intro conjI)
  fix db assume ok: "db_ok db"
  let ?r = "\<lparr>tg_sink_key = sn_sink_key snapshot, tg_sink_kind = sink_kind_as_str (sn_sink_kind snapshot),
            tg_destination = sn_destination snapshot, tg_config_json = sn_config_json snapshot,
            tg_disabled_at = None, tg_disabled_reason = None, tg_created_at = db_clock db,
            tg_updated_at = db_clock db\<rparr>"
  let ?t = "upsert tg_sink_key merge_sink_target ?r (db_sink_target db)"
  have t: "target.unique_ok ?t" using ok by (intro target.unique_upsert) (simp add: db_ok_def)
  have g: "grows (same_key tg_sink_key) (db_sink_target db) ?t"
    using ids_ok_tables(4) [OF ok]
    by (intro grows_upsert) (simp_all add: same_key_def merge_sink_target_def)
  show "db_ok (db\<lparr>db_sink_target := ?t\<rparr>)" "db_ext D db (db\<lparr>db_sink_target := ?t\<rparr>)"
    by (rule set_sink_target [OF ok t g])+
next
  show "stmt_spec D (\<lambda>_. True)
      (query_row (\<lambda>db. select_id (\<lambda>r. tg_sink_key r = sn_sink_key snapshot) (db_sink_target db)))
      (target_is (sn_sink_key snapshot))"
    using select_row [OF ids_ok_tables(4)]
    by (intro spec_reads) (auto dest!: query_row_fst simp: target_is_def)
qed simp

lemma merge_delivery_step: "delivery_step D i x (merge_sink_delivery x r)"
  using delivery.key_merge [of x r]
  by (simp add: delivery_step_def) (simp add: merge_sink_delivery_def Let_def)

lemma spec_sink_delivery:
  "stmt_spec D (\<lambda>db. e \<in> owned_events (db_event_idempotency db) \<and> tg \<in> row_ids (db_sink_target db))
     (upsert_sink_delivery e tg snapshot) (delivery_is (e, tg))"
  unfolding upsert_sink_delivery_def
proof (rule spec_andthen [where R = "\<lambda>_ _. True"], rule spec_execute [OF steady_conj [OF steady_ids(3,2)]], intro conjI)
  fix db
  assume ok: "db_ok db" and pre: "e \<in> owned_events (db_event_idempotency db) \<and> tg \<in> row_ids (db_sink_target db)"
  let ?r = "\<lparr>sd_daemon_event_id = e, sd_sink_target_id = tg,
            sd_sink_key_snapshot = sn_sink_key snapshot,
            sd_sink_kind_snapshot = sink_kind_as_str (sn_sink_kind snapshot),
            sd_destination_snapshot = sn_destination snapshot,
            sd_config_json_snapshot = sn_config_json snapshot, sd_status = ''queued'',
            sd_queued_at = db_clock db, sd_attempted_at = None, sd_delivered_at = None,
            sd_failed_at = None, sd_skipped_at = None, sd_error = None\<rparr>"
  let ?t = "upsert sink_delivery_key merge_sink_delivery ?r (db_sink_delivery db)"
  have t: "delivery.unique_ok ?t" using ok by (intro delivery.unique_upsert) (simp add: db_ok_def)
  have g: "grows (delivery_step D) (db_sink_delivery db) ?t"
    using ids_ok_tables(5) [OF ok] by (intro grows_upsert) (simp_all add: merge_delivery_step)
  have "refs sd_daemon_event_id ?t (row_ids (db_daemon_event db))"
    "refs sd_daemon_event_id ?t (owned_events (db_event_idempotency db))"
    "refs sd_sink_target_id ?t (row_ids (db_sink_target db))"
    using ok pre owned_events_exist [OF ok] by (auto intro!: refs_upsert simp: db_ok_def merge_sink_delivery_def Let_def)
  note set = set_sink_delivery [OF ok t g this]
  show "db_ok (db\<lparr>db_sink_delivery := ?t\<rparr>)" "db_ext D db (db\<lparr>db_sink_delivery := ?t\<rparr>)"
    by (rule set)+
next
  show "stmt_spec D (\<lambda>_. True)
      (query_row (\<lambda>db. select_id (\<lambda>r. sink_delivery_key r = (e, tg)) (db_sink_delivery db)))
      (delivery_is (e, tg))"
    using select_row [OF ids_ok_tables(5)]
    by (intro spec_reads) (auto dest!: query_row_fst simp: delivery_is_def)
qed simp

lemma spec_update_delivery:
  assumes "\<And>now r. sink_delivery_key (f now r) = sink_delivery_key r"
    and "i \<in> D \<or> (\<forall>now r. sd_status (f now r) = ''delivered'')"
  shows "stmt_spec D (\<lambda>_. True) (update_delivery i f) (\<lambda>_ _. True)"
  unfolding update_delivery_def
proof (rule spec_execute [OF steady_const], intro conjI)
  fix db assume ok: "db_ok db"
  let ?t = "update_where (\<lambda>j _. j = i) (f (db_clock db)) (db_sink_delivery db)"
  have keys: "sd_daemon_event_id (f now r) = sd_daemon_event_id r"
    "sd_sink_target_id (f now r) = sd_sink_target_id r" for now r
    using assms(1) [of now r] by (simp_all add: sink_delivery_key_def)
  have t: "delivery.unique_ok ?t"
    using ok assms(1) by (intro delivery.unique_update) (simp_all add: db_ok_def)
  have g: "grows (delivery_step D) (db_sink_delivery db) ?t"
    using assms by (intro grows_update) (auto simp: delivery_step_def)
  have "refs sd_daemon_event_id ?t (row_ids (db_daemon_event db))"
    "refs sd_daemon_event_id ?t (owned_events (db_event_idempotency db))"
    "refs sd_sink_target_id ?t (row_ids (db_sink_target db))"
    using ok by (auto intro!: refs_update simp: db_ok_def keys)
  note set = set_sink_delivery [OF ok t g this]
  show "db_ok (db\<lparr>db_sink_delivery := ?t\<rparr>)" "db_ext D db (db\<lparr>db_sink_delivery := ?t\<rparr>)"
    by (rule set)+
qed simp

lemma spec_update_target:
  assumes "\<And>now r. tg_sink_key (f now r) = tg_sink_key r"
  shows "stmt_spec D (\<lambda>_. True) (update_target P f) (\<lambda>_ _. True)"
  unfolding update_target_def
proof (rule spec_execute [OF steady_const], intro conjI)
  fix db assume ok: "db_ok db"
  let ?t = "update_where P (f (db_clock db)) (db_sink_target db)"
  have t: "target.unique_ok ?t"
    using ok assms by (intro target.unique_update) (simp_all add: db_ok_def)
  have g: "grows (same_key tg_sink_key) (db_sink_target db) ?t"
    using assms by (intro grows_update) (auto simp: same_key_def)
  show "db_ok (db\<lparr>db_sink_target := ?t\<rparr>)" "db_ext D db (db\<lparr>db_sink_target := ?t\<rparr>)"
    by (rule set_sink_target [OF ok t g])+
qed simp

section \<open>Schema and connection\<close>

lemma add_event_column_spec:
  assumes "db_ok db"
  shows "db_ok (add_event_column c db) \<and> db_ext D db (add_event_column c db)"
proof -
  let ?f = "\<lambda>e. if c = ''attention_disposition'' then e\<lparr>de_attention_disposition := ''deliver''\<rparr>
               else e\<lparr>de_attention_delivery_mode := ''unknown_legacy''\<rparr>"
  let ?t = "update_where (\<lambda>_ _. True) ?f (db_daemon_event db)"
  have "ids_ok ?t" using ids_ok_tables(2) [OF assms] by (rule ids_ok_update)
  moreover have "grows (\<lambda>_ _ _. True) (db_daemon_event db) ?t" by (rule grows_update) simp_all
  moreover have "refs de_ingress_source_id ?t (row_ids (db_ingress_source db))"
    using assms by (intro refs_update) (simp_all add: db_ok_def)
  ultimately have "db_ok (db\<lparr>db_daemon_event := ?t\<rparr>)" "db_ext D db (db\<lparr>db_daemon_event := ?t\<rparr>)"
    using set_daemon_event [OF assms] by blast+
  then show ?thesis by (simp add: add_event_column_def db_ok_def db_ext_def)
qed

lemma spec_create_table: "stmt_spec D (\<lambda>_. True) (create_table t) (\<lambda>_ _. True)"
  unfolding create_table_def
proof (rule spec_execute [OF steady_const])
  fix db assume "db_ok db"
  moreover have "db_ok (db\<lparr>db_tables := ts, db_event_columns := cs\<rparr>) = db_ok db"
    "db_ext D db (db\<lparr>db_tables := ts, db_event_columns := cs\<rparr>)" for ts cs
    by (simp_all add: db_ok_def db_ext_def grows_refl)
  ultimately show "db_ok (if t \<in> set (db_tables db) then db
     else db\<lparr>db_tables := db_tables db @ [t],
             db_event_columns := (if t = ''daemon_event'' then daemon_event_schema_columns else db_event_columns db)\<rparr>)
    \<and> db_ext D db (if t \<in> set (db_tables db) then db
     else db\<lparr>db_tables := db_tables db @ [t],
             db_event_columns := (if t = ''daemon_event'' then daemon_event_schema_columns else db_event_columns db)\<rparr>)
    \<and> True"
    by (simp add: db_ext_refl)
qed

lemma spec_True: "reads m \<Longrightarrow> stmt_spec D (\<lambda>_. True) m (\<lambda>_ _. True)"
  by (rule spec_reads) auto

lemma spec_if: "stmt_spec D P a Q \<Longrightarrow> stmt_spec D P b Q \<Longrightarrow> stmt_spec D P (if c then a else b) Q"
  by simp

lemma spec_columns: "stmt_spec D (\<lambda>_. True) (ensure_daemon_event_columns auto_migrate) (\<lambda>_ _. True)"
  unfolding ensure_daemon_event_columns_def
proof (rule spec_andthen [OF spec_True])
  have "stmt_spec D (\<lambda>_. True) (execute (add_event_column c)) (\<lambda>_ _. True)" for c
    by (rule spec_execute) (auto simp: add_event_column_spec)
  then have "stmt_spec D (\<lambda>_. True) (for_each (\<lambda>c. execute (add_event_column c)) cs) (\<lambda>_ _. True)" for cs
    by (rule spec_for_each)
  then show "stmt_spec D (\<lambda>_. True) (let missing = missing_event_columns columns
     in if missing = [] then ret ()
        else if \<not> auto_migrate
        then fail (''storage.auto_migrate is false and daemon_event is missing columns: '' @ join '', '' missing)
        else for_each (\<lambda>column. execute (add_event_column column)) missing) (\<lambda>_ _. True)" for columns
    unfolding Let_def using spec_True [OF reads_pure(2)] spec_True [OF reads_pure(1)] by (intro spec_if)
qed auto

lemma spec_create_schema: "stmt_spec D (\<lambda>_. True) create_schema (\<lambda>_ _. True)"
  unfolding create_schema_def
  by (rule spec_andthen [OF spec_for_each [OF spec_create_table]], rule spec_for_each, rule spec_True) auto

lemma spec_ensure_schema: "stmt_spec D (\<lambda>_. True) (ensure_schema auto_migrate) (\<lambda>_ _. True)"
  unfolding ensure_schema_def
  by (intro spec_andthen [where R = "\<lambda>_ _. True"] spec_if spec_create_schema spec_columns spec_True reads_schema
      reads_pure)

lemma spec_with_schema:
  assumes "stmt_spec D S m Q" and "stable D S"
  shows "stmt_spec D S (with_connection (andthen (ensure_schema auto_migrate) (\<lambda>_. m))) Q"
  unfolding with_connection_def
proof (rule spec_andthen [where R = "\<lambda>_. S"])
  show "stmt_spec D S access (\<lambda>_. S)"
    using spec_frame [OF spec_True [OF reads_access] assms(2)] by (rule spec_conseq) simp_all
  have "stmt_spec D S (ensure_schema auto_migrate) (\<lambda>_. S)"
    using spec_frame [OF spec_ensure_schema assms(2)] by (rule spec_conseq) simp_all
  then show "stmt_spec D S (andthen (ensure_schema auto_migrate) (\<lambda>_. m)) Q"
    using assms(1) by (rule spec_andthen)
qed

end
