(* ===== verification/Cli_Properties.thy ===== *)
theory Cli_Properties
  imports Cli Supervisor_Properties Gateway_Client_Properties Storage_Invariant
begin

text \<open>
  A running daemon owns the state directory: what a second daemon and the setup command do beside
  it. The evaluation command predicts what the daemon does with a message.
\<close>

section \<open>The lock during the start\<close>

definition holds :: "string \<Rightarrow> boot_world \<Rightarrow> bool" where
  "holds path w \<longleftrightarrow> path \<in> lk_held (bo_lock w)"

lemma on_boot_host_holds: "keeps (holds path) (on_boot_host m)"
  by (auto simp: keeps_def holds_def on_boot_host_def on_lock_def split: prod.splits)

lemma prepare_store_holds: "keeps (holds path) (prepare_store bt config hooks)"
  by (auto simp: keeps_def holds_def prepare_store_def Let_def split: prod.splits sum.splits)

lemma boot_tasks_holds: "keeps (holds path) (boot_tasks bt config)"
  unfolding boot_tasks_def Let_def case_prod_unfold
  by (intro keeps_andthen on_boot_host_holds prepare_store_holds) (simp add: keeps_def)

lemma boot_holds:
  assumes "boot bt config w = (Inr d, w')"
  shows "holds (ap_state_lock_path (cf_paths config)) w'"
proof -
  let ?path = "ap_state_lock_path (cf_paths config)"
  from assms obtain l where l: "acquire ?path (bo_lock w) = (Inr (), l)"
    and tasks: "boot_tasks bt config (w\<lparr>bo_lock := l\<rparr>) = (Inr d, w')"
    by (auto simp: boot_def andthen_Inr_iff on_lock_def Let_def split: prod.splits sum.splits)
  have "holds ?path (w\<lparr>bo_lock := l\<rparr>)" using acquire_free(2) [OF l] by (simp add: holds_def)
  from keepsD [OF boot_tasks_holds this, of bt config] tasks show ?thesis by simp
qed

lemma boot_refused:
  assumes held: "ap_state_lock_path (cf_paths config) \<in> lk_held (bo_lock w)"
    and run: "boot bt config w = (r, w')"
  shows "\<not> is_ok r" "bo_db w' = bo_db w" "bo_runs w' = bo_runs w" "lk_held (bo_lock w') = lk_held (bo_lock w)"
    "ho_fs (lk_host (bo_lock w)) p \<noteq> None \<Longrightarrow> ho_fs (lk_host (bo_lock w')) p = ho_fs (lk_host (bo_lock w)) p"
proof -
  obtain e where e: "fst (acquire (ap_state_lock_path (cf_paths config)) (bo_lock w)) = Inl e"
    using acquire_held(1) [OF held] by (cases "fst (acquire (ap_state_lock_path (cf_paths config)) (bo_lock w))") simp_all
  with run have "r = Inl e" "w' = w\<lparr>bo_lock := snd (acquire (ap_state_lock_path (cf_paths config)) (bo_lock w))\<rparr>"
    by (auto simp: boot_def andthen_def on_lock_def Let_def split: prod.splits)
  then show "\<not> is_ok r" "bo_db w' = bo_db w" "bo_runs w' = bo_runs w" "lk_held (bo_lock w') = lk_held (bo_lock w)"
    "ho_fs (lk_host (bo_lock w)) p \<noteq> None \<Longrightarrow> ho_fs (lk_host (bo_lock w')) p = ho_fs (lk_host (bo_lock w)) p"
    using acquire_held [OF held] by simp_all
qed

section \<open>The setup command\<close>

text \<open>The files that exist, the locks and the requests to servers are as before.\<close>

definition untouched :: "cli_world \<Rightarrow> cli_world \<Rightarrow> bool" where
  "untouched w w' \<longleftrightarrow>
     cw_http w' = cw_http w \<and> lk_held (cw_lock w') = lk_held (cw_lock w)
     \<and> (\<forall>p. ho_fs (lk_host (cw_lock w)) p \<noteq> None \<longrightarrow>
          ho_fs (lk_host (cw_lock w')) p = ho_fs (lk_host (cw_lock w)) p)"

lemma untouched_refl: "untouched w w"
  by (simp add: untouched_def)

lemma untouched_same: "cw_http w' = cw_http w \<Longrightarrow> cw_lock w' = cw_lock w \<Longrightarrow> untouched w w'"
  by (simp add: untouched_def)

lemma print_lines_same: "cw_http (fold print_line ls w) = cw_http w" "cw_lock (fold print_line ls w) = cw_lock w"
  by (induction ls arbitrary: w) (simp_all add: print_line_def)

lemma setup_name_same:
  "cw_http (snd (setup_name env tm args name w)) = cw_http w" "cw_lock (snd (setup_name env tm args name w)) = cw_lock w"
  by (auto simp: setup_name_def andthen_def prompt_with_default_def print_line_def ret_def
      split: option.splits sum.splits)

lemma setup_locked_held:
  assumes held: "ap_state_lock_path paths \<in> lk_held (cw_lock w)"
  shows "untouched w (snd (setup_locked env cl paths request w))"
    and "fst (setup_locked env cl paths request w) = Inr result \<Longrightarrow>
      setup_via_socket cl (ap_socket_path paths) request = Inr result"
proof -
  let ?path = "ap_state_lock_path paths"
  obtain r l where run: "try_acquire ?path (cw_lock w) = (r, l)" by fastforce
  with try_acquire_held [OF held] have r: "r \<noteq> Inr True"
    and l: "lk_held l = lk_held (cw_lock w)" "ho_fs (lk_host (cw_lock w)) p \<noteq> None \<Longrightarrow> ho_fs (lk_host l) p = ho_fs (lk_host (cw_lock w)) p" for p
    by (auto simp: prod_eq_iff)
  from l have "untouched w (w\<lparr>cw_lock := l\<rparr>)" by (simp add: untouched_def)
  with r run show "untouched w (snd (setup_locked env cl paths request w))"
    by (auto simp: setup_locked_def andthen_def on_cli_lock_def lift_def split: sum.splits)
  show "fst (setup_locked env cl paths request w) = Inr result \<Longrightarrow>
      setup_via_socket cl (ap_socket_path paths) request = Inr result"
    using r run by (auto simp: setup_locked_def andthen_def on_cli_lock_def lift_def split: sum.splits)
qed

lemma untouched_trans: "untouched w w1 \<Longrightarrow> untouched w1 w2 \<Longrightarrow> untouched w w2"
  unfolding untouched_def by metis

lemma setup_name_keeps: "keeps (untouched w) (setup_name env tm args name)"
  by (rule keepsI, erule untouched_trans, rule untouched_same) (simp_all add: setup_name_same)

lemma setup_locked_keeps:
  assumes "ap_state_lock_path paths \<in> lk_held (cw_lock w)"
  shows "keeps (untouched w) (setup_locked env cl paths request)"
proof (rule keepsI)
  fix w1
  assume w1: "untouched w w1"
  then have "ap_state_lock_path paths \<in> lk_held (cw_lock w1)" using assms by (simp add: untouched_def)
  from untouched_trans [OF w1 setup_locked_held(1) [OF this]]
  show "untouched w (snd (setup_locked env cl paths request w1))" .
qed

lemma print_keeps: "keeps (untouched w) (\<lambda>w'. (Inr x, fold print_line (ls w') w'))"
  by (rule keepsI, erule untouched_trans, rule untouched_same) (simp_all add: print_lines_same)

lemma andthen_lift: "andthen (lift (Inr x)) f = f x"
  by (simp add: andthen_def lift_def fun_eq_iff)

lemma setup_server_held:
  assumes paths: "derive_app_paths (sp_config env) (default_config_path (sp_config env)) None = Inr paths"
    and held: "ap_state_lock_path paths \<in> lk_held (cw_lock w)"
  shows "untouched w (snd (setup_server env cl tm args w))"
proof -
  have ce: "default_config_path (config_at env h) = default_config_path (sp_config env)" for h
    by (simp add: default_config_path_def config_at_def)
  show ?thesis
    unfolding setup_server_def Let_def ce fs_free paths andthen_lift
    by (rule keepsD [where P = "untouched w", OF _ untouched_refl])
      (intro keeps_andthen keeps_basic setup_name_keeps setup_locked_keeps [OF held] print_keeps)
qed

section \<open>The evaluation command\<close>

text \<open>
  What \<open>eval-attention\<close> prints is what a manager of the same server decides about a message with
  the embeddings of the file: a manager started on the files and the settings the command has read
  evaluates with the same layer.
\<close>

theorem eval_attention_predicts:
  assumes run: "eval_attention env parse args h = (Inr (res, veto), h')"
  shows "\<exists>config server embeddings.
    config_load (config_at env h) (ae_config args) = Inr config
    \<and> server \<in> set (cf_servers config) \<and> ae_server args \<in> {sv_base_url server, sv_server_key server}
    \<and> load_eval_embeddings parse (ho_fs h') (ae_embedding_json args) = Inr embeddings
    \<and> (\<forall>dir rt. lv_attention rt = cf_attention config \<longrightarrow>
        (\<exists>m. omap_get (lv_server_handles (spawn_server_manager env h' server dir rt)) (sv_base_url server) = Some m
          \<and> res = evaluate (mn_attention m) embeddings \<and> veto = veto_enforcement_state (mn_attention m)))"
proof -
  from run obtain config where config: "config_load (config_at env h) (ae_config args) = Inr config"
    and logs: "init_logging (ap_log_file (cf_paths config)) h = (Inr (), h')"
    by (auto simp: eval_attention_def andthen_Inr_iff lift_def)
  from run config logs obtain server embeddings where
    server: "find (\<lambda>server. sv_base_url server = ae_server args \<or> sv_server_key server = ae_server args)
      (cf_servers config) = Some server"
    and embeddings: "load_eval_embeddings parse (ho_fs h') (ae_embedding_json args) = Inr embeddings"
    and res: "evaluate (attention_new ((sp_attention env)\<lparr>env_fs := ho_fs h'\<rparr>)
        ((cf_attention config)\<lparr>ac_local_pack_paths :=
           effective_local_pack_paths server (ac_local_pack_paths (cf_attention config))\<rparr>)) embeddings = res"
      "veto_enforcement_state (attention_new ((sp_attention env)\<lparr>env_fs := ho_fs h'\<rparr>)
        ((cf_attention config)\<lparr>ac_local_pack_paths :=
           effective_local_pack_paths server (ac_local_pack_paths (cf_attention config))\<rparr>)) = veto"
    by (auto simp: eval_attention_def andthen_def lift_def ok_or_def Let_def rbind_Inr_iff split: option.splits)
  have "server \<in> set (cf_servers config)" "ae_server args \<in> {sv_base_url server, sv_server_key server}"
    using server by (auto simp: find_Some_iff)
  with config embeddings res show ?thesis
    by (auto simp: spawn_server_manager_def Let_def omap.get_ins)
qed

section \<open>Properties\<close>

text \<open>
  Claim C12. A running daemon owns its state directory. Once a daemon has started, with the lock table
  it leaves: a second start on the same state directory fails and changes neither the database, the
  locks nor any existing file, and runs no hook; and the setup command changes no existing file and
  sends no request to a server, so that it acts only through the socket of the daemon.
\<close>

theorem running_daemon_owns_state:
  assumes first: "boot bt config w = (Inr d, w1)"
    and second: "ap_state_lock_path (cf_paths config') = ap_state_lock_path (cf_paths config)"
      "boot bt' config' w1 = (r, w2)"
    and paths: "derive_app_paths (sp_config env) (default_config_path (sp_config env)) None = Inr paths"
      "ap_state_lock_path paths = ap_state_lock_path (cf_paths config)"
    and beside: "cw_lock c = bo_lock w1"
  shows "\<not> is_ok r \<and> bo_db w2 = bo_db w1 \<and> bo_runs w2 = bo_runs w1
    \<and> lk_held (bo_lock w2) = lk_held (bo_lock w1)
    \<and> (\<forall>p. ho_fs (lk_host (bo_lock w1)) p \<noteq> None \<longrightarrow>
         ho_fs (lk_host (bo_lock w2)) p = ho_fs (lk_host (bo_lock w1)) p)
    \<and> untouched c (snd (setup_server env cl tm args c))"
proof -
  have held: "ap_state_lock_path (cf_paths config) \<in> lk_held (bo_lock w1)"
    using boot_holds [OF first] by (simp add: holds_def)
  then have "untouched c (snd (setup_server env cl tm args c))"
    by (intro setup_server_held [OF paths(1)]) (simp add: paths(2) beside)
  with boot_refused [OF _ second(2)] held show ?thesis by (simp add: second(1))
qed

section \<open>A socket that was left behind\<close>

text \<open>
  A file that a killed daemon left at the path of the socket does not keep the next one from
  listening, as long as it can be removed.
\<close>

theorem stale_socket_replaced:
  assumes "\<not> fs_is_dir (ho_fs h) path" and "so_remove so path = Inr ()" "so_bind so path = Inr ()"
    and "ho_mkdir h = (\<lambda>_. Inr ())" "ho_chmod h path = Inr ()"
  shows "\<exists>h'. open_listener so path h = (Inr (), h') \<and> fs_exists (ho_fs h') path"
proof -
  have missing: "ho_fs (snd (create_parent path h)) path = ho_fs h path"
    by (cases "path_parent path") (auto simp: create_parent_def assms(4) dest: parent_not_descendant)
  have parent: "fst (create_parent path h) = Inr ()" "ho_chmod (snd (create_parent path h)) = ho_chmod h"
    by (cases "path_parent path"; simp add: create_parent_def assms(4))+
  show ?thesis
    using assms missing parent
    by (cases "create_parent path h")
      (auto simp: open_listener_def andthen_def remove_file_def bind_socket_def set_permissions_def
        fs_exists_def fs_is_dir_def)
qed

text \<open>A start on an empty host.\<close>

definition willing :: "host \<Rightarrow> bool" where
  "willing h \<longleftrightarrow> ho_write h = (\<lambda>_. Inr ()) \<and> ho_mkdir h = (\<lambda>_. Inr ()) \<and> ho_chmod h = (\<lambda>_. Inr ())"

lemma create_parent_willing: "willing h \<Longrightarrow> \<exists>fs. create_parent path h = (Inr (), h\<lparr>ho_fs := fs\<rparr>)"
  by (cases "path_parent path") (auto simp: create_parent_def willing_def intro: exI [of _ "ho_fs h"])

lemma fresh_device_willing:
  assumes "willing h" and "\<not> fs_exists (ho_fs h) priv"
  shows "\<exists>d h'. load_or_create_device demo_gateway_lib fresh priv pub h = (Inr d, h')"
proof -
  obtain fs1 where 1: "create_parent priv h = (Inr (), h\<lparr>ho_fs := fs1\<rparr>)" using create_parent_willing assms(1) by blast
  have "willing (h\<lparr>ho_fs := fs1\<rparr>)" using assms(1) by (simp add: willing_def)
  then obtain fs2 where 2: "create_parent pub (h\<lparr>ho_fs := fs1\<rparr>) = (Inr (), h\<lparr>ho_fs := fs2\<rparr>)"
    using create_parent_willing by fastforce
  show ?thesis
    using assms
    by (simp add: load_or_create_device_def andthen_def lift_def ret_def 1 2 fs_write_def willing_def
        set_permissions_def demo_gateway_lib_def)
qed

definition demo_app_paths :: AppPaths where
  "demo_app_paths = (case derive_app_paths demo_config_env (default_config_path demo_config_env) None of
     Inr p \<Rightarrow> p | Inl _ \<Rightarrow> demo_paths)"

definition demo_boot_config :: Config where
  "demo_boot_config = (demo_daemon_config None)\<lparr>cf_paths := demo_app_paths, cf_sinks := []\<rparr>"

definition demo_boot_env :: boot_env where
  "demo_boot_env =
     \<lparr>bt_setup = demo_setup_env, bt_gateway = demo_gateway_env None, bt_fresh_device = demo_key,
      bt_exe = None, bt_print_event = (\<lambda>_. Inr []), bt_clock = (\<lambda>_. 0)\<rparr>"

definition demo_boot_world :: boot_world where
  "demo_boot_world =
     \<lparr>bo_lock = \<lparr>lk_host = demo_host, lk_held = {}, lk_fault = (\<lambda>_. None)\<rparr>, bo_db = fresh_database (\<lambda>_. None) (\<lambda>_. ''now''), bo_runs = []\<rparr>"

definition demo_client_env :: client_env where
  "demo_client_env =
     \<lparr>cl_connect = (\<lambda>_. Inr ()), cl_exchange = (\<lambda>_ _. Inl ''closed''), cl_print_setup = (\<lambda>_. []),
      cl_print_json = (\<lambda>_. []), cl_parse_setup_result = (\<lambda>_. Inl ''syntax''),
      cl_parse_response = (\<lambda>_. Inl ''syntax''), cl_status_text = (\<lambda>_. []), cl_lossy = (\<lambda>s. s), cl_uuid = ''u''\<rparr>"

lemma demo_boot_paths:
  "derive_app_paths demo_config_env (default_config_path demo_config_env) None = Inr demo_app_paths"
  "ap_root demo_app_paths = ''/h/.openclaw/subspace-daemon''"
  "ap_gateway_private_key_path demo_app_paths = ''/h/.openclaw/subspace-daemon/device/private.pem''"
  "ap_state_lock_path demo_app_paths = ''/h/.openclaw/subspace-daemon/state.lock''"
  "path_parent (ap_state_lock_path demo_app_paths) = Some ''/h/.openclaw/subspace-daemon''"
  "path_parent (ap_log_file demo_app_paths) = Some ''/h/.openclaw/subspace-daemon/logs''"
  by code_simp+

lemma ancestors_shorter: "length d < length q \<Longrightarrow> q \<notin> set (ancestor_paths d)"
  using prefix_length_le by (fastforce simp: ancestor_paths_def)

text \<open>A host without the key file that lets everything be written.\<close>

definition empty_of :: "string \<Rightarrow> host \<Rightarrow> bool" where
  "empty_of priv h \<longleftrightarrow> willing h \<and> ho_fs h priv = None"

lemma empty_of_create_dir:
  "empty_of priv h \<Longrightarrow> length d < length priv \<Longrightarrow> \<exists>h'. create_dir_all d h = (Inr (), h') \<and> empty_of priv h'"
  by (simp add: create_dir_all_def empty_of_def willing_def ancestors_shorter)

lemma empty_of_create_parent:
  "empty_of priv h \<Longrightarrow> path_parent p = Some d \<Longrightarrow> length d < length priv \<Longrightarrow>
     \<exists>h'. create_parent p h = (Inr (), h') \<and> empty_of priv h'"
  by (simp add: create_parent_def empty_of_def willing_def ancestors_shorter)

lemma empty_of_acquire:
  assumes "empty_of priv (lk_host l)" and "path_parent p = Some d" "length d < length priv" "priv \<noteq> p"
    and "p \<notin> lk_held l" "lk_fault l = (\<lambda>_. None)"
  shows "\<exists>l'. acquire p l = (Inr (), l') \<and> empty_of priv (lk_host l')"
proof -
  obtain h where h: "create_parent p (lk_host l) = (Inr (), h)" "empty_of priv h"
    using empty_of_create_parent [OF assms(1-3)] by blast
  then have "\<exists>h'. open_or_create p h = (Inr (), h') \<and> empty_of priv h'"
    using assms(4) by (auto simp: open_or_create_def empty_of_def willing_def)
  with h show ?thesis
    using assms(5,6) by (auto simp: acquire_def open_lock_file_def andthen_def try_lock_exclusive_def Let_def)
qed

lemma demo_boot_run: "\<exists>d w. boot demo_boot_env demo_boot_config demo_boot_world = (Inr d, w)"
proof -
  let ?priv = "''/h/.openclaw/subspace-daemon/device/private.pem''"
  have cfg: "cf_paths demo_boot_config = demo_app_paths" "cf_sinks demo_boot_config = []"
    by (simp_all add: demo_boot_config_def)
  have env: "bt_exe demo_boot_env = None" by (simp add: demo_boot_env_def)
  have start: "lk_host (bo_lock demo_boot_world) = demo_host" "lk_held (bo_lock demo_boot_world) = {}"
    "lk_fault (bo_lock demo_boot_world) = (\<lambda>_. None)"
    by (simp_all add: demo_boot_world_def)
  have "empty_of ?priv (lk_host (bo_lock demo_boot_world))"
    unfolding start by (simp add: empty_of_def willing_def demo_host_def)
  from empty_of_acquire [OF this demo_boot_paths(5)] obtain l where
    l: "acquire (ap_state_lock_path demo_app_paths) (bo_lock demo_boot_world) = (Inr (), l)"
    and e1: "empty_of ?priv (lk_host l)" by (auto simp: start demo_boot_paths(4))
  from empty_of_create_dir [OF e1, of "ap_root demo_app_paths"] obtain h2 where
    h2: "create_dir_all (ap_root demo_app_paths) (lk_host l) = (Inr (), h2)" and e2: "empty_of ?priv h2"
    by (auto simp: demo_boot_paths(2))
  from empty_of_create_parent [OF e2 demo_boot_paths(6)] obtain h3 where
    h3: "create_parent (ap_log_file demo_app_paths) h2 = (Inr (), h3)" and e3: "empty_of ?priv h3" by auto
  have gv: "gv_lib ((bt_gateway demo_boot_env)\<lparr>gv_config := demo_boot_config\<rparr>) = demo_gateway_lib"
    by (simp add: demo_boot_env_def demo_gateway_env_def)
  have "willing h3" "\<not> fs_exists (ho_fs h3) ?priv" using e3 by (simp_all add: empty_of_def fs_exists_def)
  from fresh_device_willing [OF this, of "bt_fresh_device demo_boot_env" "ap_gateway_public_key_path demo_app_paths"]
  obtain d h4 where
    h4: "load_or_create_device demo_gateway_lib (bt_fresh_device demo_boot_env) ?priv
       (ap_gateway_public_key_path demo_app_paths) h3 = (Inr d, h4)"
    by blast
  show ?thesis
    using l h2 h3 h4
    by (simp add: boot_def boot_tasks_def Let_def andthen_def on_lock_def on_boot_host_def cfg env
        write_plist_def prepare_store_def start_gateway_client_def gv demo_boot_paths(3))
qed

theorem running_daemon_owns_state_witness:
  "\<exists>d w r w2. boot demo_boot_env demo_boot_config demo_boot_world = (Inr d, w)
     \<and> boot demo_boot_env demo_boot_config w = (r, w2) \<and> \<not> is_ok r
     \<and> untouched \<lparr>cw_lock = bo_lock w, cw_http = sw_http demo_setup_world, cw_out = []\<rparr>
         (snd (setup_server demo_setup_env demo_client_env \<lparr>tm_flush = Inr (), tm_line = Inr []\<rparr>
            \<lparr>ag_url = ''https://a.b'', ag_name = None, ag_identity = None\<rparr>
            \<lparr>cw_lock = bo_lock w, cw_http = sw_http demo_setup_world, cw_out = []\<rparr>))"
proof -
  from demo_boot_run obtain d w where first: "boot demo_boot_env demo_boot_config demo_boot_world = (Inr d, w)" by blast
  obtain r w2 where second: "boot demo_boot_env demo_boot_config w = (r, w2)" by fastforce
  have paths: "derive_app_paths (sp_config demo_setup_env) (default_config_path (sp_config demo_setup_env)) None = Inr demo_app_paths"
    "ap_state_lock_path demo_app_paths = ap_state_lock_path (cf_paths demo_boot_config)"
    by (simp_all add: demo_setup_env_def demo_boot_paths(1) demo_boot_config_def)
  let ?c = "\<lparr>cw_lock = bo_lock w, cw_http = sw_http demo_setup_world, cw_out = []\<rparr>"
  have beside: "cw_lock ?c = bo_lock w" by simp
  show ?thesis
    using first second running_daemon_owns_state [OF first refl second paths beside] by blast
qed

end
