(* ===== verification/Ipc_Properties.thy ===== *)
theory Ipc_Properties
  imports Ipc Setup_Properties
begin

text \<open>
  What the answer to a send request says about the commands given to the managers.
\<close>

section \<open>Targets\<close>

lemma status_urls:
  assumes "status_ok status"
  shows "map sh_server (servers_snapshot status) = map fst (st_servers status)"
    and "distinct (map sh_server (servers_snapshot status))"
proof -
  have "sh_server s = url" if "(url, s) \<in> set (st_servers status)" for url s
    using assms that by (auto simp: status_ok_def omap_get_in_set)
  then show *: "map sh_server (servers_snapshot status) = map fst (st_servers status)"
    by (auto simp: servers_snapshot_def omap_values_def)
  show "distinct (map sh_server (servers_snapshot status))"
    unfolding * using assms by (simp add: status_ok_def omap_ok_distinct)
qed

definition live_urls :: "DaemonStatus \<Rightarrow> string list" where
  "live_urls status = map sh_server (filter (\<lambda>s. sh_subspace_state s = ''live'') (servers_snapshot status))"

lemma live_urls_set:
  assumes "status_ok status"
  shows "set (live_urls status) = {url. server_state url status = Some ''live''}"
proof -
  have "url \<in> set (live_urls status) \<longleftrightarrow>
      (\<exists>s. omap_get (st_servers status) url = Some s \<and> sh_subspace_state s = ''live'')" for url
  proof -
    have mem: "s \<in> set (servers_snapshot status) \<longleftrightarrow> omap_get (st_servers status) (sh_server s) = Some s" for s
      using assms by (auto simp: servers_snapshot_def omap_values_set status_ok_def)
    show ?thesis
      using assms by (auto simp: live_urls_def mem status_ok_def image_iff)
  qed
  then show ?thesis by (auto simp: server_state_def)
qed

lemma live_urls_distinct: "status_ok status \<Longrightarrow> distinct (live_urls status)"
  unfolding live_urls_def by (rule distinct_map_filter) (rule status_urls(2))

section \<open>The loop over the targets\<close>

text \<open>
  One command per target, in order: the managers, the commands with a reply channel of their own, and
  a result per target made from what became of its command.
\<close>

definition sent_to :: "(nat \<Rightarrow> send_fate) \<Rightarrow> SendRequest \<Rightarrow> string list \<Rightarrow> send_log \<Rightarrow> send_log
    \<Rightarrow> ServerSendResultEnvelope list \<Rightarrow> bool" where
  "sent_to fate payload targets sent sent' results \<longleftrightarrow>
     (\<exists>new. sent' = sent @ new
        \<and> map (\<lambda>(m, c). sv_base_url (mn_server m)) new = targets
        \<and> map (\<lambda>(m, c). sm_reply c) new = [length sent..<length sent + length targets]
        \<and> (\<forall>(m, c)\<in>set new. sm_text c = sd_text payload
             \<and> sm_idempotency_key c = sd_idempotency_key payload
             \<and> oe_embeddings (sm_embedding_request c) = sd_embeddings payload
             \<and> oe_generate_for_spaces (sm_embedding_request c) = sd_generate_for_spaces payload
             \<and> oe_generated_embeddings_override_supplied (sm_embedding_request c)
                 = sd_generated_embeddings_override_supplied payload)
        \<and> results = map (\<lambda>(n, t). envelope t (sd_idempotency_key payload) (send_message (fate n)))
            (enumerate (length sent) targets))"

lemma router_loop_run:
  assumes "\<forall>t\<in>set targets. \<exists>m. omap_get handles t = Some m"
  shows "router_loop fate command handles targets results sent =
    (Inr (results @ map (\<lambda>(n, t). envelope t (sm_idempotency_key (command n)) (send_message (fate n)))
       (enumerate (length sent) targets)),
     sent @ map (\<lambda>(n, t). (the (omap_get handles t), command n)) (enumerate (length sent) targets))"
  using assms
proof (induction targets arbitrary: results sent)
  case (Cons t targets)
  then obtain m where "omap_get handles t = Some m" by auto
  with Cons show ?case by (simp add: Let_def)
qed simp

section \<open>The router\<close>

definition targets_of :: "config_env \<Rightarrow> DaemonStatus \<Rightarrow> string option \<Rightarrow> string list \<Rightarrow> bool" where
  "targets_of ce status server targets \<longleftrightarrow>
     targets \<noteq> [] \<and> distinct targets \<and>
     (case server of
        Some raw \<Rightarrow> (\<exists>url. canonicalize_base_url ce raw = Inr url \<and> targets = [url]
          \<and> server_state url status = Some ''live'')
      | None \<Rightarrow> set targets = {url. server_state url status = Some ''live''})"

text \<open>Either the router refuses before the loop, or it runs the loop for its targets.\<close>

lemma router_send_cases:
  assumes status: "status_ok status"
    and run: "router_send ce fate status handles msg key server req sent = (r, sent')"
  obtains (refused) e where "r = Inl e" "sent' = sent" "re_results e = []" "re_status e \<in> {400, 404, 503}"
  | (looped) targets r' where "targets_of ce status server targets"
    "router_loop fate (\<lambda>n. \<lparr>sm_text = msg, sm_idempotency_key = key, sm_embedding_request = req, sm_reply = n\<rparr>)
       handles targets [] sent = (r', sent')"
    "r = (case r' of Inl e \<Rightarrow> Inl e
          | Inr results \<Rightarrow> if list_all er_sent results then Inr results else Inl (mixed_failure results))"
proof (cases "router_targets ce status handles server")
  case (Inl e)
  then have "re_results e = []" "re_status e \<in> {400, 404, 503}"
    by (auto simp: router_targets_def invalid_request_def unknown_server_def split: option.splits sum.splits if_splits)
  with Inl run show ?thesis by (intro refused) (simp_all add: router_send_def)
next
  case (Inr targets)
  show ?thesis
  proof (cases "targets = [] \<or> (\<exists>t\<in>set targets. server_state t status \<noteq> Some ''live'')")
    case True
    then obtain msg' where "r = Inl (subspace_unavailable msg')" "sent' = sent"
      using run Inr
      by (auto simp: router_send_def find_None_iff split: if_splits option.splits)
    then show ?thesis
      by (rule refused [of "subspace_unavailable msg'"]) (simp_all add: subspace_unavailable_def)
  next
    case False
    then have none: "find (\<lambda>t. server_state t status \<noteq> Some ''live'') targets = None" "targets \<noteq> []"
      by (auto simp: find_None_iff)
    have "targets_of ce status server targets"
      using Inr False live_urls_set [OF status] live_urls_distinct [OF status]
      by (auto simp: targets_of_def router_targets_def live_urls_def split: option.splits sum.splits if_splits)
    moreover obtain r' where "router_loop fate
        (\<lambda>n. \<lparr>sm_text = msg, sm_idempotency_key = key, sm_embedding_request = req, sm_reply = n\<rparr>)
        handles targets [] sent = (r', sent')"
      "r = (case r' of Inl e \<Rightarrow> Inl e
          | Inr results \<Rightarrow> if list_all er_sent results then Inr results else Inl (mixed_failure results))"
      using run Inr none by (auto simp: router_send_def split: prod.splits sum.splits)
    ultimately show ?thesis by (rule looped)
  qed
qed

lemma loop_sent_to:
  assumes ok: "managers_ok rt"
    and handles: "\<forall>url\<in>set targets. \<exists>m. omap_get (lv_server_handles rt) url = Some m"
    and run: "router_loop fate (\<lambda>n. \<lparr>sm_text = sd_text payload, sm_idempotency_key = sd_idempotency_key payload,
        sm_embedding_request = \<lparr>oe_embeddings = sd_embeddings payload,
          oe_generate_for_spaces = sd_generate_for_spaces payload,
          oe_generated_embeddings_override_supplied = sd_generated_embeddings_override_supplied payload\<rparr>,
        sm_reply = n\<rparr>) (lv_server_handles rt) targets [] sent = (r, sent')"
  shows "\<exists>results. r = Inr results \<and> sent_to fate payload targets sent sent' results"
proof -
  have url: "sv_base_url (mn_server (the (omap_get (lv_server_handles rt) t))) = t" if "t \<in> set targets" for t
  proof -
    from handles that obtain m where m: "omap_get (lv_server_handles rt) t = Some m" by blast
    with ok have "t = sv_base_url (mn_server m)" unfolding managers_ok_def by blast
    with m show ?thesis by simp
  qed
  have "map (\<lambda>(n, t). sv_base_url (mn_server (the (omap_get (lv_server_handles rt) t)))) (enumerate k targets)
      = map snd (enumerate k targets)" for k
    using url by (intro map_cong) (auto simp: enumerate_eq_zip dest: set_zip_rightD)
  then show ?thesis
    using run unfolding router_loop_run [OF handles]
    by (auto simp: sent_to_def case_prod_unfold comp_def map_fst_enumerate)
qed

lemma send_answer:
  assumes ok: "managers_ok (iw_live w)"
    and handles: "\<forall>url. server_state url (lv_status (iw_live w)) = Some ''live'' \<longrightarrow>
      (\<exists>m. omap_get (lv_server_handles (iw_live w)) url = Some m)"
    and request: "ir_method req = ''POST''" "ir_path req = ''/v1/messages''" "ir_body req = Inr bytes"
    and parsed: "ix_parse_send ix bytes = Inr payload"
    and run: "handle_request ix req w = (Inr response, w')"
  shows "case rs_body response of
      BodySend b \<Rightarrow> rs_status response = 200 \<and> list_all er_sent (sb_results b)
        \<and> trim (sd_text payload) \<noteq> []
        \<and> (\<exists>targets. targets_of (config_at (ix_setup ix) (iw_host w)) (lv_status (iw_live w))
              (sd_server payload) targets
            \<and> sent_to (ix_fate ix) payload targets (iw_log w) (iw_log w') (sb_results b))
    | BodyError b \<Rightarrow>
        (if eb_results b = [] then iw_log w' = iw_log w \<and> rs_status response \<in> {400, 404, 503}
         else rs_status response = 503 \<and> \<not> list_all er_sent (eb_results b)
           \<and> (\<exists>targets. targets_of (config_at (ix_setup ix) (iw_host w)) (lv_status (iw_live w))
                 (sd_server payload) targets
               \<and> sent_to (ix_fate ix) payload targets (iw_log w) (iw_log w') (eb_results b)))
    | _ \<Rightarrow> False"
proof -
  from run request have messages: "handle_messages ix bytes w = (response, w')"
    by (auto simp: handle_request_def split: prod.splits)
  show ?thesis
  proof (cases "trim (sd_text payload) = [] \<or> \<not> is_ok (validate_embedding_request payload)")
    case True
    with messages parsed show ?thesis
      by (auto simp: handle_messages_def error_response_def json_response_def is_ok_iff split: sum.splits if_splits)
  next
    case False
    obtain r sent' where route: "router_send (config_at (ix_setup ix) (iw_host w)) (ix_fate ix)
        (lv_status (iw_live w)) (lv_server_handles (iw_live w)) (sd_text payload)
        (sd_idempotency_key payload) (sd_server payload)
        \<lparr>oe_embeddings = sd_embeddings payload, oe_generate_for_spaces = sd_generate_for_spaces payload,
         oe_generated_embeddings_override_supplied = sd_generated_embeddings_override_supplied payload\<rparr>
        (iw_log w) = (r, sent')"
      by fastforce
    with messages parsed False have answer: "response = (case r of
          Inr results \<Rightarrow> json_response 200 (BodySend \<lparr>sb_ok = True, sb_results = results\<rparr>)
        | Inl e \<Rightarrow> error_response (re_status e) (re_code e) (re_message e) (re_results e))"
      and log: "iw_log w' = sent'"
      by (auto simp: handle_messages_def is_ok_iff split: sum.splits)
    have status: "status_ok (lv_status (iw_live w))" using ok by (simp add: managers_ok_def)
    from status route show ?thesis
    proof (cases rule: router_send_cases)
      case (refused e)
      with answer log show ?thesis by (auto simp: error_response_def json_response_def)
    next
      case (looped targets r')
      have "\<forall>url\<in>set targets. \<exists>m. omap_get (lv_server_handles (iw_live w)) url = Some m"
        using looped(1) handles by (auto simp: targets_of_def split: option.splits)
      from loop_sent_to [OF ok this looped(2)] obtain results where
        r': "r' = Inr results" and sent: "sent_to (ix_fate ix) payload targets (iw_log w) sent' results" by blast
      with looped answer log False show ?thesis
        by (auto simp: error_response_def json_response_def mixed_failure_def)
    qed
  qed
qed

section \<open>Properties\<close>

text \<open>
  Claim C10. The answer to a send request tells what was sent. With managers that are in order and a
  handle for every live server, a request that can be read is answered by 200 only when each of
  its targets got the command with the text, the key and the embeddings of the request, once and in
  order, and each manager replied with success; the body has their results. The targets are the
  given server, when it is live, or all live servers, and there is at least one. An error with
  results is a 503 for which each target got the command and some target failed; an error without
  results has sent nothing.
\<close>

theorem send_answer_reports_deliveries:
  assumes ok: "managers_ok (iw_live w)"
    and handles: "\<forall>url. server_state url (lv_status (iw_live w)) = Some ''live'' \<longrightarrow>
      (\<exists>m. omap_get (lv_server_handles (iw_live w)) url = Some m)"
    and request: "ir_method req = ''POST''" "ir_path req = ''/v1/messages''" "ir_body req = Inr bytes"
    and parsed: "ix_parse_send ix bytes = Inr payload"
    and run: "handle_request ix req w = (Inr response, w')"
  shows "case rs_body response of
      BodySend b \<Rightarrow> rs_status response = 200 \<and> list_all er_sent (sb_results b)
        \<and> trim (sd_text payload) \<noteq> []
        \<and> (\<exists>targets. targets_of (config_at (ix_setup ix) (iw_host w)) (lv_status (iw_live w))
              (sd_server payload) targets
            \<and> sent_to (ix_fate ix) payload targets (iw_log w) (iw_log w') (sb_results b))
    | BodyError b \<Rightarrow>
        (if eb_results b = [] then iw_log w' = iw_log w \<and> rs_status response \<in> {400, 404, 503}
         else rs_status response = 503 \<and> \<not> list_all er_sent (eb_results b)
           \<and> (\<exists>targets. targets_of (config_at (ix_setup ix) (iw_host w)) (lv_status (iw_live w))
                 (sd_server payload) targets
               \<and> sent_to (ix_fate ix) payload targets (iw_log w) (iw_log w') (eb_results b)))
    | _ \<Rightarrow> False"
  using send_answer [OF assms] .

text \<open>A daemon with one live server.\<close>

definition demo_live_state :: LiveSetupState where
  "demo_live_state =
     (let rt = spawn_server_manager demo_setup_env demo_host (sx_server (demo_server_env ''/ids'' ''/s.json'')) []
        \<lparr>lv_status = \<lparr>st_gateway_state = ''live'', st_wake_session_key = [], st_servers = []\<rparr>,
         lv_server_handles = [], lv_server_tasks = [],
         lv_retry = retry_of_stored (so_retry default_stored_config),
         lv_replay = \<lparr>rp_dedupe_window_size = 500, rp_discard_before_ts = None\<rparr>,
         lv_attention = \<lparr>ac_local_pack_paths = [], ac_embedding_backends = []\<rparr>\<rparr>
      in rt\<lparr>lv_status := set_server_state ''https://a.b'' ''https_a_b_443'' ''live'' (lv_status rt)\<rparr>)"

definition demo_ipc_env :: ipc_env where
  "demo_ipc_env =
     \<lparr>ix_setup = demo_setup_env, ix_time = demo_time, ix_now = 0,
      ix_build = \<lparr>be_package = [], be_version = [], be_commit = None, be_timestamp = None,
        be_target = None, be_profile = None, be_exe_bytes = None, be_sha256 = (\<lambda>s. s)\<rparr>,
      ix_parse_send = (\<lambda>bytes. Inr \<lparr>sd_text = bytes, sd_idempotency_key = Some ''k'',
        sd_server = Some ''https://a.b'', sd_embeddings = [], sd_generate_for_spaces = [],
        sd_generated_embeddings_override_supplied = False\<rparr>),
      ix_parse_setup = (\<lambda>_. Inl ''no request''),
      ix_fate = (\<lambda>n. Replied (Inr \<lparr>os_server = ''https://a.b'', os_subspace_message_id = Some ''m'',
        os_idempotency_key = ''k''\<rparr>))\<rparr>"

definition demo_ipc_world :: ipc_world where
  "demo_ipc_world = \<lparr>iw_host = demo_host, iw_http = sw_http demo_setup_world, iw_live = demo_live_state, iw_log = []\<rparr>"

lemma demo_live_state_facts:
  "managers_ok demo_live_state"
  "server_state url (lv_status demo_live_state) = (if url = ''https://a.b'' then Some ''live'' else None)"
  "\<exists>m. omap_get (lv_server_handles demo_live_state) ''https://a.b'' = Some m"
proof -
  define rt where "rt = spawn_server_manager demo_setup_env demo_host (sx_server (demo_server_env ''/ids'' ''/s.json'')) []
        \<lparr>lv_status = \<lparr>st_gateway_state = ''live'', st_wake_session_key = [], st_servers = []\<rparr>,
         lv_server_handles = [], lv_server_tasks = [],
         lv_retry = retry_of_stored (so_retry default_stored_config),
         lv_replay = \<lparr>rp_dedupe_window_size = 500, rp_discard_before_ts = None\<rparr>,
         lv_attention = \<lparr>ac_local_pack_paths = [], ac_embedding_backends = []\<rparr>\<rparr>"
  have live: "demo_live_state = rt\<lparr>lv_status := set_server_state ''https://a.b'' ''https_a_b_443'' ''live'' (lv_status rt)\<rparr>"
    by (simp add: demo_live_state_def rt_def Let_def)
  have url: "sv_base_url (sx_server (demo_server_env ''/ids'' ''/s.json'')) = ''https://a.b''" by (simp add: demo_server_env_def)
  have ok: "managers_ok rt" unfolding rt_def
    by (rule spawn_keeps_managers) (simp_all add: managers_ok_def status_ok_def)
  have entry: "omap_get (st_servers (set_server_state u k s status)) v \<noteq> None \<longleftrightarrow>
      v = u \<or> omap_get (st_servers status) v \<noteq> None" for u k s v status
    by (simp add: set_server_state_def omap.get_ins)
  show "managers_ok demo_live_state"
    using ok setters_ok(2) unfolding live managers_ok_def by (auto simp: entry simp del: not_None_eq)
  show "server_state url (lv_status demo_live_state) = (if url = ''https://a.b'' then Some ''live'' else None)"
    unfolding live
    by (auto simp: server_state_def set_server_state_def omap_get_def rt_def spawn_server_manager_def Let_def
        set_server_attention_health_def url)
  show "\<exists>m. omap_get (lv_server_handles demo_live_state) ''https://a.b'' = Some m"
    unfolding live by (simp add: rt_def spawn_server_manager_def Let_def omap_get_def url)
qed

theorem send_answer_reports_deliveries_witness:
  "\<exists>response w' b targets. handle_request demo_ipc_env
       \<lparr>ir_method = ''POST'', ir_path = ''/v1/messages'', ir_body = Inr ''hi''\<rparr> demo_ipc_world = (Inr response, w')
     \<and> rs_status response = 200 \<and> rs_body response = BodySend b \<and> list_all er_sent (sb_results b)
     \<and> targets_of (config_at demo_setup_env demo_host) (lv_status demo_live_state) (Some ''https://a.b'') targets"
proof -
  let ?req = "\<lparr>ir_method = ''POST'', ir_path = ''/v1/messages'', ir_body = Inr ''hi''\<rparr>"
  have trim: "trim ''hi'' = ''hi''" by code_simp
  have ce: "config_at demo_setup_env demo_host = demo_config_env"
    by (simp add: config_at_def demo_setup_env_def demo_config_env_def demo_host_def)
  obtain response w' b where run: "handle_request demo_ipc_env ?req demo_ipc_world = (Inr response, w')"
    and body: "rs_body response = BodySend b"
    using demo_live_state_facts(3)
    by (auto simp: handle_request_def handle_messages_def demo_ipc_env_def demo_ipc_world_def trim
        validate_embedding_request_def router_send_def router_targets_def ce demo_canonical
        demo_live_state_facts(2) Let_def json_response_def)
  have "\<forall>url. server_state url (lv_status (iw_live demo_ipc_world)) = Some ''live'' \<longrightarrow>
      (\<exists>m. omap_get (lv_server_handles (iw_live demo_ipc_world)) url = Some m)"
    using demo_live_state_facts by (auto simp: demo_ipc_world_def)
  from send_answer_reports_deliveries [OF _ this _ _ _ _ run, of "''hi''"] body demo_live_state_facts(1)
  show ?thesis
    using run by (fastforce simp: demo_ipc_env_def demo_ipc_world_def)
qed

end
