(* ===== verification/Build_Script.thy ===== *)
theory Build_Script
  imports Ipc
begin

text \<open>
  The build script, \<^verbatim>\<open>src/build.rs\<close>: it prints the commit, the time, the target and the profile as
  directives for cargo, which compiles \<^verbatim>\<open>src/src/build_info.rs\<close> with them in its environment. What
  the environment and the programs answer is given by \<open>build_host\<close>.
\<close>

record build_host =
  bh_var :: "string \<Rightarrow> string option"
  bh_run :: "string \<Rightarrow> string list \<Rightarrow> (bool \<times> string) result" \<comment> \<open>success and standard output\<close>

definition command_output :: "build_host \<Rightarrow> string \<Rightarrow> string list \<Rightarrow> string option" where
  "command_output bh program args =
     (case bh_run bh program args of
        Inl _ \<Rightarrow> None
      | Inr (success, stdout) \<Rightarrow>
          if \<not> success then None
          else Option.bind (from_utf8 stdout) (\<lambda>value.
               if trim value = [] then None else Some (trim value)))"

definition git_commit :: "build_host \<Rightarrow> string option" where
  "git_commit bh = command_output bh ''git'' [''rev-parse'', ''--short=12'', ''HEAD'']"

definition build_commit :: "build_host \<Rightarrow> string" where
  "build_commit bh =
     unwrap_or ''unknown''
       (case bh_var bh ''SUBSPACE_BUILD_COMMIT_OVERRIDE'' of
          Some value \<Rightarrow> if trim value = [] then git_commit bh else Some value
        | None \<Rightarrow> git_commit bh)"

definition build_timestamp :: "build_host \<Rightarrow> string" where
  "build_timestamp bh =
     unwrap_or ''unknown'' (command_output bh ''date'' [''-u'', ''+%Y-%m-%dT%H:%M:%SZ''])"

definition rustc_env :: "string \<Rightarrow> string \<Rightarrow> string" where
  "rustc_env name value = ''cargo:rustc-env='' @ name @ ''='' @ value"

text \<open>The lines that are printed.\<close>

definition build_main :: "build_host \<Rightarrow> string list" where
  "build_main bh =
     [''cargo:rerun-if-env-changed=SUBSPACE_BUILD_COMMIT_OVERRIDE'',
      ''cargo:rerun-if-changed=.git/HEAD'',
      ''cargo:rerun-if-changed=.git/packed-refs'',
      rustc_env ''SUBSPACE_BUILD_COMMIT'' (build_commit bh),
      rustc_env ''SUBSPACE_BUILD_TIMESTAMP'' (build_timestamp bh),
      rustc_env ''SUBSPACE_BUILD_TARGET'' (unwrap_or ''unknown'' (bh_var bh ''TARGET'')),
      rustc_env ''SUBSPACE_BUILD_PROFILE'' (unwrap_or ''unknown'' (bh_var bh ''PROFILE''))]"

section \<open>What the daemon reports\<close>

text \<open>Cargo reads the output line by line and sets the variable of each \<open>rustc-env\<close> directive.\<close>

definition cargo_env :: "string list \<Rightarrow> string \<Rightarrow> string option" where
  "cargo_env printed name =
     (let directive = rustc_env name []
      in map_option (drop (length directive))
           (find (prefix directive) (concat (map (split_on CHR 0x0A) printed))))"

lemma split_on_no_sep: "d \<notin> set s \<Longrightarrow> split_on d s = [s]"
  by (induction s) auto

lemma command_output_Some: "command_output bh p args = Some s \<Longrightarrow> s \<noteq> [] \<and> trim s = s"
  by (auto simp: command_output_def split: sum.splits prod.splits if_splits option.splits bind_splits)

lemma build_commit_visible: "trim (build_commit bh) \<noteq> []"
proof (cases "\<exists>value. bh_var bh ''SUBSPACE_BUILD_COMMIT_OVERRIDE'' = Some value \<and> trim value \<noteq> []")
  case True
  then show ?thesis by (auto simp: build_commit_def)
next
  case False
  then have "build_commit bh = unwrap_or ''unknown'' (git_commit bh)"
    by (auto simp: build_commit_def split: option.splits)
  moreover have "trim ''unknown'' \<noteq> []" by code_simp
  ultimately show ?thesis
    using command_output_Some unfolding git_commit_def
    by (cases "command_output bh ''git'' [''rev-parse'', ''--short=12'', ''HEAD'']") fastforce+
qed

text \<open>
  The commit that the daemon reports is the one the script determined, and it is visible, as long as
  it is one line.
\<close>

theorem build_commit_reported:
  assumes "be_commit be = cargo_env (build_main bh) ''SUBSPACE_BUILD_COMMIT''" and "CHR 0x0A \<notin> set (build_commit bh)"
  shows "bi_source_commit (build_info_current be hash) = build_commit bh" "trim (build_commit bh) \<noteq> []"
proof -
  have "split_on CHR 0x0A (rustc_env ''SUBSPACE_BUILD_COMMIT'' (build_commit bh)) =
      [rustc_env ''SUBSPACE_BUILD_COMMIT'' (build_commit bh)]"
    using assms(2) by (intro split_on_no_sep) (simp add: rustc_env_def)
  then have "cargo_env (build_main bh) ''SUBSPACE_BUILD_COMMIT'' = Some (build_commit bh)"
    by (simp add: cargo_env_def build_main_def) (simp add: rustc_env_def)
  with assms(1) show "bi_source_commit (build_info_current be hash) = build_commit bh"
    by (simp add: build_info_current_def)
qed (rule build_commit_visible)

end
