(* ===== verification/Subspace_Client_Properties.thy ===== *)
theory Subspace_Client_Properties
  imports Subspace_Client Event_Machine
begin

text \<open>
  What the manager of a server guarantees: no message is in the wake queue or with the router twice,
  what is enqueued passed the filters, every outbound message is answered exactly once and with
  success only after the server's reply, and a revoked token leads to a new authentication.

  Most pieces of the task neither touch the wake queue nor report success. \<open>drift\<close> says so once for
  all of them; the invariants then need a look only at the pieces that do.
\<close>

section \<open>Bookkeeping\<close>

fun sent :: "server_action list \<Rightarrow> nat list" where
  "sent [] = []"
| "sent (SaAccept c # t) = sm_reply c # sent t"
| "sent (_ # t) = sent t"

fun replied :: "server_action list \<Rightarrow> nat list" where
  "replied [] = []"
| "replied (SaReply r x # t) = r # replied t"
| "replied (_ # t) = replied t"

definition unanswered :: "server_task \<Rightarrow> nat list" where
  "unanswered s = map sm_reply (mg_rx s) @ map (ps_reply \<circ> snd) (mg_pending s)"

lemma sent_append [simp]: "sent (t @ u) = sent t @ sent u"
  by (induction t rule: sent.induct) simp_all

lemma replied_append [simp]: "replied (t @ u) = replied t @ replied u"
  by (induction t rule: replied.induct) simp_all

lemma failures_only [simp]:
  "sent (map (\<lambda>r. SaReply r x) rs) = []" "replied (map (\<lambda>r. SaReply r x) rs) = rs"
  "sent (map ((\<lambda>r. SaReply r x) \<circ> f) ys) = []" "replied (map ((\<lambda>r. SaReply r x) \<circ> f) ys) = map f ys"
  by (induction rs) (simp_all, (induction ys, simp_all)+)

lemma fail_sends_eq: "fail_sends e rs s = s\<lparr>mg_trace := mg_trace s @ map (\<lambda>r. SaReply r (Inl e)) rs\<rparr>"
proof (induction rs arbitrary: s)
  case Nil
  then show ?case by (simp add: fail_sends_def)
next
  case (Cons r rs)
  then show ?case by (simp add: fail_sends_def mg_act_def)
qed

lemma fire_server_hooks_eq:
  "\<exists>runs hs. fire_server_hooks sx kind message s
     = s\<lparr>mg_hooks := hs, mg_trace := mg_trace s @ [SaHooks runs]\<rparr>"
  by (auto simp: fire_server_hooks_def mg_act_def split: prod.split)

section \<open>Pieces that leave the queue alone\<close>

definition quiet :: "server_action \<Rightarrow> bool" where
  "quiet a = (case a of SaAccept _ \<Rightarrow> False | SaEnqueue _ _ \<Rightarrow> False | SaReply _ (Inr _) \<Rightarrow> False | _ \<Rightarrow> True)"

definition drift :: "server_task \<Rightarrow> server_task \<Rightarrow> bool" where
  "drift s s' \<longleftrightarrow>
     (\<exists>u. mg_trace s' = mg_trace s @ u \<and> list_all quiet u
        \<and> mset (replied u) + mset (unanswered s') = mset (unanswered s))
     \<and> mg_wake s' = mg_wake s \<and> mg_taken s' = mg_taken s
     \<and> st_pending_ids (mg_runtime s') = st_pending_ids (mg_runtime s)
     \<and> st_discard_before_ts (mg_runtime s') = st_discard_before_ts (mg_runtime s)
     \<and> set (mg_rx s') \<subseteq> set (mg_rx s) \<and> set (mg_pending s') \<subseteq> set (mg_pending s)"

lemma drift_refl [simp]: "drift s s"
  by (simp add: drift_def)

lemma drift_trans:
  assumes "drift s t" and "drift t w"
  shows "drift s w"
proof -
  from assms obtain u v where
    "mg_trace t = mg_trace s @ u" "list_all quiet u" "mset (replied u) + mset (unanswered t) = mset (unanswered s)"
    "mg_trace w = mg_trace t @ v" "list_all quiet v" "mset (replied v) + mset (unanswered w) = mset (unanswered t)"
    unfolding drift_def by blast
  then have "mg_trace w = mg_trace s @ (u @ v) \<and> list_all quiet (u @ v)
      \<and> mset (replied (u @ v)) + mset (unanswered w) = mset (unanswered s)"
    by (simp add: union_assoc)
  with assms show ?thesis unfolding drift_def by (metis (no_types, lifting) order_trans)
qed

lemma drift_fields [simp]:
  "drift s (t\<lparr>mg_phase := p\<rparr>) = drift s t" "drift s (t\<lparr>mg_backoff := b\<rparr>) = drift s t"
  "drift s (t\<lparr>mg_reached_live := w\<rparr>) = drift s t" "drift s (t\<lparr>mg_session := a\<rparr>) = drift s t"
  "drift s (t\<lparr>mg_signals := n\<rparr>) = drift s t" "drift s (t\<lparr>mg_host := h\<rparr>) = drift s t"
  "drift s (t\<lparr>mg_http := ht\<rparr>) = drift s t" "drift s (update_server_state sx v t) = drift s t"
  "drift s (update_server_session_expires_at sx t) = drift s t"
  "drift s (update_server_reconnect_cooldown sx cd t) = drift s t"
  by (simp_all add: drift_def unanswered_def update_server_state_def update_server_session_expires_at_def
      update_server_reconnect_cooldown_def)

lemmas drift_fieldsI [intro] = drift_fields [THEN iffD2]

lemma drift_act:
  assumes "drift s t" and "quiet a" and "replied [a] = []"
  shows "drift s (mg_act a t)"
  using assms(1)
proof (rule drift_trans)
  show "drift t (mg_act a t)" using assms(2,3) by (simp add: drift_def mg_act_def unanswered_def)
qed

lemma replied_failures: "list_all quiet (map ((\<lambda>r. SaReply r (Inl e)) \<circ> f) xs)"
  by (simp add: list_all_iff quiet_def)

lemma drift_pieces [intro]:
  assumes "drift s t"
  shows "drift s (snd (push_frame sx f t))" "drift s (fire_server_hooks sx kind message t)"
    "drift s (fail_pending_sends e t)" "drift s (finish_task p t)" "drift s (rest_backoff sx t)"
    "drift s (open_connection sx t)" "drift s (snd (persist_session sx t))" "drift s (snd (flush_runtime sx t))"
    "drift s (snd (reauth_session sx t))" "drift s (mg_act (SaCooldown n) t)"
proof -
  have "drift t (fire_server_hooks sx kind message t)"
    using fire_server_hooks_eq [of sx kind message t] by (auto simp: drift_def unanswered_def quiet_def)
  with assms show "drift s (fire_server_hooks sx kind message t)" by (rule drift_trans)
  have "drift t (fail_pending_sends e t)"
    by (simp add: drift_def fail_pending_sends_def fail_sends_eq unanswered_def replied_failures)
  with assms show "drift s (fail_pending_sends e t)" by (rule drift_trans)
  have "drift t (finish_task p t)"
    by (simp add: drift_def finish_task_def fail_sends_eq unanswered_def replied_failures)
  with assms show "drift s (finish_task p t)" by (rule drift_trans)
qed (use assms in \<open>auto simp: push_frame_def rest_backoff_def open_connection_def persist_session_def
      flush_runtime_def reauth_session_def quiet_def intro!: drift_act
      split: prod.split sum.split\<close>)

lemma drift_pairs [intro]:
  "push_frame sx f t = (r, t') \<Longrightarrow> drift s t \<Longrightarrow> drift s t'"
  "persist_session sx t = (r, t') \<Longrightarrow> drift s t \<Longrightarrow> drift s t'"
  "flush_runtime sx t = (r, t') \<Longrightarrow> drift s t \<Longrightarrow> drift s t'"
  "reauth_session sx t = (auth, t') \<Longrightarrow> drift s t \<Longrightarrow> drift s t'"
  using drift_pieces [of s t] by (metis snd_conv)+

lemma drift_runtime [intro]:
  "drift s t \<Longrightarrow> st_pending_ids st = st_pending_ids (mg_runtime t) \<Longrightarrow>
     st_discard_before_ts st = st_discard_before_ts (mg_runtime t) \<Longrightarrow> drift s (t\<lparr>mg_runtime := st\<rparr>)"
  by (auto simp: drift_def unanswered_def)

lemma storm_keeps_ids:
  "record_reconnect_failure lib rnd now retry kind st = Some (cd, st') \<Longrightarrow>
     st_pending_ids st' = st_pending_ids st \<and> st_discard_before_ts st' = st_discard_before_ts st"
  by (auto simp: record_reconnect_failure_def Let_def count_failure_def reset_failure_window_def
      split: if_splits option.splits)

lemma drift_loop [intro]:
  assumes "drift s t"
  shows "drift s (begin_session sx t)" "drift s (server_loop_top sx t)" "drift s (after_rest sx t)"
proof -
  have b: "drift s (begin_session sx t)" if "drift s t" for t
    using that by (auto simp: begin_session_def Let_def split: sum.split option.split)
  have l: "drift s (server_loop_top sx t)" if "drift s t" for t
    using that b by (auto simp: server_loop_top_def Let_def split: option.split)
  show "drift s (begin_session sx t)" "drift s (server_loop_top sx t)" "drift s (after_rest sx t)"
    using b l assms by (simp_all add: after_rest_def)
qed

lemma drift_failure [intro]:
  assumes "drift s t"
  shows "drift s (after_failure sx kind err t)"
proof (cases "record_reconnect_failure (sx_time sx) (sx_draw sx (length (mg_trace t)))
         (sx_now sx (length (mg_trace t))) (sx_retry sx) (reconnect_error_kind err) (mg_runtime t)")
  case None
  with assms show ?thesis by (auto simp: after_failure_def)
next
  case (Some p)
  obtain cd st where p: "p = (cd, st)" by (cases p)
  with Some storm_keeps_ids assms have "drift s (t\<lparr>mg_runtime := st\<rparr>)" by blast
  with Some p show ?thesis by (auto simp: after_failure_def split: prod.split sum.split option.split)
qed

lemma drift_connection [intro]:
  assumes "drift s t"
  shows "drift s (after_connection sx outcome t)" "drift s (close_and_finish sx t)"
proof -
  have "drift s (after_connection sx outcome t)" if "drift s t" for outcome t
    using drift_pieces(3) [OF that, of reply_closed]
    by (auto simp: after_connection_def Let_def split: sum.split)
  then show "drift s (after_connection sx outcome t)" "drift s (close_and_finish sx t)"
    using assms drift_pieces(1) [OF assms] by (simp_all add: close_and_finish_def)
qed

lemma drift_auth [intro]:
  "accept_auth sx auth t = (r, t') \<Longrightarrow> drift s t \<Longrightarrow> drift s t'"
  "forget_revoked_token sx e t = (r', t'') \<Longrightarrow> drift s t \<Longrightarrow> drift s t''"
  by (auto simp: accept_auth_def forget_revoked_token_def split: prod.splits sum.splits if_splits)

lemma status_fields [simp]:
  "mg_pending (update_server_state sx v t) = mg_pending t" "mg_rx (update_server_state sx v t) = mg_rx t"
  "mg_runtime (update_server_state sx v t) = mg_runtime t" "mg_phase (update_server_state sx v t) = mg_phase t"
  "mg_pending (update_server_session_expires_at sx t) = mg_pending t"
  "mg_rx (update_server_session_expires_at sx t) = mg_rx t"
  "mg_runtime (update_server_session_expires_at sx t) = mg_runtime t"
  "mg_phase (update_server_session_expires_at sx t) = mg_phase t"
  "mg_pending (update_server_reconnect_cooldown sx cd t) = mg_pending t"
  "mg_rx (update_server_reconnect_cooldown sx cd t) = mg_rx t"
  "mg_runtime (update_server_reconnect_cooldown sx cd t) = mg_runtime t"
  "mg_phase (update_server_reconnect_cooldown sx cd t) = mg_phase t"
  by (simp_all add: update_server_state_def update_server_session_expires_at_def update_server_reconnect_cooldown_def)

lemma pending_kept [simp]:
  "mg_pending (fire_server_hooks sx kind message t) = mg_pending t"
  "mg_pending (mg_act a t) = mg_pending t"
  "mg_pending (fail_pending_sends e t) = []"
  using fire_server_hooks_eq [of sx kind message t] by (auto simp: mg_act_def fail_pending_sends_def)

lemma flush_keeps_pending: "flush_runtime sx t = (r, t') \<Longrightarrow> mg_pending t' = mg_pending t"
  by (auto simp: flush_runtime_def split: sum.splits)

lemma act_unanswered [simp]: "unanswered (mg_act a t) = unanswered t"
  by (simp add: mg_act_def unanswered_def)

lemma no_pending: "mg_pending t = [] \<Longrightarrow> t\<lparr>mg_pending := []\<rparr> = t"
  by (cases t) simp

lemma drift_go_live [intro]:
  assumes "drift s t" and none: "mg_pending t = []"
  shows "drift s (go_live sx t)"
proof -
  let ?t = "(update_server_session_expires_at sx (update_server_state sx ''live'' t))
      \<lparr>mg_reached_live := True, mg_runtime := clear_reconnect_storm (mg_runtime t)\<rparr>"
  have t: "drift s ?t" by (rule drift_runtime) (simp_all add: assms clear_reconnect_storm_def)
  obtain r t' where f: "flush_runtime sx ?t = (r, t')" by fastforce
  from f t have t': "drift s t'" by blast
  moreover have "t'\<lparr>mg_phase := Joined, mg_pending := []\<rparr> = t'\<lparr>mg_phase := Joined\<rparr>"
    by (rule no_pending) (use flush_keeps_pending [OF f] none in simp)
  ultimately show ?thesis using f by (auto simp: go_live_def split: sum.split)
qed

lemma drift_handlers [intro]:
  assumes "drift s t"
  shows "drift s (on_authenticated sx t)" "drift s (on_refreshed sx t)" "drift s (send_join sx t)"
    "drift s (on_heartbeat sx t)"
  unfolding on_authenticated_def on_refreshed_def send_join_def on_heartbeat_def Let_def
  using assms by (auto 4 6 split: prod.split sum.split)

lemma drift_join [intro]:
  assumes "drift s t" and "mg_pending t = []"
  shows "drift s (on_join_incoming sx i inc t)"
proof -
  have "drift s (on_join_frame sx i parsed t)" for parsed
    unfolding on_join_frame_def Let_def using assms by (auto split: prod.split sum.split)
  with assms show ?thesis
    by (auto simp: on_join_incoming_def split: incoming.split sum.split WsFrame.split)
qed

section \<open>Shape\<close>

definition shape :: "server_task \<Rightarrow> bool" where
  "shape s \<longleftrightarrow> distinct (map fst (mg_pending s))
     \<and> (mg_phase s = Joined \<or> mg_phase s = Refreshing \<or> mg_pending s = [])
     \<and> (if task_over s then mg_rx s = [] else True)"

lemma shape_pieces [intro]:
  assumes "mg_pending t = []"
  shows "shape (finish_task p t)" "shape (rest_backoff sx t)" "shape (open_connection sx t)"
    "shape (mg_act (SaCooldown n) (t\<lparr>mg_phase := CoolingDown\<rparr>))" "shape (t\<lparr>mg_phase := Authenticating\<rparr>)"
  using assms by (auto simp: shape_def finish_task_def fail_sends_eq rest_backoff_def open_connection_def task_over_def mg_act_def
      split: server_phase.splits)

lemma shape_loop [intro]:
  assumes "mg_pending t = []"
  shows "shape (begin_session sx t)" "shape (server_loop_top sx t)" "shape (after_rest sx t)"
proof -
  have b: "shape (begin_session sx t)" if "mg_pending t = []" for t
    using that by (auto simp: begin_session_def Let_def split: sum.split option.split)
  have l: "shape (server_loop_top sx t)" if "mg_pending t = []" for t
    using that b by (auto simp: server_loop_top_def Let_def split: option.split)
  show "shape (begin_session sx t)" "shape (server_loop_top sx t)" "shape (after_rest sx t)"
    using b l assms by (simp_all add: after_rest_def)
qed

lemma shape_failure [intro]: "mg_pending t = [] \<Longrightarrow> shape (after_failure sx kind err t)"
  by (auto simp: after_failure_def split: option.split prod.split sum.split dest!: flush_keeps_pending)

lemma shape_connection [intro]: "shape (after_connection sx outcome t)" "shape (close_and_finish sx t)"
proof -
  show "shape (after_connection sx outcome t)" for outcome t
    by (auto simp: after_connection_def Let_def split: sum.split)
  then show "shape (close_and_finish sx t)" by (simp add: close_and_finish_def)
qed

section \<open>The ledger\<close>

text \<open>The messages of this server that the wake router has not finished.\<close>

definition outstanding :: "server_env \<Rightarrow> server_task \<Rightarrow> WakeEnvelope list" where
  "outstanding sx s = filter (\<lambda>e. we_runtime e = sx_runtime_index sx) (mg_wake s) @ mg_taken s"

definition admissible :: "server_env \<Rightarrow> string \<Rightarrow> WakeEnvelope \<Rightarrow> bool" where
  "admissible sx agent env \<longleftrightarrow>
     we_author_id env \<noteq> agent \<and> we_message_id env \<noteq> [] \<and> we_timestamp env \<noteq> []
     \<and> \<not> timestamp_before_floor (sx_time sx) (we_timestamp env) (rp_discard_before_ts (sx_replay sx))
     \<and> (\<exists>parsed payload. env = inbound_envelope sx parsed payload)"

definition enqueued :: "server_action list \<Rightarrow> WakeEnvelope set" where
  "enqueued t = {env. \<exists>agent. SaEnqueue agent env \<in> set t}"

lemma enqueued_append [simp]: "enqueued (t @ u) = enqueued t \<union> enqueued u"
  by (auto simp: enqueued_def)

lemma enqueued_single [simp]: "enqueued [SaEnqueue agent env] = {env}"
  by (auto simp: enqueued_def)

definition inbound_ok :: "server_env \<Rightarrow> server_task \<Rightarrow> bool" where
  "inbound_ok sx s \<longleftrightarrow>
     distinct (map we_message_id (outstanding sx s))
     \<and> we_message_id ` set (outstanding sx s) = st_pending_ids (mg_runtime s)
     \<and> length (mg_wake s) \<le> wake_capacity
     \<and> st_discard_before_ts (mg_runtime s) = rp_discard_before_ts (sx_replay sx)
     \<and> (\<forall>agent env. SaEnqueue agent env \<in> set (mg_trace s) \<longrightarrow> admissible sx agent env)
     \<and> set (outstanding sx s) \<subseteq> enqueued (mg_trace s)"

definition given_key :: "send_command \<Rightarrow> string \<Rightarrow> bool" where
  "given_key c idem = (case sm_idempotency_key c of None \<Rightarrow> True | Some k \<Rightarrow> idem = k)"

definition posted :: "server_env \<Rightarrow> server_action list \<Rightarrow> string \<Rightarrow> PendingSend \<Rightarrow> bool" where
  "posted sx t q p \<longleftrightarrow>
     (\<exists>c. subseq [SaAccept c, SaPush (PushFrame (post_frame sx q (ps_idempotency_key p) c))] t
        \<and> sm_reply c = ps_reply p \<and> given_key c (ps_idempotency_key p))"

definition acknowledged :: "server_env \<Rightarrow> server_action list \<Rightarrow> nat \<Rightarrow> OutboundSendResult \<Rightarrow> bool" where
  "acknowledged sx t r res \<longleftrightarrow>
     (\<exists>c q parsed payload.
        subseq [SaAccept c, SaPush (PushFrame (post_frame sx q (os_idempotency_key res) c)), SaReceive parsed,
                SaReply r (Inr res)] t
        \<and> sm_reply c = r \<and> given_key c (os_idempotency_key res)
        \<and> json_str_at ''ref'' parsed = Some q \<and> json_get ''payload'' parsed = Some payload
        \<and> json_str_at ''status'' payload = Some ''ok'')"

definition outbound_ok :: "server_env \<Rightarrow> server_task \<Rightarrow> bool" where
  "outbound_ok sx s \<longleftrightarrow>
     mset (sent (mg_trace s)) = mset (replied (mg_trace s)) + mset (unanswered s)
     \<and> (\<forall>c. c \<in> set (mg_rx s) \<longrightarrow> SaAccept c \<in> set (mg_trace s))
     \<and> (\<forall>q p. (q, p) \<in> set (mg_pending s) \<longrightarrow> posted sx (mg_trace s) q p)
     \<and> (\<forall>r res. SaReply r (Inr res) \<in> set (mg_trace s) \<longrightarrow> acknowledged sx (mg_trace s) r res)"

definition manager_ok :: "server_env \<Rightarrow> server_task \<Rightarrow> bool" where
  "manager_ok sx s \<longleftrightarrow> shape s \<and> inbound_ok sx s \<and> outbound_ok sx s"

lemma subseq_grow: "subseq xs ys \<Longrightarrow> subseq xs (ys @ zs)"
  using list_emb_append_mono [of "(=)" xs ys "[]" zs] by simp

lemma posted_grow: "posted sx t q p \<Longrightarrow> posted sx (t @ u) q p"
  unfolding posted_def using subseq_grow by blast

lemma acknowledged_grow: "acknowledged sx t r res \<Longrightarrow> acknowledged sx (t @ u) r res"
  unfolding acknowledged_def using subseq_grow by blast

lemma quiet_sent: "list_all quiet u \<Longrightarrow> sent u = []"
  by (induction u rule: sent.induct) (simp_all add: quiet_def)

lemma quiet_actions:
  assumes "list_all quiet u"
  shows "SaReply r (Inr res) \<notin> set u" "SaEnqueue agent env \<notin> set u"
  using assms by (auto simp: list_all_iff quiet_def)

lemma drift_inbound: "drift s t \<Longrightarrow> inbound_ok sx s \<Longrightarrow> inbound_ok sx t"
  unfolding drift_def inbound_ok_def outstanding_def by (auto dest: quiet_actions)

lemma drift_outbound:
  assumes "drift s t" and "outbound_ok sx s"
  shows "outbound_ok sx t"
proof -
  from assms(1) obtain u where u: "mg_trace t = mg_trace s @ u" "list_all quiet u"
    "mset (replied u) + mset (unanswered t) = mset (unanswered s)"
    and sub: "set (mg_rx t) \<subseteq> set (mg_rx s)" "set (mg_pending t) \<subseteq> set (mg_pending s)"
    unfolding drift_def by blast
  have "mset (sent (mg_trace t)) = mset (replied (mg_trace t)) + mset (unanswered t)"
    using assms(2) u by (simp add: outbound_ok_def quiet_sent union_assoc)
  moreover have "SaAccept c \<in> set (mg_trace t)" if "c \<in> set (mg_rx t)" for c
    using that sub(1) assms(2) by (auto simp: outbound_ok_def u(1))
  moreover have "posted sx (mg_trace t) q p" if "(q, p) \<in> set (mg_pending t)" for q p
    using subsetD [OF sub(2) that] assms(2) by (simp add: outbound_ok_def u(1) posted_grow)
  moreover have "acknowledged sx (mg_trace t) r res" if "SaReply r (Inr res) \<in> set (mg_trace t)" for r res
    using that quiet_actions(1) [OF u(2)] assms(2) by (simp add: outbound_ok_def u(1) acknowledged_grow)
  ultimately show ?thesis unfolding outbound_ok_def by blast
qed

lemma drift_manager: "drift s t \<Longrightarrow> shape t \<Longrightarrow> manager_ok sx s \<Longrightarrow> manager_ok sx t"
  unfolding manager_ok_def using drift_inbound drift_outbound by blast

lemma drift_manager': "drift s t \<Longrightarrow> shape t \<Longrightarrow> inbound_ok sx s \<Longrightarrow> outbound_ok sx s \<Longrightarrow> manager_ok sx t"
  unfolding manager_ok_def using drift_inbound drift_outbound by blast

section \<open>Outbound messages\<close>

lemma posted_now:
  assumes "SaAccept c \<in> set t" and "given_key c idem"
  shows "posted sx (t @ SaPush (PushFrame (post_frame sx q idem c)) # u) q
    \<lparr>ps_reply = sm_reply c, ps_idempotency_key = idem\<rparr>"
proof -
  from assms(1) have "subseq [SaAccept c] t" by (simp add: subseq_singleton_left)
  then have "subseq ([SaAccept c] @ [SaPush (PushFrame (post_frame sx q idem c))])
      (t @ SaPush (PushFrame (post_frame sx q idem c)) # u)"
    by (rule list_emb_append_mono) simp
  with assms(2) show ?thesis unfolding posted_def by auto
qed

lemma send_partition:
  "mset (map (ps_reply \<circ> snd) ps) =
     mset (map (ps_reply \<circ> snd) (filter (\<lambda>(a, b). a = k) ps))
     + mset (map (ps_reply \<circ> snd) (filter (\<lambda>(a, b). a \<noteq> k) ps))"
  by (induction ps) auto

lemma insert_pending_send_ok:
  assumes s: "inbound_ok sx s" "shape s" "mg_phase s = Joined"
    and books: "mset (sent (mg_trace s)) = add_mset (ps_reply p) (mset (replied (mg_trace s)) + mset (unanswered s))"
    and rx: "\<forall>c. c \<in> set (mg_rx s) \<longrightarrow> SaAccept c \<in> set (mg_trace s)"
    and pend: "\<forall>q p. (q, p) \<in> set (mg_pending s) \<longrightarrow> posted sx (mg_trace s) q p"
    and ack: "\<forall>r res. SaReply r (Inr res) \<in> set (mg_trace s) \<longrightarrow> acknowledged sx (mg_trace s) r res"
    and new: "posted sx (mg_trace s) k p"
  shows "manager_ok sx (insert_pending_send k p s)"
proof -
  let ?old = "filter (\<lambda>(a, b). a = k) (mg_pending s)"
  have eq: "insert_pending_send k p s = s\<lparr>mg_pending := (k, p) # filter (\<lambda>(a, b). a \<noteq> k) (mg_pending s),
      mg_trace := mg_trace s @ map (\<lambda>r. SaReply r (Inl reply_closed)) (map (ps_reply \<circ> snd) ?old)\<rparr>"
    by (simp add: insert_pending_send_def fail_sends_eq)
  have "shape (insert_pending_send k p s)"
    using s unfolding eq by (auto simp: shape_def distinct_map_filter task_over_def)
  moreover have "inbound_ok sx (insert_pending_send k p s)"
    using s(1) unfolding eq by (auto simp: inbound_ok_def outstanding_def)
  moreover have "outbound_ok sx (insert_pending_send k p s)"
    using books rx pend ack new send_partition [of "mg_pending s" k] unfolding eq outbound_ok_def
    by (auto simp: unanswered_def posted_grow acknowledged_grow)
  ultimately show ?thesis by (simp add: manager_ok_def)
qed

lemma on_send_command_ok:
  assumes s: "manager_ok sx s" "mg_phase s = Joined" and rx: "mg_rx s = c # cs"
  shows "manager_ok sx (on_send_command sx c (s\<lparr>mg_rx := cs\<rparr>))"
proof -
  let ?q = "sx_uuid sx (length (mg_trace s))"
  let ?idem = "case sm_idempotency_key c of Some k \<Rightarrow> k | None \<Rightarrow> sx_uuid sx (Suc (length (mg_trace s)))"
  let ?a = "SaPush (PushFrame (post_frame sx ?q ?idem c))"
  let ?s = "s\<lparr>mg_rx := cs, mg_trace := mg_trace s @ [?a]\<rparr>"
  have run: "on_send_command sx c (s\<lparr>mg_rx := cs\<rparr>) = (case sx_write sx (length (mg_trace s)) of
      Inl e \<Rightarrow> after_connection sx (Inl e) (mg_act (SaReply (sm_reply c) (Inl reply_closed)) ?s)
    | Inr _ \<Rightarrow> insert_pending_send ?q \<lparr>ps_reply = sm_reply c, ps_idempotency_key = ?idem\<rparr> ?s)"
    by (cases "sm_idempotency_key c"; cases "sx_write sx (length (mg_trace s))")
      (simp_all add: on_send_command_def push_frame_def mg_act_def Let_def)
  show ?thesis
  proof (cases "sx_write sx (length (mg_trace s))")
    case (Inl e)
    let ?f = "mg_act (SaReply (sm_reply c) (Inl reply_closed)) ?s"
    have "drift s ?f" using rx by (auto simp: drift_def mg_act_def quiet_def unanswered_def)
    then have "drift s (after_connection sx (Inl e) ?f)" by blast
    from drift_manager [OF this shape_connection(1) s(1)] Inl show ?thesis by (simp add: run)
  next
    case (Inr u)
    have "given_key c ?idem" by (simp add: given_key_def split: option.split)
    moreover have "SaAccept c \<in> set (mg_trace s)" using s(1) rx by (simp add: manager_ok_def outbound_ok_def)
    ultimately have new: "posted sx (mg_trace ?s) ?q \<lparr>ps_reply = sm_reply c, ps_idempotency_key = ?idem\<rparr>"
      using posted_now [of c "mg_trace s" ?idem sx ?q "[]"] by simp
    have "manager_ok sx (insert_pending_send ?q \<lparr>ps_reply = sm_reply c, ps_idempotency_key = ?idem\<rparr> ?s)"
    proof (rule insert_pending_send_ok [OF _ _ _ _ _ _ _ new])
      show "inbound_ok sx ?s" using s(1) by (auto simp: manager_ok_def inbound_ok_def outstanding_def)
      show "shape ?s" using s rx by (auto simp: manager_ok_def shape_def task_over_def)
      show "mset (sent (mg_trace ?s)) = add_mset (ps_reply \<lparr>ps_reply = sm_reply c, ps_idempotency_key = ?idem\<rparr>)
          (mset (replied (mg_trace ?s)) + mset (unanswered ?s))"
        using s(1) rx by (simp add: manager_ok_def outbound_ok_def unanswered_def)
    qed (use s rx in \<open>auto simp: manager_ok_def outbound_ok_def posted_grow acknowledged_grow\<close>)
    with Inr show ?thesis by (simp add: run)
  qed
qed

lemma on_server_command_ok:
  assumes "manager_ok sx s" and "mg_phase s = Joined"
  shows "manager_ok sx (on_server_command sx s)"
proof (cases "mg_rx s")
  case Nil
  have "manager_ok sx (close_and_finish sx s)"
    by (rule drift_manager [OF drift_connection(2) [OF drift_refl] shape_connection(2) assms(1)])
  with Nil assms show ?thesis by (simp add: on_server_command_def)
qed (use assms on_send_command_ok in \<open>simp add: on_server_command_def\<close>)


lemma send_remove:
  "distinct (map fst ps) \<Longrightarrow> map_of ps k = Some p \<Longrightarrow>
     mset (map (ps_reply \<circ> snd) ps) = add_mset (ps_reply p) (mset (map (ps_reply \<circ> snd) (filter (\<lambda>(a, b). a \<noteq> k) ps)))"
proof (induction ps)
  case (Cons x ps)
  show ?case
  proof (cases "fst x = k")
    case True
    then have "k \<notin> fst ` set ps" using Cons.prems(1) by auto
    then have "filter (\<lambda>(a, b). a \<noteq> k) ps = ps" by (force simp: filter_id_conv)
    with True Cons.prems show ?thesis by (cases x) auto
  qed (use Cons in \<open>cases x, auto\<close>)
qed simp

lemma acknowledged_now:
  assumes "posted sx t q p" and "json_str_at ''ref'' parsed = Some q"
    and "json_get ''payload'' parsed = Some payload" and "json_str_at ''status'' payload = Some ''ok''"
    and "os_idempotency_key res = ps_idempotency_key p"
  shows "acknowledged sx (t @ [SaReceive parsed, SaReply (ps_reply p) (Inr res)]) (ps_reply p) res"
proof -
  from assms(1) obtain c where c: "subseq [SaAccept c, SaPush (PushFrame (post_frame sx q (ps_idempotency_key p) c))] t"
    "sm_reply c = ps_reply p" "given_key c (ps_idempotency_key p)"
    by (auto simp: posted_def)
  from c(1) have "subseq ([SaAccept c, SaPush (PushFrame (post_frame sx q (ps_idempotency_key p) c))]
      @ [SaReceive parsed, SaReply (ps_reply p) (Inr res)]) (t @ [SaReceive parsed, SaReply (ps_reply p) (Inr res)])"
    by (rule list_emb_append_mono) simp
  with c assms show ?thesis unfolding acknowledged_def by auto
qed

text \<open>A failed send that is answered leaves the rest as it was.\<close>

lemma drift_answered:
  assumes "shape s" and "map_of (mg_pending s) k = Some p"
    and "drift (mg_act (SaReceive v) (s\<lparr>mg_pending := filter (\<lambda>(a, b). a \<noteq> k) (mg_pending s)\<rparr>)) t"
  shows "drift s (mg_act (SaReply (ps_reply p) (Inl e)) t)"
proof -
  let ?s = "mg_act (SaReceive v) (s\<lparr>mg_pending := filter (\<lambda>(a, b). a \<noteq> k) (mg_pending s)\<rparr>)"
  from assms(3) obtain u where u: "mg_trace t = mg_trace ?s @ u" "list_all quiet u"
    "mset (replied u) + mset (unanswered t) = mset (unanswered ?s)" unfolding drift_def by blast
  have "mset (unanswered s) = add_mset (ps_reply p) (mset (unanswered ?s))"
    using send_remove [OF _ assms(2)] assms(1) by (simp add: shape_def unanswered_def mg_act_def)
  with u have "mset (replied (SaReceive v # u @ [SaReply (ps_reply p) (Inl e)]))
      + mset (unanswered (mg_act (SaReply (ps_reply p) (Inl e)) t)) = mset (unanswered s)"
    by simp
  moreover have "mg_trace (mg_act (SaReply (ps_reply p) (Inl e)) t)
      = mg_trace s @ (SaReceive v # u @ [SaReply (ps_reply p) (Inl e)])"
    using u(1) by (simp add: mg_act_def)
  moreover have "list_all quiet (SaReceive v # u @ [SaReply (ps_reply p) (Inl e)])"
    using u(2) by (simp add: quiet_def)
  moreover have "mg_wake t = mg_wake s" "mg_taken t = mg_taken s"
    "st_pending_ids (mg_runtime t) = st_pending_ids (mg_runtime s)"
    "st_discard_before_ts (mg_runtime t) = st_discard_before_ts (mg_runtime s)" "set (mg_rx t) \<subseteq> set (mg_rx s)"
    using assms(3) by (simp_all add: drift_def mg_act_def)
  moreover have "set (mg_pending t) \<subseteq> set (mg_pending ?s)" using assms(3) by (simp add: drift_def)
  then have "set (mg_pending t) \<subseteq> set (mg_pending s)" by (auto simp: mg_act_def)
  ultimately have "drift s (t\<lparr>mg_trace := mg_trace s @ (SaReceive v # u @ [SaReply (ps_reply p) (Inl e)])\<rparr>)"
    unfolding drift_def by (intro conjI exI [of _ "SaReceive v # u @ [SaReply (ps_reply p) (Inl e)]"])
      (simp_all add: unanswered_def mg_act_def)
  with u(1) show ?thesis by (simp add: mg_act_def)
qed

lemma filter_keys_distinct: "distinct (map fst ps) \<Longrightarrow> distinct (map fst (filter P ps))"
  by (simp add: distinct_map_filter)

lemma forget_keeps_shape:
  "forget_revoked_token sx e t = (r, t') \<Longrightarrow>
     mg_pending t' = mg_pending t \<and> mg_phase t' = mg_phase t \<and> mg_rx t' = mg_rx t"
  by (auto simp: forget_revoked_token_def persist_session_def split: prod.splits if_splits)

lemma hooks_keep_shape [simp]:
  "mg_phase (fire_server_hooks sx kind msg t) = mg_phase t" "mg_rx (fire_server_hooks sx kind msg t) = mg_rx t"
  using fire_server_hooks_eq [of sx kind msg t] by auto


lemma phx_accepted_ok:
  assumes s: "manager_ok sx s" "mg_phase s = Joined"
    and k: "json_str_at ''ref'' parsed = Some k" "map_of (mg_pending s) k = Some p"
    and ok: "json_str_at ''status'' (unwrap_or (JObj []) (json_get ''payload'' parsed)) = Some ''ok''"
  shows "manager_ok sx (on_phx_reply sx parsed s)"
proof -
  let ?payload = "unwrap_or (JObj []) (json_get ''payload'' parsed)"
  have shape: "shape s" using s(1) by (simp add: manager_ok_def)
  from ok obtain payload where payload: "json_get ''payload'' parsed = Some payload"
    "json_str_at ''status'' payload = Some ''ok''"
    by (cases "json_get ''payload'' parsed") (simp_all add: json_str_at_def json_get_def)
  let ?res = "\<lparr>os_server = sv_base_url (sx_server sx), os_subspace_message_id = reply_message_id ?payload,
      os_idempotency_key = ps_idempotency_key p\<rparr>"
  let ?t = "s\<lparr>mg_pending := filter (\<lambda>(a, b). a \<noteq> k) (mg_pending s),
      mg_trace := mg_trace s @ [SaReceive parsed, SaReply (ps_reply p) (Inr ?res)]\<rparr>"
  have run: "on_phx_reply sx parsed s = ?t" using k ok by (simp add: on_phx_reply_def mg_act_def)
  have "posted sx (mg_trace s) k p" using s(1) k(2) map_of_SomeD by (fastforce simp: manager_ok_def outbound_ok_def)
  from acknowledged_now [OF this k(1) payload, of ?res]
  have "acknowledged sx (mg_trace ?t) (ps_reply p) ?res" by simp
  moreover have "mset (unanswered s) = add_mset (ps_reply p) (mset (unanswered ?t))"
    using send_remove [OF _ k(2)] shape by (simp add: shape_def unanswered_def)
  ultimately have "outbound_ok sx ?t"
    using s(1) by (auto simp: manager_ok_def outbound_ok_def posted_grow acknowledged_grow)
  moreover have "shape ?t" using shape s(2) by (auto simp: shape_def filter_keys_distinct task_over_def)
  moreover have "inbound_ok sx ?t" using s(1) by (auto simp: manager_ok_def inbound_ok_def outstanding_def)
  ultimately show ?thesis by (simp add: run manager_ok_def)
qed

lemma phx_refused_ok:
  assumes s: "manager_ok sx s" "mg_phase s = Joined"
    and k: "json_str_at ''ref'' parsed = Some k" "map_of (mg_pending s) k = Some p"
    and no: "json_str_at ''status'' (unwrap_or (JObj []) (json_get ''payload'' parsed)) \<noteq> Some ''ok''"
  shows "manager_ok sx (on_phx_reply sx parsed s)"
proof -
  let ?s = "mg_act (SaReceive parsed) (s\<lparr>mg_pending := filter (\<lambda>(a, b). a \<noteq> k) (mg_pending s)\<rparr>)"
  let ?error = "response_error ''send_failed'' (Some (unwrap_or (JObj []) (json_get ''payload'' parsed)))"
  have shape: "shape s" using s(1) by (simp add: manager_ok_def)
  obtain r t where f: "forget_revoked_token sx ?error ?s = (r, t)" by fastforce
  have t: "drift ?s t" by (rule drift_auth(2) [OF f drift_refl])
  have shape_t: "distinct (map fst (mg_pending t))" "mg_phase t = Joined"
    using forget_keeps_shape [OF f] s(2) shape by (simp_all add: shape_def filter_keys_distinct mg_act_def)
  show ?thesis
  proof (cases r)
    case (Inl e)
    have run: "on_phx_reply sx parsed s = after_connection sx (Inl e) (mg_act (SaReply (ps_reply p) (Inl reply_closed)) t)"
      using k no f Inl by (simp add: on_phx_reply_def Let_def)
    show ?thesis unfolding run
      by (rule drift_manager [OF drift_connection(1) [OF drift_answered [OF shape k(2) t]] shape_connection(1) s(1)])
  next
    case (Inr u)
    let ?t = "fire_server_hooks sx ''subspace_post_message_failed'' ?error t"
    have run: "on_phx_reply sx parsed s = mg_act (SaReply (ps_reply p) (Inl ?error)) ?t"
      using k no f Inr by (simp add: on_phx_reply_def Let_def)
    have "shape (mg_act (SaReply (ps_reply p) (Inl ?error)) ?t)"
      using shape_t by (simp add: shape_def task_over_def mg_act_def)
    with drift_answered [OF shape k(2) drift_pieces(2) [OF t]] show ?thesis
      unfolding run using s(1) by (rule drift_manager)
  qed
qed

lemma on_phx_reply_ok:
  assumes "manager_ok sx s" and "mg_phase s = Joined"
  shows "manager_ok sx (on_phx_reply sx parsed s)"
proof (cases "\<exists>k p. json_str_at ''ref'' parsed = Some k \<and> map_of (mg_pending s) k = Some p")
  case False
  then show ?thesis using assms by (auto simp: on_phx_reply_def split: option.split)
next
  case True
  then show ?thesis using phx_accepted_ok [OF assms] phx_refused_ok [OF assms] by blast
qed

section \<open>Inbound messages\<close>

lemma should_enqueue_cases:
  assumes "should_enqueue lib i ts st = (b, st')"
  shows "if b then i \<notin> st_pending_ids st \<and> st_pending_ids st' = insert i (st_pending_ids st)
      \<and> \<not> timestamp_before_floor lib ts (st_discard_before_ts st)
      \<and> st_discard_before_ts st' = st_discard_before_ts st
    else st' = st"
  using assms by (auto simp: should_enqueue_def split: if_splits)

lemma enqueue_wake_ok:
  assumes s: "manager_ok sx s" "mg_phase s = Joined"
    and env: "env = inbound_envelope sx parsed payload" "we_author_id env \<noteq> active_agent_id (mg_session s)"
      "we_message_id env \<noteq> []" "we_timestamp env \<noteq> []"
    and take: "should_enqueue (sx_time sx) (we_message_id env) (we_timestamp env) (mg_runtime s) = (True, st)"
  shows "manager_ok sx (enqueue_wake sx env (s\<lparr>mg_runtime := st\<rparr>))"
proof -
  note st = should_enqueue_cases [OF take, simplified]
  let ?f = "s\<lparr>mg_runtime := mark_failed (we_message_id env) st\<rparr>"
  have refused: "manager_ok sx (after_connection sx (Inl e) ?f)" for e
  proof (rule drift_manager [OF _ shape_connection(1) s(1)])
    have "drift s ?f" using st by (auto simp: drift_def mark_failed_def unanswered_def)
    then show "drift s (after_connection sx (Inl e) ?f)" by (rule drift_connection)
  qed
  let ?t = "s\<lparr>mg_runtime := st, mg_wake := mg_wake s @ [env],
      mg_trace := mg_trace s @ [SaEnqueue (active_agent_id (mg_session s)) env]\<rparr>"
  have idx: "we_runtime env = sx_runtime_index sx" by (simp add: env(1) inbound_envelope_def)
  have "admissible sx (active_agent_id (mg_session s)) env"
    using st env s(1) unfolding admissible_def manager_ok_def inbound_ok_def by metis
  then have "inbound_ok sx ?t" if "length (mg_wake s) < wake_capacity"
    using s(1) st idx that by (auto simp: manager_ok_def inbound_ok_def outstanding_def)
  moreover have "outbound_ok sx ?t"
    using s(1) by (auto simp: manager_ok_def outbound_ok_def unanswered_def posted_grow acknowledged_grow)
  moreover have "shape ?t" using s by (auto simp: manager_ok_def shape_def task_over_def)
  ultimately have "manager_ok sx ?t" if "length (mg_wake s) < wake_capacity" using that by (simp add: manager_ok_def)
  with refused show ?thesis by (simp add: enqueue_wake_def Let_def mg_act_def)
qed

lemma on_inbound_message_ok:
  assumes "manager_ok sx s" and "mg_phase s = Joined"
  shows "manager_ok sx (on_inbound_message sx parsed s)"
proof -
  let ?env = "inbound_envelope sx parsed (unwrap_or (JObj []) (json_get ''payload'' parsed))"
  obtain b st where take: "should_enqueue (sx_time sx) (we_message_id ?env) (we_timestamp ?env) (mg_runtime s) = (b, st)"
    by fastforce
  have "s\<lparr>mg_runtime := st\<rparr> = s" if "\<not> b" using should_enqueue_cases [OF take] that by simp
  with take assms enqueue_wake_ok [OF assms refl] show ?thesis
    by (cases b) (simp_all add: on_inbound_message_def Let_def)
qed


lemma router_take_ok:
  assumes "manager_ok sx s"
  shows "manager_ok sx (router_take sx s)"
proof (cases "mg_wake s")
  case Nil
  with assms show ?thesis by (simp add: router_take_def)
next
  case (Cons env envs)
  let ?s = "router_take sx s"
  have "set (outstanding sx ?s) = set (outstanding sx s)"
    "distinct (map we_message_id (outstanding sx ?s)) = distinct (map we_message_id (outstanding sx s))"
    using Cons by (auto simp: router_take_def outstanding_def)
  then have "inbound_ok sx ?s"
    using assms Cons by (auto simp: manager_ok_def inbound_ok_def router_take_def simp del: set_map)
  moreover have "outbound_ok sx ?s" "shape ?s"
    using assms Cons by (auto simp: manager_ok_def outbound_ok_def shape_def task_over_def router_take_def unanswered_def)
  ultimately show ?thesis by (simp add: manager_ok_def)
qed

lemma mark_processed_ids:
  "st_pending_ids (mark_processed i ts st) = st_pending_ids st - {i}"
  "st_discard_before_ts (mark_processed i ts st) = st_discard_before_ts st"
  by (simp_all add: mark_processed_def insert_recent_def Let_def split: option.split prod.split)

lemma router_done_ok:
  assumes "manager_ok sx s"
  shows "manager_ok sx (router_done i ts s)"
proof (cases "i \<in> we_message_id ` set (mg_taken s)")
  case False
  with assms show ?thesis by (simp add: router_done_def)
next
  case True
  let ?mine = "filter (\<lambda>e. we_runtime e = sx_runtime_index sx) (mg_wake s)"
  let ?s = "router_done i ts s"
  have eq: "?s = s\<lparr>mg_taken := filter (\<lambda>e. we_message_id e \<noteq> i) (mg_taken s),
      mg_runtime := mark_processed i ts (mg_runtime s)\<rparr>"
    using True by (simp add: router_done_def)
  from assms have d: "distinct (map we_message_id (?mine @ mg_taken s))"
    and ids: "we_message_id ` set (?mine @ mg_taken s) = st_pending_ids (mg_runtime s)"
    by (simp_all add: manager_ok_def inbound_ok_def outstanding_def)
  from d True have "i \<notin> we_message_id ` set ?mine" by auto
  with ids have "we_message_id ` set (?mine @ filter (\<lambda>e. we_message_id e \<noteq> i) (mg_taken s))
      = st_pending_ids (mg_runtime s) - {i}" by auto
  moreover from d have "distinct (map we_message_id (?mine @ filter (\<lambda>e. we_message_id e \<noteq> i) (mg_taken s)))"
    by (auto simp: distinct_map_filter)
  ultimately have "inbound_ok sx ?s"
    using assms unfolding eq manager_ok_def inbound_ok_def outstanding_def
    by (intro conjI) (simp_all add: mark_processed_ids subset_iff)
  moreover have "outbound_ok sx ?s" "shape ?s"
    using assms unfolding eq by (auto simp: manager_ok_def outbound_ok_def shape_def task_over_def unanswered_def)
  ultimately show ?thesis by (simp add: manager_ok_def)
qed

section \<open>The step\<close>

lemma refresh_shape:
  assumes "shape s" and "mg_phase s = Joined"
  shows "shape (on_heartbeat sx s)"
proof -
  have "push_frame sx f s = (r, t) \<Longrightarrow> shape t" for f r t
    using assms by (auto simp: push_frame_def mg_act_def shape_def task_over_def)
  moreover have "shape ((update_server_state sx v s)\<lparr>mg_phase := Refreshing\<rparr>)" for v
    using assms by (simp add: shape_def task_over_def)
  ultimately show ?thesis by (auto simp: on_heartbeat_def Let_def split: prod.split sum.split)
qed

lemma auth_keeps_pending:
  "reauth_session sx s = (a, t) \<Longrightarrow> mg_pending t = mg_pending s"
  "accept_auth sx auth s = (r, u) \<Longrightarrow> mg_pending u = mg_pending s"
  by (auto simp: reauth_session_def accept_auth_def persist_session_def split: prod.splits sum.splits)

lemma auth_shape:
  "mg_pending s = [] \<Longrightarrow> shape (on_authenticated sx s)"
  "shape (on_refreshed sx s)"
  by (auto simp: on_authenticated_def on_refreshed_def split: prod.split sum.split dest!: auth_keeps_pending)

lemma join_shape:
  assumes "shape s" and "mg_pending s = []" and "\<not> task_over s"
  shows "shape (send_join sx s)" "shape (on_join_incoming sx i inc s)"
proof -
  have "push_frame sx f s = (r, t) \<Longrightarrow> shape (t\<lparr>mg_phase := AwaitJoin j\<rparr>)" for f r t j
    using assms by (auto simp: push_frame_def mg_act_def shape_def task_over_def)
  then show "shape (send_join sx s)" by (auto simp: send_join_def Let_def split: prod.split sum.split)
  have "shape (t\<lparr>mg_phase := Joined, mg_pending := []\<rparr>)" for t by (simp add: shape_def task_over_def)
  then have "shape (go_live sx s)" by (auto simp: go_live_def Let_def split: prod.split sum.split)
  then have "shape (on_join_frame sx i parsed s)" for parsed
    using assms(1) by (auto simp: on_join_frame_def Let_def split: prod.split sum.split)
  then show "shape (on_join_incoming sx i inc s)"
    using assms(1) by (auto simp: on_join_incoming_def split: incoming.split sum.split WsFrame.split)
qed

lemma shutdown_ok:
  assumes "manager_ok sx s"
  shows "manager_ok sx (server_shutdown sx s)"
proof -
  let ?s = "s\<lparr>mg_signals := mg_signals s - 1\<rparr>"
  have d: "drift s ?s" by simp
  have "manager_ok sx (close_and_finish sx ?s)"
    by (rule drift_manager [OF drift_connection(2) [OF d] shape_connection(2) assms])
  moreover have "manager_ok sx (finish_task p ?s)" if "mg_pending s = []" for p
    by (rule drift_manager [OF drift_pieces(4) [OF d] shape_pieces(1) assms]) (simp add: that)
  moreover have "mg_phase s = CoolingDown \<or> mg_phase s = Resting \<Longrightarrow> mg_pending s = []"
    using assms by (auto simp: manager_ok_def shape_def)
  ultimately show ?thesis using assms by (simp add: server_shutdown_def Let_def split: server_phase.split)
qed

lemma idle_pending: "manager_ok sx s \<Longrightarrow> mg_phase s \<noteq> Joined \<Longrightarrow> mg_phase s \<noteq> Refreshing \<Longrightarrow> mg_pending s = []"
  by (simp add: manager_ok_def shape_def)

lemma live_incoming_ok:
  assumes "manager_ok sx s" and "mg_phase s = Joined"
  shows "manager_ok sx (on_live_incoming sx inc s)"
proof -
  have gone: "manager_ok sx (after_connection sx (Inl e) s)" for e
    by (rule drift_manager [OF drift_connection(1) [OF drift_refl] shape_connection(1) assms(1)])
  have "manager_ok sx (on_live_frame sx parsed s)" for parsed
    using assms on_inbound_message_ok on_phx_reply_ok by (simp add: on_live_frame_def Let_def)
  with gone assms(1) show ?thesis
    by (simp add: on_live_incoming_def split: incoming.split sum.split WsFrame.split)
qed

lemma run_server_manager_ok:
  assumes ok: "manager_ok sx s"
  shows "manager_ok sx (run_server_manager sx e s)"
proof -
  have step: "drift s t \<Longrightarrow> shape t \<Longrightarrow> manager_ok sx t" for t using drift_manager ok by blast
  have shape: "shape s" using ok by (simp add: manager_ok_def)
  show ?thesis
  proof (cases e)
    case SvSleepDone
    then show ?thesis using ok idle_pending [OF ok]
      by (auto split: server_phase.split intro!: step drift_loop shape_loop)
  next
    case SvAuthDone
    then show ?thesis using ok idle_pending [OF ok]
      by (auto split: server_phase.split intro!: step drift_handlers auth_shape)
  next
    case (SvOpenDone r)
    show ?thesis
    proof (cases "mg_phase s = Opening")
      case True
      then have "mg_pending s = []" "\<not> task_over s" using idle_pending [OF ok] by (simp_all add: task_over_def)
      with SvOpenDone True join_shape(1) [OF shape] show ?thesis
        by (auto split: sum.split intro!: step drift_handlers drift_connection shape_connection)
    qed (use SvOpenDone ok in simp)
  next
    case (SvIncoming inc)
    show ?thesis
    proof (cases "mg_phase s")
      case (AwaitJoin i)
      then have "mg_pending s = []" "\<not> task_over s" using idle_pending [OF ok] by (simp_all add: task_over_def)
      with SvIncoming AwaitJoin join_shape(2) [OF shape] show ?thesis by (auto intro!: step drift_join)
    qed (use SvIncoming ok live_incoming_ok in simp_all)
  next
    case SvHeartbeat
    then show ?thesis using ok refresh_shape [OF shape] by (auto intro!: step drift_handlers)
  next
    case SvTakeShutdown
    then show ?thesis using shutdown_ok [OF ok] by simp
  next
    case SvTakeCommand
    then show ?thesis using ok on_server_command_ok by simp
  next
    case RouterTake
    then show ?thesis using router_take_ok [OF ok] by simp
  next
    case (RouterDone i ts)
    then show ?thesis using router_done_ok [OF ok] by simp
  qed (use ok in \<open>auto simp: manager_ok_def shape_def inbound_ok_def outbound_ok_def outstanding_def unanswered_def
      task_over_def other_wake_def can_send_def mg_act_def posted_grow acknowledged_grow\<close>)
qed

interpretation manager: event_machine "run_server_manager sx" "manager_ok sx" for sx
  by unfold_locales (rule run_server_manager_ok)

lemma load_recent_keeps:
  "st_pending_ids (fold insert_recent ids st) = st_pending_ids st"
  "st_discard_before_ts (fold insert_recent ids st) = st_discard_before_ts st"
  by (induction ids arbitrary: st) (simp_all add: insert_recent_def Let_def split: prod.split)

lemma start_ok:
  assumes "start_server_task sx now h ht status hooks = Inr s"
  shows "manager_ok sx s"
proof -
  from assms obtain st where st: "runtime_load (sx_codec sx) now (ho_fs h) (sv_runtime_path (sx_server sx))
       (rp_dedupe_window_size (sx_replay sx)) (rp_discard_before_ts (sx_replay sx)) = Inr st"
    by (auto simp: start_server_task_def rbind_Inr_iff)
  then have st': "st_pending_ids st = {}" "st_discard_before_ts st = rp_discard_before_ts (sx_replay sx)"
    by (auto simp: runtime_load_def empty_store_def store_of_file_def Let_def load_recent_keeps
        split: if_splits sum.splits option.splits)
  let ?s = "\<lparr>mg_phase = Resting, mg_backoff = rc_base_ms (sx_retry sx), mg_reached_live = False,
        mg_session = ActiveCurrent (session_new [] []) \<lparr>ni_name = [], ni_public_key = [], ni_signing_key = []\<rparr>,
        mg_rx = [], mg_rx_closed = False, mg_signals = 0, mg_pending = [], mg_host = h, mg_http = ht,
        mg_runtime = st, mg_wake = [], mg_wake_closed = False, mg_taken = [], mg_status = status,
        mg_hooks = hooks, mg_trace = []\<rparr>"
  have "s = server_loop_top sx ?s" using assms st by (simp add: start_server_task_def)
  moreover have "inbound_ok sx ?s" "outbound_ok sx ?s"
    using st' by (simp_all add: inbound_ok_def outbound_ok_def outstanding_def unanswered_def wake_capacity_def)
  ultimately show ?thesis
    using drift_manager' [OF drift_loop(2) [OF drift_refl] shape_loop(2)] by simp
qed

lemma run_ok:
  "start_server_task sx now h ht status hooks = Inr s \<Longrightarrow> manager_ok sx (server_run sx es s)"
  unfolding server_run_def by (rule manager.run_inv) (rule start_ok)

section \<open>Properties\<close>

text \<open>
  Claim C15. A message is in flight once: in every run of a server manager, whatever the server,
  the connection, the wake router and the other servers do, the messages of the server that are in
  the wake queue or with the router have distinct ids, these are exactly the pending ids of the
  runtime store, and the queue never exceeds its capacity; every message that was enqueued was
  written by another agent than the one of the session, has an id and a timestamp, and is not older
  than the configured floor.
\<close>

theorem inbound_in_flight_once:
  "case start_server_task sx now h ht status hooks of
     Inl e \<Rightarrow> True
   | Inr s0 \<Rightarrow>
       (let s = server_run sx es s0
        in distinct (map we_message_id (outstanding sx s))
           \<and> we_message_id ` set (outstanding sx s) = st_pending_ids (mg_runtime s)
           \<and> length (mg_wake s) \<le> 1000
           \<and> {env. \<exists>agent. SaEnqueue agent env \<in> set (mg_trace s) \<and> \<not> admissible sx agent env} = {})"
  using run_ok [of sx now h ht status hooks _ es]
  by (auto simp: manager_ok_def inbound_ok_def wake_capacity_def Let_def split: sum.split)

text \<open>
  Claim C18. Every outbound message is answered exactly once, and with success only on the word of
  the server: the accepted messages are, with multiplicity, those answered and those waiting, none
  waits once the manager is finished, and for a success with some idempotency key a frame with the
  text and the embeddings of the message under that key was pushed and answered with status \<open>ok\<close> under its
  reference, where a key given by the caller is the one used.
\<close>

theorem outbound_answered_once:
  "case start_server_task sx now h ht status hooks of
     Inl e \<Rightarrow> True
   | Inr s0 \<Rightarrow>
       (let s = server_run sx es s0
        in mset (sent (mg_trace s)) = mset (replied (mg_trace s)) + mset (unanswered s)
           \<and> (if task_over s then unanswered s = [] else True)
           \<and> {(r, res). SaReply r (Inr res) \<in> set (mg_trace s) \<and> \<not> acknowledged sx (mg_trace s) r res} = {})"
  using run_ok [of sx now h ht status hooks _ es]
  by (auto simp: manager_ok_def outbound_ok_def shape_def unanswered_def task_over_def Let_def
      split: sum.split server_phase.splits)

end
