(* ===== verification/Storage_Properties.thy ===== *)
theory Storage_Properties
  imports Storage_Invariant
begin

text \<open>
  The delivery store as a transition system: one step per operation of \<open>DeliveryStore\<close>, and one
  for what happens around it (time passes, accesses to the file fail or do not). The properties
  hold along every run.
\<close>

section \<open>Steps\<close>

text \<open>
  \<open>storage_step A\<close>: attempts and failures are only marked on deliveries in \<open>A\<close>.
\<close>

inductive storage_step :: "int set \<Rightarrow> database \<Rightarrow> database \<Rightarrow> bool" for A where
  ready: "storage_step A db (snd (ensure_ready store db))"
| decision: "storage_step A db (snd (record_attention_decision pj store env attention db))"
| db_sink: "storage_step A db (snd (record_db_sink_delivery pj store env attention sink routing db))"
| wake_sink: "storage_step A db (snd (queue_wake_sink_delivery pj store env attention snapshot routing db))"
| attempted: "d \<in> A \<Longrightarrow> storage_step A db (snd (mark_delivery_attempted store d db))"
| failed: "d \<in> A \<Longrightarrow> storage_step A db (snd (mark_delivery_failed store d err db))"
| delivered: "storage_step A db (snd (mark_delivery_delivered store d db))"
| reconcile: "storage_step A db (snd (reconcile_sink_targets pj store sinks key db))"
| counting: "storage_step A db (snd (counts store db))"
| environment: "storage_step A db (db\<lparr>db_steps := n, db_faults := faults, db_clocks := clocks\<rparr>)"

section \<open>Specifications of the operations\<close>

lemma spec_decision:
  "stmt_spec D (\<lambda>_. True) (record_attention_decision pj store env attention) (\<lambda>_ _. True)"
  unfolding record_attention_decision_def
proof (rule spec_with_schema [OF spec_andthen [OF spec_ingress_source] stable_const],
    rule spec_execute [OF steady_source], intro conjI)
  fix src db assume ok: "db_ok db" and src: "source_is (we_server_key env) src db"
  let ?r = "\<lparr>ad_ingress_source_id = src, ad_message_id = we_message_id env,
          ad_message_timestamp = we_timestamp env,
          ad_disposition = attention_disposition_str (ar_disposition attention),
          ad_delivery_eligible = ar_deliver attention,
          ad_attention_space_id = ar_space_id attention,
          ad_attention_fallback = ar_fallback attention,
          ad_veto_not_evaluated = ar_veto_not_evaluated attention,
          ad_evidence_json = pj (attention_evidence_json attention),
          ad_decided_at = db_clock db\<rparr>"
  let ?t = "upsert attention_decision_key merge_attention_decision ?r (db_attention_decision db)"
  have t: "decision.unique_ok ?t" using ok by (intro decision.unique_upsert) (simp add: db_ok_def)
  have "refs ad_ingress_source_id ?t (row_ids (db_ingress_source db))"
    using ok source_is_ids [OF src]
    by (intro refs_upsert) (simp_all add: db_ok_def merge_attention_decision_def)
  note set = set_attention_decision [OF ok t this]
  show "db_ok (db\<lparr>db_attention_decision := ?t\<rparr>)" "db_ext D db (db\<lparr>db_attention_decision := ?t\<rparr>)"
    by (rule set)+
qed simp

text \<open>The three rows behind a delivery: its event, its target and itself.\<close>

definition delivery_of :: "WakeEnvelope \<Rightarrow> string \<Rightarrow> int \<Rightarrow> int \<Rightarrow> database \<Rightarrow> bool" where
  "delivery_of env sink_key e d db \<longleftrightarrow>
     recorded env e db \<and> (\<exists>tg. target_is sink_key tg db \<and> delivery_is (e, tg) d db)"

lemma stable_delivery_of: "stable D (delivery_of env k e d)"
  using stable_recorded stable_target stable_delivery unfolding stable_def delivery_of_def by meson

lemma recorded_unique:
  assumes "db_ok db" and "recorded env e db" and "recorded env e' db"
  shows "e' = e"
proof -
  from assms(2) obtain src where "source_is (we_server_key env) src db" by (auto simp: recorded_def)
  with assms show ?thesis using recorded_lookup [OF assms(1)] by simp
qed

lemma delivery_of_unique:
  assumes "db_ok db" and "delivery_of env k e d db" and "delivery_of env k e' d' db"
  shows "e' = e \<and> d' = d"
proof -
  have e: "e' = e" using assms recorded_unique unfolding delivery_of_def by blast
  with assms target_is_unique [OF assms(1)] delivery_is_unique [OF assms(1)]
  show ?thesis unfolding delivery_of_def by metis
qed

lemma recorded_cong:
  assumes "we_server_key env' = we_server_key env" and "we_message_id env' = we_message_id env"
  shows "recorded env' = recorded env" "delivery_of env' = delivery_of env"
  using assms by (simp_all add: recorded_def delivery_of_def fun_eq_iff compute_event_idempotency_key_def)

text \<open>Event, target and delivery in sequence, as both sinks do it.\<close>

lemma spec_event_target_delivery:
  assumes "\<And>(ev :: EventRecord) d. stmt_spec D
      (\<lambda>db. delivery_of env (sn_sink_key snapshot) (ev_daemon_event_id ev) d db
         \<and> (\<forall>e0. old = Some e0 \<longrightarrow> ev_daemon_event_id ev = e0 \<and> \<not> ev_inserted ev)) (rest ev d) Q"
  shows "stmt_spec D (\<lambda>db. \<forall>e0. old = Some e0 \<longrightarrow> recorded env e0 db)
     (andthen (upsert_canonical_event pj env attention routing) (\<lambda>ev.
      andthen (upsert_sink_target snapshot) (\<lambda>tg.
      andthen (upsert_sink_delivery (ev_daemon_event_id ev) tg snapshot) (\<lambda>d. rest ev d)))) Q"
proof (rule spec_andthen [OF spec_canonical_event])
  fix ev :: EventRecord
  let ?e = "ev_daemon_event_id ev" and ?k = "sn_sink_key snapshot"
  let ?c = "\<forall>e0. old = Some e0 \<longrightarrow> ?e = e0 \<and> \<not> ev_inserted ev"
  have target: "stmt_spec D (\<lambda>db. recorded env ?e db \<and> ?c) (upsert_sink_target snapshot)
      (\<lambda>tg db. target_is ?k tg db \<and> recorded env ?e db \<and> ?c)"
    using spec_frame [OF spec_sink_target stable_conj [OF stable_recorded stable_const]]
    by (rule spec_conseq) auto
  have delivery: "stmt_spec D (\<lambda>db. target_is ?k tg db \<and> recorded env ?e db \<and> ?c)
      (upsert_sink_delivery ?e tg snapshot) (\<lambda>d db. delivery_of env ?k ?e d db \<and> ?c)" for tg
  proof (rule stmt_specI)
    fix db assume ok: "db_ok db" and pre: "target_is ?k tg db \<and> recorded env ?e db \<and> ?c"
    then have ids: "?e \<in> owned_events (db_event_idempotency db) \<and> tg \<in> row_ids (db_sink_target db)"
      using target_is_ids recorded_owned by blast
    let ?m = "upsert_sink_delivery ?e tg snapshot db"
    from spec_sink_delivery [of D ?e tg snapshot] ok ids
    have post: "db_ok (snd ?m)" "db_ext D db (snd ?m)"
      "\<And>d. fst ?m = Inr d \<Longrightarrow> delivery_is (?e, tg) d (snd ?m)"
      unfolding stmt_spec_def by blast+
    have "target_is ?k tg (snd ?m)" "recorded env ?e (snd ?m)"
      using pre ok post(1,2) stable_target stable_recorded unfolding stable_def by blast+
    with post pre show "db_ok (snd ?m) \<and> db_ext D db (snd ?m)
        \<and> (\<forall>d. fst ?m = Inr d \<longrightarrow> delivery_of env ?k ?e d (snd ?m) \<and> ?c)"
      unfolding delivery_of_def by blast
  qed
  show "stmt_spec D (\<lambda>db. recorded env ?e db \<and> ?c)
      (andthen (upsert_sink_target snapshot) (\<lambda>tg.
        andthen (upsert_sink_delivery ?e tg snapshot) (\<lambda>d. rest ev d))) Q"
    by (rule spec_andthen [OF target], rule spec_andthen [OF delivery], rule assms)
qed

lemma steady_delivery_of [intro]: "steady (delivery_of env k e d)"
  by (simp add: steady_def delivery_of_def recorded_def source_is_def target_is_def delivery_is_def)

lemma query_row_ret:
  assumes "fst (andthen (query_row f) (\<lambda>x. ret (g x)) db) = Inr y" and "\<And>n. f (db\<lparr>db_steps := n\<rparr>) = f db"
  shows "\<exists>x. f db = Some x \<and> y = g x"
proof -
  obtain r db' where q: "query_row f db = (r, db')" by fastforce
  with assms(1) obtain x where "r = Inr x" "y = g x" by (cases r) (auto simp: andthen_def ret_def)
  with query_row_fst [of f db x, OF _ assms(2)] q show ?thesis by auto
qed

lemma spec_ticket:
  "stmt_spec D
      (\<lambda>db. delivery_of env (sn_sink_key snapshot) (ev_daemon_event_id ev) d db
         \<and> (\<forall>e0. old = Some e0 \<longrightarrow> ev_daemon_event_id ev = e0 \<and> \<not> ev_inserted ev))
      (andthen (query_row (\<lambda>db. map_option (\<lambda>r. sd_status r = ''delivered'') (row_at d (db_sink_delivery db)))) (\<lambda>already.
        ret \<lparr>dt_daemon_event_id = ev_daemon_event_id ev, dt_delivery_id = d, dt_already_delivered = already\<rparr>))
      (\<lambda>tk db. delivery_of env (sn_sink_key snapshot) (dt_daemon_event_id tk) (dt_delivery_id tk) db
        \<and> (dt_already_delivered tk \<longleftrightarrow> delivered_at (dt_delivery_id tk) db)
        \<and> (\<forall>e0. old = Some e0 \<longrightarrow> dt_daemon_event_id tk = e0))"
proof (rule spec_reads)
  let ?m = "andthen (query_row (\<lambda>db. map_option (\<lambda>r. sd_status r = ''delivered'') (row_at d (db_sink_delivery db)))) (\<lambda>already.
        ret \<lparr>dt_daemon_event_id = ev_daemon_event_id ev, dt_delivery_id = d, dt_already_delivered = already\<rparr>)"
  show "reads ?m" by auto
  show "steady (\<lambda>db. delivery_of env (sn_sink_key snapshot) (dt_daemon_event_id tk) (dt_delivery_id tk) db
        \<and> (dt_already_delivered tk \<longleftrightarrow> delivered_at (dt_delivery_id tk) db)
        \<and> (\<forall>e0. old = Some e0 \<longrightarrow> dt_daemon_event_id tk = e0))" for tk
    using steady_delivery_of steady_delivery(3) by (simp add: steady_def)
  show "delivery_of env (sn_sink_key snapshot) (dt_daemon_event_id tk) (dt_delivery_id tk) db
        \<and> (dt_already_delivered tk \<longleftrightarrow> delivered_at (dt_delivery_id tk) db)
        \<and> (\<forall>e0. old = Some e0 \<longrightarrow> dt_daemon_event_id tk = e0)"
    if "delivery_of env (sn_sink_key snapshot) (ev_daemon_event_id ev) d db
         \<and> (\<forall>e0. old = Some e0 \<longrightarrow> ev_daemon_event_id ev = e0 \<and> \<not> ev_inserted ev)" "fst (?m db) = Inr tk" for db tk
  proof -
    from that(2) obtain r where r: "row_at d (db_sink_delivery db) = Some r"
      "tk = \<lparr>dt_daemon_event_id = ev_daemon_event_id ev, dt_delivery_id = d, dt_already_delivered = (sd_status r = ''delivered'')\<rparr>"
      by (auto dest!: query_row_ret)
    with that(1) show ?thesis by (simp add: delivered_at_def)
  qed
qed

lemma spec_queue_wake:
  "stmt_spec D (\<lambda>db. \<forall>e0. old = Some e0 \<longrightarrow> recorded env e0 db)
     (queue_wake_sink_delivery pj store env attention snapshot routing)
     (\<lambda>tk db. delivery_of env (sn_sink_key snapshot) (dt_daemon_event_id tk) (dt_delivery_id tk) db
        \<and> (dt_already_delivered tk \<longleftrightarrow> delivered_at (dt_delivery_id tk) db)
        \<and> (\<forall>e0. old = Some e0 \<longrightarrow> dt_daemon_event_id tk = e0))"
  unfolding queue_wake_sink_delivery_def
proof (rule spec_andthen [where R = "\<lambda>_ db. \<forall>e0. old = Some e0 \<longrightarrow> recorded env e0 db"])
  show "stmt_spec D (\<lambda>db. \<forall>e0. old = Some e0 \<longrightarrow> recorded env e0 db)
      (lift (ensure_receptor_accepted_for_sink_delivery attention))
      (\<lambda>_ db. \<forall>e0. old = Some e0 \<longrightarrow> recorded env e0 db)"
    by (rule spec_pure) (simp_all add: lift_def)
  have old: "stable D (\<lambda>db. \<forall>e0. old = Some e0 \<longrightarrow> recorded env e0 db)"
    using stable_recorded unfolding stable_def by blast
  show "stmt_spec D (\<lambda>db. \<forall>e0. old = Some e0 \<longrightarrow> recorded env e0 db)
      (with_connection (andthen (ensure_schema (ds_auto_migrate store)) (\<lambda>_.
        andthen (upsert_canonical_event pj env attention routing) (\<lambda>event.
        andthen (upsert_sink_target snapshot) (\<lambda>target_id.
        andthen (upsert_sink_delivery (ev_daemon_event_id event) target_id snapshot) (\<lambda>delivery_id.
        andthen (query_row (\<lambda>db. map_option (\<lambda>r. sd_status r = ''delivered'')
                                   (row_at delivery_id (db_sink_delivery db)))) (\<lambda>already.
        ret \<lparr>dt_daemon_event_id = ev_daemon_event_id event, dt_delivery_id = delivery_id,
             dt_already_delivered = already\<rparr>)))))))
     (\<lambda>tk db. delivery_of env (sn_sink_key snapshot) (dt_daemon_event_id tk) (dt_delivery_id tk) db
        \<and> (dt_already_delivered tk \<longleftrightarrow> delivered_at (dt_delivery_id tk) db)
        \<and> (\<forall>e0. old = Some e0 \<longrightarrow> dt_daemon_event_id tk = e0))"
    by (rule spec_with_schema [OF spec_event_target_delivery [OF spec_ticket] old])
qed

lemma spec_record_db:
  "stmt_spec D (\<lambda>db. \<forall>e0. old = Some e0 \<longrightarrow> recorded env e0 db)
     (record_db_sink_delivery pj store env attention sink routing)
     (\<lambda>ev db. recorded env (ev_daemon_event_id ev) db
        \<and> (\<forall>e0. old = Some e0 \<longrightarrow> ev_daemon_event_id ev = e0 \<and> \<not> ev_inserted ev))"
proof -
  let ?old = "\<lambda>db. \<forall>e0. old = Some e0 \<longrightarrow> recorded env e0 db"
  let ?Q = "\<lambda>ev db. recorded env (ev_daemon_event_id ev) db
        \<and> (\<forall>e0. old = Some e0 \<longrightarrow> ev_daemon_event_id ev = e0 \<and> \<not> ev_inserted ev)"
  have old: "stable D ?old" using stable_recorded unfolding stable_def by blast
  have mark: "stmt_spec D (\<lambda>_. True) (update_delivery d set_delivered) (\<lambda>_ _. True)" for d
    by (rule spec_update_delivery) (simp_all add: set_delivered_def sink_delivery_key_def)
  have rest: "stmt_spec D
      (\<lambda>db. delivery_of env (sn_sink_key snapshot) (ev_daemon_event_id ev) d db
         \<and> (\<forall>e0. old = Some e0 \<longrightarrow> ev_daemon_event_id ev = e0 \<and> \<not> ev_inserted ev))
      (andthen (update_delivery d set_delivered) (\<lambda>_. ret ev)) ?Q" for snapshot ev d
  proof (rule spec_andthen)
    show "stmt_spec D
      (\<lambda>db. delivery_of env (sn_sink_key snapshot) (ev_daemon_event_id ev) d db
         \<and> (\<forall>e0. old = Some e0 \<longrightarrow> ev_daemon_event_id ev = e0 \<and> \<not> ev_inserted ev))
      (update_delivery d set_delivered) (\<lambda>_. ?Q ev)"
      using spec_frame [OF mark stable_conj [OF stable_recorded stable_const]]
      by (rule spec_conseq) (auto simp: delivery_of_def)
  qed (auto intro: spec_ret)
  show ?thesis
    unfolding record_db_sink_delivery_def Let_def
  proof (rule spec_andthen [where R = "\<lambda>_. ?old"], rule spec_pure, simp add: lift_def, simp,
      rule spec_andthen [where R = "\<lambda>_. ?old"], rule spec_reads [OF reads_basic(3)], rule steady_all, rule steady_recorded, simp)
    show "stmt_spec D ?old
       (with_connection (andthen (ensure_schema (ds_auto_migrate store)) (\<lambda>_.
         andthen (upsert_canonical_event pj env attention routing) (\<lambda>event.
         andthen (upsert_sink_target (db_sink_snapshot pj store sink)) (\<lambda>target_id.
         andthen (upsert_sink_delivery (ev_daemon_event_id event) target_id
                    (db_sink_snapshot pj store sink)) (\<lambda>delivery_id.
         andthen (update_delivery delivery_id set_delivered) (\<lambda>_. ret event))))))) ?Q"
      by (rule spec_with_schema [OF spec_event_target_delivery old]) (rule rest)
  qed
qed

lemma spec_mark_delivered:
  "stmt_spec D (\<lambda>db. delivery_of env k e d db) (mark_delivery_delivered store d)
     (\<lambda>_ db. delivery_of env k e d db \<and> delivered_at d db)"
  unfolding mark_delivery_delivered_def
proof (rule spec_with_schema [OF _ stable_delivery_of])
  have upd: "stmt_spec D (\<lambda>_. True) (update_delivery d set_delivered) (\<lambda>_ _. True)"
    by (rule spec_update_delivery) (simp_all add: set_delivered_def sink_delivery_key_def)
  show "stmt_spec D (delivery_of env k e d) (update_delivery d set_delivered)
      (\<lambda>_ db. delivery_of env k e d db \<and> delivered_at d db)"
  proof (rule stmt_specI)
    fix db assume ok: "db_ok db" and pre: "delivery_of env k e d db"
    let ?m = "update_delivery d set_delivered db"
    have post: "db_ok (snd ?m)" "db_ext D db (snd ?m)"
      using upd ok unfolding stmt_spec_def by blast+
    then have "delivery_of env k e d (snd ?m)"
      using pre ok stable_delivery_of unfolding stable_def by blast
    moreover have "delivered_at d (snd ?m)" if "fst ?m = Inr x" for x
      using pre that
      by (auto simp: delivery_of_def delivery_is_def delivered_at_def update_delivery_def execute_def andthen_def
          access_def update_def row_at_update set_delivered_def split: option.splits)
    ultimately show "db_ok (snd ?m) \<and> db_ext D db (snd ?m)
        \<and> (\<forall>x. fst ?m = Inr x \<longrightarrow> delivery_of env k e d (snd ?m) \<and> delivered_at d (snd ?m))"
      using post by blast
  qed
qed

lemma spec_reconcile:
  "stmt_spec D (\<lambda>_. True) (reconcile_sink_targets pj store sinks key) (\<lambda>_ _. True)"
proof -
  have clear: "stmt_spec D (\<lambda>_. True) (clear_sink_target_disabled i) (\<lambda>_ _. True)" for i
    unfolding clear_sink_target_disabled_def by (rule spec_update_target) simp
  have disable: "stmt_spec D (\<lambda>_. True) (soft_disable_sink_target i reason) (\<lambda>_ _. True)" for i reason
    unfolding soft_disable_sink_target_def by (rule spec_update_target) simp
  have missing: "stmt_spec D (\<lambda>_. True) (soft_disable_missing_sink_targets sinks) (\<lambda>_ _. True)"
    unfolding soft_disable_missing_sink_targets_def by (rule spec_update_target) simp
  have one: "stmt_spec D (\<lambda>_. True) (reconcile_one pj store key sink) (\<lambda>_ _. True)" for sink
    unfolding reconcile_one_def Let_def
  proof (rule spec_andthen [OF spec_sink_target])
    fix i
    show "stmt_spec D (target_is (sn_sink_key \<lparr>sn_sink_key = sk_key sink, sn_sink_kind = sk_kind sink,
          sn_destination = sink_destination store sink key,
          sn_config_json = pj (sink_config_json store sink (sink_destination store sink key))\<rparr>) i)
        (if sk_enabled sink then clear_sink_target_disabled i
         else soft_disable_sink_target i ''sink disabled in config'') (\<lambda>_ _. True)"
      using clear [of i] disable [of i] by (auto intro: spec_conseq)
  qed
  show ?thesis
    unfolding reconcile_sink_targets_def
    by (rule spec_with_schema [OF spec_andthen [OF spec_for_each [OF one]] stable_const], rule missing)
qed

lemma spec_marks:
  assumes "d \<in> A"
  shows "stmt_spec A (\<lambda>_. True) (mark_delivery_attempted store d) (\<lambda>_ _. True)"
    and "stmt_spec A (\<lambda>_. True) (mark_delivery_failed store d err) (\<lambda>_ _. True)"
  using assms
  by (auto simp: mark_delivery_attempted_def mark_delivery_failed_def sink_delivery_key_def
      set_attempted_def set_failed_def intro!: spec_with_schema spec_update_delivery stable_const)

lemma spec_ready: "stmt_spec D (\<lambda>_. True) (ensure_ready store) (\<lambda>_ _. True)"
  unfolding ensure_ready_def with_connection_def
  by (intro spec_andthen [where R = "\<lambda>_ _. True"] spec_True reads_basic reads_access spec_ensure_schema)

lemma spec_counts: "stmt_spec D (\<lambda>_. True) (counts store) (\<lambda>_ _. True)"
proof -
  have "reads (table_counts fs)" for fs by (induction fs) auto
  then show ?thesis
    unfolding counts_def by (intro spec_with_schema [OF _ stable_const] spec_True)
qed

section \<open>Runs\<close>

lemma spec_state: "stmt_spec D (\<lambda>_. True) m Q \<Longrightarrow> db_ok db \<Longrightarrow> db_ok (snd (m db)) \<and> db_ext D db (snd (m db))"
  by (simp add: stmt_spec_def)

lemma storage_step_spec:
  assumes "storage_step A db db'" and "db_ok db"
  shows "db_ok db' \<and> db_ext A db db'"
  using assms
proof (induction rule: storage_step.induct)
  case (delivered db store d)
  have "stmt_spec A (\<lambda>_. True) (update_delivery d set_delivered) (\<lambda>_ _. True)"
    by (rule spec_update_delivery) (simp_all add: set_delivered_def sink_delivery_key_def)
  from spec_with_schema [OF this stable_const] delivered show ?case
    unfolding mark_delivery_delivered_def by (rule spec_state)
next
  case (environment db n faults clocks)
  then show ?case by (simp add: db_ok_def db_ext_def grows_refl)
next
  case (db_sink db pj store env attention sink routing)
  from spec_conseq [OF spec_record_db [where old = None]] db_sink show ?case
    by (intro spec_state) auto
next
  case (wake_sink db pj store env attention snapshot routing)
  from spec_conseq [OF spec_queue_wake [where old = None]] wake_sink show ?case
    by (intro spec_state) auto
qed ((rule spec_state [OF spec_ready] spec_state [OF spec_decision] spec_state [OF spec_reconcile]
      spec_state [OF spec_counts], assumption)
    | (rule spec_state [OF spec_marks(1)] spec_state [OF spec_marks(2)], assumption, assumption))+

lemma storage_run_spec:
  assumes "(storage_step A)\<^sup>*\<^sup>* db db'" and "db_ok db"
  shows "db_ok db' \<and> db_ext A db db'"
  using assms
proof (induction rule: rtranclp_induct)
  case base
  then show ?case by (simp add: db_ext_refl)
next
  case (step db1 db2)
  then show ?case using storage_step_spec by (blast intro: db_ext_trans)
qed

lemma run_stable:
  "(storage_step A)\<^sup>*\<^sup>* db db' \<Longrightarrow> db_ok db \<Longrightarrow> stable A S \<Longrightarrow> S db \<Longrightarrow> S db'"
  using storage_run_spec unfolding stable_def by blast

section \<open>Acceptance\<close>

text \<open>A veto class prints as \<open>veto\<close>, so that the string comparison is the class comparison.\<close>

lemma accepted_match_class:
  "rm_above_threshold m \<and> receptor_class_as_str (rm_class m) \<noteq> ''veto'' \<longleftrightarrow> accepted_match m"
  using receptor_class_veto_iff by (simp add: accepted_match_def)

lemma ensure_accepted_iff:
  "ensure_receptor_accepted_for_sink_delivery a = Inr () \<longleftrightarrow>
     ar_deliver a \<and> ar_disposition a = Deliver \<and> \<not> ar_veto_not_evaluated a \<and> \<not> ar_fallback a
     \<and> (\<exists>m\<in>set (ar_matches a). accepted_match m)"
  by (auto simp: ensure_receptor_accepted_for_sink_delivery_def result_iffs list_ex_iff
      accepted_match_class)

lemma refused_unchanged:
  assumes "ensure_receptor_accepted_for_sink_delivery a \<noteq> Inr ()"
  shows "\<exists>e. queue_wake_sink_delivery pj store env a snapshot routing db = (Inl e, db)"
    and "\<exists>e. record_db_sink_delivery pj store env a sink routing db = (Inl e, db)"
  using assms
  by (auto simp: queue_wake_sink_delivery_def record_db_sink_delivery_def andthen_def lift_def
      split: sum.splits)

text \<open>An operation that fails in every state, and what it makes of the operations around it.\<close>

definition never_ok :: "('s, 'a) op \<Rightarrow> bool" where
  "never_ok m \<longleftrightarrow> (\<forall>s. \<not> is_ok (fst (m s)))"

lemma never_andthen1: "never_ok m \<Longrightarrow> never_ok (andthen m f)"
  by (auto simp: never_ok_def andthen_def is_ok_iff split: prod.splits sum.splits)
    (metis fst_conv)

lemma never_andthen2: "(\<And>x. never_ok (f x)) \<Longrightarrow> never_ok (andthen m f)"
  by (auto simp: never_ok_def andthen_def is_ok_iff split: prod.splits sum.splits)

lemma never_for_each:
  assumes "never_ok (f m)" and "m \<in> set ms"
  shows "never_ok (for_each f ms)"
  using assms(2)
proof (induction ms)
  case Nil
  then show ?case by simp
next
  case (Cons x ms)
  then show ?case
    using assms(1) by (cases "x = m") (auto intro: never_andthen1 never_andthen2)
qed

section \<open>Sink targets after a reconciliation\<close>

definition target_enabled :: "string \<Rightarrow> bool \<Rightarrow> database \<Rightarrow> bool" where
  "target_enabled k b db \<longleftrightarrow>
     (\<exists>i r. row_at i (db_sink_target db) = Some r \<and> tg_sink_key r = k \<and> (tg_disabled_at r = None \<longleftrightarrow> b))"

lemma upsert_sink_target_rows:
  assumes ok: "db_ok db" and m: "upsert_sink_target snapshot db = (Inr i, db')"
  shows "db_ok db'" "target_is (sn_sink_key snapshot) i db'"
    and "row_at j (db_sink_target db) = Some r \<Longrightarrow> tg_sink_key r \<noteq> sn_sink_key snapshot \<Longrightarrow>
      row_at j (db_sink_target db') = Some r"
proof -
  have spec: "stmt_spec {} (\<lambda>_. True) (upsert_sink_target snapshot) (target_is (sn_sink_key snapshot))"
    by (rule spec_sink_target)
  show "db_ok db'" "target_is (sn_sink_key snapshot) i db'"
    using spec ok m unfolding stmt_spec_def by (metis fst_conv snd_conv)+
  show "row_at j (db_sink_target db') = Some r"
    if "row_at j (db_sink_target db) = Some r" "tg_sink_key r \<noteq> sn_sink_key snapshot"
  proof -
    let ?db1 = "db\<lparr>db_steps := Suc (db_steps db)\<rparr>"
    let ?new = "\<lparr>tg_sink_key = sn_sink_key snapshot,
        tg_sink_kind = sink_kind_as_str (sn_sink_kind snapshot),
        tg_destination = sn_destination snapshot, tg_config_json = sn_config_json snapshot,
        tg_disabled_at = None, tg_disabled_reason = None, tg_created_at = db_clock ?db1,
        tg_updated_at = db_clock ?db1\<rparr>"
    have "db_sink_target db' = upsert tg_sink_key merge_sink_target ?new (db_sink_target db)"
      using m by (auto simp: upsert_sink_target_def andthen_Inr_iff lift_def execute_Inr_iff query_row_def select_Inr_iff)
    then show ?thesis
      using that ok target.upsert_other_rows [of "db_sink_target db" j r] by (simp add: db_ok_def)
  qed
qed

lemma reconcile_one_effect:
  assumes ok: "db_ok db" and m: "reconcile_one pj store key s db = (Inr (), db')"
  shows "db_ok db' \<and> target_enabled (sk_key s) (sk_enabled s) db'"
    and "k \<noteq> sk_key s \<Longrightarrow> target_enabled k b db \<Longrightarrow> target_enabled k b db'"
proof -
  obtain i db1 snapshot where up: "upsert_sink_target snapshot db = (Inr i, db1)"
    and key: "sn_sink_key snapshot = sk_key s"
    and rest: "(if sk_enabled s then clear_sink_target_disabled i
         else soft_disable_sink_target i ''sink disabled in config'') db1 = (Inr (), db')"
    using m unfolding reconcile_one_def Let_def andthen_Inr_iff by fastforce
  note rows = upsert_sink_target_rows [OF ok up, unfolded key]
  obtain f where f: "db_sink_target db' = update_where (\<lambda>j _. j = i) f (db_sink_target db1)"
    "\<And>r. tg_sink_key (f r) = tg_sink_key r \<and> (tg_disabled_at (f r) = None \<longleftrightarrow> sk_enabled s)"
    and ok': "db_ok db'"
  proof (cases "sk_enabled s")
    case True
    with rest have cleared: "clear_sink_target_disabled i db1 = (Inr (), db')" by simp
    then have eq: "db' = snd (clear_sink_target_disabled i db1)" by simp
    have "stmt_spec {} (\<lambda>_. True) (clear_sink_target_disabled i) (\<lambda>_ _. True)"
      unfolding clear_sink_target_disabled_def by (rule spec_update_target) simp
    from spec_state [OF this rows(1)] have "db_ok db'" by (simp add: eq)
    then show thesis
      using True cleared by (intro that [of "\<lambda>r. r\<lparr>tg_disabled_at := None, tg_disabled_reason := None,
          tg_updated_at := db_clock (db1\<lparr>db_steps := Suc (db_steps db1)\<rparr>)\<rparr>"])
        (auto simp: clear_sink_target_disabled_def update_target_def execute_Inr_iff)
  next
    case False
    with rest have disabled: "soft_disable_sink_target i ''sink disabled in config'' db1 = (Inr (), db')" by simp
    then have eq: "db' = snd (soft_disable_sink_target i ''sink disabled in config'' db1)" by simp
    have "stmt_spec {} (\<lambda>_. True) (soft_disable_sink_target i ''sink disabled in config'') (\<lambda>_ _. True)"
      unfolding soft_disable_sink_target_def by (rule spec_update_target) simp
    from spec_state [OF this rows(1)] have "db_ok db'" by (simp add: eq)
    then show thesis
      using False disabled by (intro that [of "\<lambda>r. r\<lparr>tg_disabled_at := coalesce (tg_disabled_at r)
            (db_clock (db1\<lparr>db_steps := Suc (db_steps db1)\<rparr>)),
          tg_disabled_reason := Some ''sink disabled in config'',
          tg_updated_at := db_clock (db1\<lparr>db_steps := Suc (db_steps db1)\<rparr>)\<rparr>"])
        (auto simp: soft_disable_sink_target_def update_target_def execute_Inr_iff coalesce_def
          split: option.splits)
  qed
  from rows(2) f(2) show "db_ok db' \<and> target_enabled (sk_key s) (sk_enabled s) db'"
    using ok' by (fastforce simp: target_is_def target_enabled_def f(1) row_at_update)
  show "target_enabled k b db'" if k: "k \<noteq> sk_key s" "target_enabled k b db"
  proof -
    from k obtain j r where r: "row_at j (db_sink_target db) = Some r" "tg_sink_key r = k"
      "tg_disabled_at r = None \<longleftrightarrow> b" by (auto simp: target_enabled_def)
    with rows(3) k have j1: "row_at j (db_sink_target db1) = Some r" by simp
    with rows(2) r k have "j \<noteq> i" by (auto simp: target_is_def)
    with j1 r show ?thesis by (auto simp: target_enabled_def f(1) row_at_update)
  qed
qed

lemma reconcile_all_effect:
  assumes "db_ok db" and "for_each (reconcile_one pj store key) sinks db = (Inr (), db')"
    and "distinct (map sk_key sinks)"
  shows "db_ok db' \<and> (\<forall>s\<in>set sinks. target_enabled (sk_key s) (sk_enabled s) db')
    \<and> (\<forall>k b. k \<notin> sk_key ` set sinks \<longrightarrow> target_enabled k b db \<longrightarrow> target_enabled k b db')"
  using assms
proof (induction sinks arbitrary: db)
  case Nil
  then show ?case by (simp add: ret_def)
next
  case (Cons s sinks)
  then obtain db1 where one: "reconcile_one pj store key s db = (Inr (), db1)"
    and rest: "for_each (reconcile_one pj store key) sinks db1 = (Inr (), db')"
    by (auto simp: andthen_Inr_iff)
  note eff = reconcile_one_effect [OF Cons.prems(1) one]
  from Cons.IH [OF conjunct1 [OF eff(1)] rest] Cons.prems(3) eff show ?case by auto
qed

lemma never_ok_nan:
  assumes "m \<in> set (ar_matches attention)" and "rm_score m = FNaN"
  shows "never_ok (queue_wake_sink_delivery pj store env attention snapshot routing)"
    and "never_ok (record_db_sink_delivery pj store env attention sink routing)"
proof -
  have one: "never_ok (upsert_receptor_match pj e routing m)" for e
    unfolding upsert_receptor_match_def by (rule never_andthen2) (simp add: never_ok_def assms(2))
  have matches: "never_ok (upsert_receptor_matches pj e attention routing)" for e
    unfolding upsert_receptor_matches_def using never_for_each [of _ m] one assms(1) by blast
  have event: "never_ok (upsert_canonical_event pj env attention routing)"
    unfolding upsert_canonical_event_def Let_def
  proof (rule never_andthen2, rule never_andthen2)
    fix src existing
    show "never_ok (case existing of
          Some existing_id \<Rightarrow>
            andthen (upsert_receptor_matches pj existing_id attention routing)
              (\<lambda>_. ret \<lparr>ev_daemon_event_id = existing_id, ev_inserted = False\<rparr>)
        | None \<Rightarrow>
            andthen (insert_daemon_event pj src env attention) (\<lambda>event_id.
            andthen (insert_event_idempotency src (compute_event_idempotency_key env) event_id) (\<lambda>_.
            andthen (upsert_receptor_matches pj event_id attention routing) (\<lambda>_.
            ret \<lparr>ev_daemon_event_id = event_id, ev_inserted = True\<rparr>))))"
      using matches by (cases existing) (simp_all add: never_andthen1 never_andthen2)
  qed
  show "never_ok (queue_wake_sink_delivery pj store env attention snapshot routing)"
    unfolding queue_wake_sink_delivery_def with_connection_def
    by (rule never_andthen2, rule never_andthen2, rule never_andthen2, rule never_andthen1 [OF event])
  show "never_ok (record_db_sink_delivery pj store env attention sink routing)"
    unfolding record_db_sink_delivery_def with_connection_def
    by (rule never_andthen2, rule never_andthen2, rule never_andthen2, rule never_andthen2,
        rule never_andthen1 [OF event])
qed

section \<open>Properties\<close>

text \<open>
  Claim C8. Integrity of the database: after any sequence of store operations, successful or
  failing midway, on a fresh database, the unique keys of all tables are unique and every
  reference points to an existing row, so that none of the foreign key checks can fail; an event
  belongs to at most one message, and the event of a delivery to exactly one.
\<close>

theorem storage_integrity:
  assumes "(storage_step UNIV)\<^sup>*\<^sup>* (fresh_database faults clocks) db"
  shows "db_ok db"
  using storage_run_spec [OF assms fresh_database_ok] by simp

definition demo_delivery_store :: DeliveryStore where
  "demo_delivery_store =
     \<lparr>ds_database_path = ''/d.sqlite3'', ds_artifact_root = ''/a'', ds_auto_migrate = True\<rparr>"

definition demo_sink :: SinkConfig where
  "demo_sink = \<lparr>sk_key = ''db'', sk_kind = Db, sk_enabled = True, sk_destination = None\<rparr>"

definition demo_envelope :: "MessageEmbedding list \<Rightarrow> AttentionLayer \<Rightarrow> WakeEnvelope" where
  "demo_envelope es layer =
     \<lparr>we_server = ''https://s'', we_server_key = ''k'', we_message_id = ''m1'', we_timestamp = ''t'',
      we_inbound_event = ''new_message'', we_author_id = ''a'', we_author_name = [], we_text = ''hi'',
      we_sender_embeddings = es, we_attention = layer, we_runtime = 0,
      we_wake_session_key_override = None\<rparr>"

definition demo_database :: database where
  "demo_database = fresh_database (\<lambda>_. None) (\<lambda>_. ''now'')"

definition demo_snapshot :: SinkSnapshot where
  "demo_snapshot =
     \<lparr>sn_sink_key = ''wake'', sn_sink_kind = AgentSessionWake, sn_destination = ''agent'',
      sn_config_json = []\<rparr>"

definition demo_routing :: RoutingSnapshot where
  "demo_routing = \<lparr>ro_candidate_sinks = [], ro_selected_sinks = []\<rparr>"

definition demo_accepted_result :: AttentionResult where
  "demo_accepted_result =
     \<lparr>ar_deliver = True,
      ar_matches = [\<lparr>rm_receptor_id = ''all'', rm_class = Wildcard, rm_score = FFin 1,
                     rm_threshold = FFin 1, rm_above_threshold = True\<rparr>],
      ar_space_id = None, ar_fallback = False, ar_disposition = Deliver,
      ar_veto_not_evaluated = False\<rparr>"

abbreviation demo_record :: "database \<Rightarrow> EventRecord result \<times> database" where
  "demo_record \<equiv> record_db_sink_delivery (\<lambda>_. ''{}'') demo_delivery_store
     (demo_envelope [] passthrough) demo_accepted_result demo_sink demo_routing"

abbreviation demo_queue :: "database \<Rightarrow> DeliveryTicket result \<times> database" where
  "demo_queue \<equiv> queue_wake_sink_delivery (\<lambda>_. ''{}'') demo_delivery_store
     (demo_envelope [] passthrough) demo_accepted_result demo_snapshot demo_routing"

theorem storage_integrity_witness:
  "db_ok (snd (demo_record demo_database))"
proof (rule storage_integrity)
  show "(storage_step UNIV)\<^sup>*\<^sup>* (fresh_database (\<lambda>_. None) (\<lambda>_. ''now'')) (snd (demo_record demo_database))"
    unfolding demo_database_def by (rule r_into_rtranclp) (rule storage_step.db_sink)
qed

text \<open>
  Claim C23. One event per message: once a message was recorded, it keeps its event. After any
  further operations, recording it again, with whatever content but the same server key and
  message id, finds the same event and inserts none, and queueing a wake for it refers to it.
\<close>

theorem one_event_per_message:
  assumes ok: "db_ok db"
    and first: "record_db_sink_delivery pj store env attention sink routing db = (Inr ev, db1)"
    and run: "(storage_step UNIV)\<^sup>*\<^sup>* db1 db2"
    and same: "we_server_key env' = we_server_key env" "we_message_id env' = we_message_id env"
  shows "(\<forall>ev' db3. record_db_sink_delivery pj' store' env' attention' sink' routing' db2 = (Inr ev', db3)
            \<longrightarrow> ev_daemon_event_id ev' = ev_daemon_event_id ev \<and> \<not> ev_inserted ev')
       \<and> (\<forall>tk db3. queue_wake_sink_delivery pj' store' env' attention' snapshot' routing' db2 = (Inr tk, db3)
            \<longrightarrow> dt_daemon_event_id tk = ev_daemon_event_id ev)"
proof -
  let ?e = "ev_daemon_event_id ev"
  have one: "db_ok db1 \<and> recorded env ?e db1"
    using spec_record_db [of UNIV None env pj store attention sink routing] ok first
    unfolding stmt_spec_def by (metis fst_conv option.distinct(1) snd_conv)
  then have ok2: "db_ok db2" and rec: "recorded env' ?e db2"
    using storage_run_spec [OF run] run_stable [OF run _ stable_recorded, of env ?e]
      recorded_cong(1) [OF same] by auto
  show ?thesis
    using spec_record_db [of UNIV "Some ?e" env' pj' store' attention' sink' routing']
      spec_queue_wake [of UNIV "Some ?e" env' pj' store' attention' snapshot' routing'] ok2 rec
    unfolding stmt_spec_def by (metis fst_conv option.inject snd_conv)
qed

lemma demo_record_runs:
  "\<exists>ev db1 ev' db2. demo_record demo_database = (Inr ev, db1) \<and> ev_inserted ev
     \<and> demo_record db1 = (Inr ev', db2)"
proof -
  have "is_ok (fst (demo_record demo_database)) \<and> is_ok (fst (demo_record (snd (demo_record demo_database))))
      \<and> map_sum id ev_inserted (fst (demo_record demo_database)) = Inr True"
    by code_simp
  then show ?thesis by (cases "demo_record demo_database"; cases "demo_record (snd (demo_record demo_database))")
      (auto simp: is_ok_iff)
qed

theorem one_event_per_message_witness:
  "\<exists>ev db1 ev' db2. demo_record demo_database = (Inr ev, db1) \<and> demo_record db1 = (Inr ev', db2)
     \<and> ev_daemon_event_id ev' = ev_daemon_event_id ev \<and> \<not> ev_inserted ev'"
proof -
  from demo_record_runs obtain ev db1 ev' db2 where
    runs: "demo_record demo_database = (Inr ev, db1)" "demo_record db1 = (Inr ev', db2)" by blast
  have "db_ok demo_database" by (simp add: demo_database_def fresh_database_ok)
  from one_event_per_message [OF this runs(1) rtranclp.rtrancl_refl refl refl] runs
  show ?thesis by blast
qed

text \<open>
  A delivered wake is recognised: once the delivery of a message to a sink was marked
  delivered, every later request to queue the same message for the same sink key returns the same
  delivery and reports it as already delivered, after any other operations in between, as long as
  nobody marks that very delivery as attempted or failed again.
\<close>

theorem delivered_wake_recognised:
  assumes ok: "db_ok db"
    and queued: "queue_wake_sink_delivery pj store env attention snapshot routing db = (Inr tk, db1)"
    and before: "(storage_step UNIV)\<^sup>*\<^sup>* db1 db2"
    and marked: "mark_delivery_delivered store (dt_delivery_id tk) db2 = (Inr (), db3)"
    and after: "(storage_step (- {dt_delivery_id tk}))\<^sup>*\<^sup>* db3 db4"
    and same: "we_server_key env' = we_server_key env" "we_message_id env' = we_message_id env"
      "sn_sink_key snapshot' = sn_sink_key snapshot"
    and again: "queue_wake_sink_delivery pj' store' env' attention' snapshot' routing' db4 = (Inr tk', db5)"
  shows "dt_delivery_id tk' = dt_delivery_id tk \<and> dt_already_delivered tk'"
proof -
  let ?d = "dt_delivery_id tk" and ?e = "dt_daemon_event_id tk" and ?k = "sn_sink_key snapshot"
  have one: "db_ok db1 \<and> delivery_of env ?k ?e ?d db1"
    using spec_queue_wake [of UNIV None env pj store attention snapshot routing] ok queued
    unfolding stmt_spec_def by (metis fst_conv option.distinct(1) snd_conv)
  then have two: "db_ok db2" "delivery_of env ?k ?e ?d db2"
    using storage_run_spec [OF before] run_stable [OF before _ stable_delivery_of] by blast+
  then have three: "db_ok db3" "delivery_of env ?k ?e ?d db3" "delivered_at ?d db3"
    using spec_mark_delivered [of UNIV env ?k ?e ?d store] marked
    unfolding stmt_spec_def by (metis fst_conv snd_conv)+
  have "stable (- {?d}) (delivered_at ?d)" by (rule stable_delivered) simp
  then have four: "db_ok db4" "delivery_of env ?k ?e ?d db4" "delivered_at ?d db4"
    using storage_run_spec [OF after] run_stable [OF after _ stable_delivery_of]
      run_stable [OF after] three by blast+
  have five: "db_ok db5" "db_ext (- {?d}) db4 db5"
    "delivery_of env' ?k (dt_daemon_event_id tk') (dt_delivery_id tk') db5"
    "dt_already_delivered tk' \<longleftrightarrow> delivered_at (dt_delivery_id tk') db5"
    using spec_queue_wake [of "- {?d}" None env' pj' store' attention' snapshot' routing']
      four(1) again same(3)
    unfolding stmt_spec_def by (metis fst_conv option.distinct(1) snd_conv)+
  have "delivery_of env ?k ?e ?d db5" "delivered_at ?d db5"
    using five(1,2) four stable_delivery_of \<open>stable (- {?d}) (delivered_at ?d)\<close>
    unfolding stable_def by blast+
  with five delivery_of_unique [OF five(1)] recorded_cong(2) [OF same(1,2)] show ?thesis by metis
qed

lemma demo_queue_runs:
  "\<exists>tk db1 db2 tk' db3. demo_queue demo_database = (Inr tk, db1)
     \<and> mark_delivery_delivered demo_delivery_store (dt_delivery_id tk) db1 = (Inr (), db2)
     \<and> demo_queue db2 = (Inr tk', db3)"
proof -
  let ?m = "mark_delivery_delivered demo_delivery_store 1"
  let ?db1 = "snd (demo_queue demo_database)"
  have q: "map_sum id dt_delivery_id (fst (demo_queue demo_database)) = Inr 1" by code_simp
  have m: "fst (?m ?db1) = Inr ()" by code_simp
  have a: "is_ok (fst (demo_queue (snd (?m ?db1))))" by code_simp
  from q obtain tk where tk: "demo_queue demo_database = (Inr tk, ?db1)" "dt_delivery_id tk = 1"
    by (cases "demo_queue demo_database"; cases "fst (demo_queue demo_database)") auto
  from a obtain tk' db3 where "demo_queue (snd (?m ?db1)) = (Inr tk', db3)"
    by (cases "demo_queue (snd (?m ?db1))") (auto simp: is_ok_iff)
  with tk m show ?thesis by (metis prod.collapse)
qed

theorem delivered_wake_recognised_witness:
  "\<exists>tk db1 db2 tk' db3. demo_queue demo_database = (Inr tk, db1)
     \<and> mark_delivery_delivered demo_delivery_store (dt_delivery_id tk) db1 = (Inr (), db2)
     \<and> demo_queue db2 = (Inr tk', db3) \<and> dt_already_delivered tk'"
proof -
  from demo_queue_runs obtain tk db1 db2 tk' db3 where
    runs: "demo_queue demo_database = (Inr tk, db1)"
      "mark_delivery_delivered demo_delivery_store (dt_delivery_id tk) db1 = (Inr (), db2)"
      "demo_queue db2 = (Inr tk', db3)" by blast
  have "db_ok demo_database" by (simp add: demo_database_def fresh_database_ok)
  from delivered_wake_recognised [OF this runs(1) rtranclp.rtrancl_refl runs(2)
      rtranclp.rtrancl_refl refl refl refl runs(3)] runs
  show ?thesis by blast
qed

text \<open>
  The sinks only accept what the attention layer delivers: the check in front of both
  sink operations passes exactly for evaluation results that deliver, and for any other result
  both operations leave the database as it was.
\<close>

theorem sink_gate_is_attention_decision:
  "(ensure_receptor_accepted_for_sink_delivery (evaluate_with_embeddings layer supplied) = Inr ()
      \<longleftrightarrow> ar_deliver (evaluate_with_embeddings layer supplied))
   \<and> (ar_deliver (evaluate_with_embeddings layer supplied)
      \<or> snd (queue_wake_sink_delivery pj store env (evaluate_with_embeddings layer supplied)
               snapshot routing db) = db
        \<and> snd (record_db_sink_delivery pj store env (evaluate_with_embeddings layer supplied)
               sink routing db) = db)"
proof -
  let ?a = "evaluate_with_embeddings layer supplied"
  have iff: "ensure_receptor_accepted_for_sink_delivery ?a = Inr () \<longleftrightarrow> ar_deliver ?a"
    using evaluate_deliver_record [of layer supplied] by (auto simp: ensure_accepted_iff)
  show ?thesis
  proof (cases "ar_deliver ?a")
    case False
    with iff have "ensure_receptor_accepted_for_sink_delivery ?a \<noteq> Inr ()" by simp
    from refused_unchanged [OF this] iff False show ?thesis by (metis snd_conv)
  qed (use iff in simp)
qed

lemma reconcile_outcome:
  assumes ok: "db_ok db" and keys: "distinct (map sk_key sinks)"
    and run: "reconcile_sink_targets pj store sinks key db = (Inr (), db')"
  shows "db_ok db'"
    and "s \<in> set sinks \<Longrightarrow> target_enabled (sk_key s) (sk_enabled s) db'"
    and "row_at i (db_sink_target db') = Some r \<Longrightarrow> tg_sink_key r \<notin> set (map sk_key sinks) \<Longrightarrow> tg_disabled_at r \<noteq> None"
proof -
  obtain db0 db1 db2 where access: "access db = (Inr (), db0)"
    and schema: "ensure_schema (ds_auto_migrate store) db0 = (Inr (), db1)"
    and all: "for_each (reconcile_one pj store key) sinks db1 = (Inr (), db2)"
    and missing: "soft_disable_missing_sink_targets sinks db2 = (Inr (), db')"
    using run by (auto simp: reconcile_sink_targets_def with_connection_def andthen_Inr_iff)
  from access ok have "db_ok db0" by (simp add: access_Inr_iff)
  then have "db_ok db1" using spec_state [OF spec_ensure_schema] schema by (metis snd_conv)
  note eff = reconcile_all_effect [OF this all keys]
  have "stmt_spec {} (\<lambda>_. True) (soft_disable_missing_sink_targets sinks) (\<lambda>_ _. True)"
    unfolding soft_disable_missing_sink_targets_def by (rule spec_update_target) simp
  from spec_state [OF this] eff missing show "db_ok db'" by (metis snd_conv)
  let ?db2 = "db2\<lparr>db_steps := Suc (db_steps db2)\<rparr>"
  let ?f = "\<lambda>r. r\<lparr>tg_disabled_at := coalesce (tg_disabled_at r) (db_clock ?db2),
                tg_disabled_reason := coalesce (tg_disabled_reason r) ''sink removed from config'',
                tg_updated_at := db_clock ?db2\<rparr>"
  have rows: "db_sink_target db' = update_where
      (\<lambda>_ r. tg_sink_key r \<notin> set (map sk_key sinks) \<and> tg_disabled_at r = None) ?f (db_sink_target db2)"
    using missing by (auto simp: soft_disable_missing_sink_targets_def update_target_def execute_Inr_iff)
  show "target_enabled (sk_key s) (sk_enabled s) db'" if s: "s \<in> set sinks"
  proof -
    from eff s have "target_enabled (sk_key s) (sk_enabled s) db2" by simp
    then obtain i r where "row_at i (db_sink_target db2) = Some r" "tg_sink_key r = sk_key s"
      "tg_disabled_at r = None \<longleftrightarrow> sk_enabled s" by (auto simp: target_enabled_def)
    moreover from this s have "row_at i (db_sink_target db') = Some r"
      by (simp add: rows row_at_update)
    ultimately show ?thesis unfolding target_enabled_def by metis
  qed
  show "tg_disabled_at r \<noteq> None"
    if r: "row_at i (db_sink_target db') = Some r" "tg_sink_key r \<notin> set (map sk_key sinks)"
  proof -
    from r(1) obtain z where
      z: "r = (if tg_sink_key z \<notin> set (map sk_key sinks) \<and> tg_disabled_at z = None then ?f z else z)"
      unfolding rows row_at_update by (auto simp del: set_map)
    have "tg_sink_key r = tg_sink_key z" by (simp add: z)
    with r(2) show ?thesis by (cases "tg_disabled_at z = None") (simp_all add: z coalesce_def)
  qed
qed

text \<open>
  Claim C27. After a successful reconciliation the targets mirror the configuration: a target is
  enabled if and only if an enabled sink with its key is configured, and every configured sink
  has a target. Targets of removed sinks are kept, disabled.
\<close>

theorem reconcile_mirrors_config:
  assumes ok: "db_ok db" and keys: "distinct (map sk_key sinks)"
    and run: "reconcile_sink_targets pj store sinks key db = (Inr (), db')"
  shows "(\<forall>i r. row_at i (db_sink_target db') = Some r \<longrightarrow>
            (tg_disabled_at r = None \<longleftrightarrow> (\<exists>s\<in>set sinks. sk_key s = tg_sink_key r \<and> sk_enabled s)))
       \<and> (\<forall>s\<in>set sinks. \<exists>i. target_is (sk_key s) i db')"
proof -
  note outcome = reconcile_outcome [OF ok keys run]
  have "tg_disabled_at r = None \<longleftrightarrow> (\<exists>s\<in>set sinks. sk_key s = tg_sink_key r \<and> sk_enabled s)"
    if r: "row_at i (db_sink_target db') = Some r" for i r
  proof (cases "tg_sink_key r \<in> set (map sk_key sinks)")
    case True
    then obtain s where s: "s \<in> set sinks" "sk_key s = tg_sink_key r" by auto
    from outcome(2) [OF s(1)] obtain j r' where r': "row_at j (db_sink_target db') = Some r'"
      "tg_sink_key r' = sk_key s" "tg_disabled_at r' = None \<longleftrightarrow> sk_enabled s"
      by (auto simp: target_enabled_def)
    with target.key_unique [of "db_sink_target db'" i r j r'] r s outcome(1) have "r' = r"
      by (simp add: db_ok_def)
    moreover have "s' = s" if "s' \<in> set sinks" "sk_key s' = sk_key s" for s'
      using that s keys by (auto simp: distinct_map inj_on_def)
    ultimately show ?thesis using r' s by metis
  next
    case False
    then have "\<not> (\<exists>s\<in>set sinks. sk_key s = tg_sink_key r)" by (auto simp: image_iff)
    with outcome(3) [OF r False] show ?thesis by blast
  qed
  with outcome(2) show ?thesis by (fastforce simp: target_enabled_def target_is_def)
qed

theorem reconcile_mirrors_config_witness:
  "\<exists>db'. reconcile_sink_targets (\<lambda>_. ''{}'') demo_delivery_store [demo_sink] ''agent'' demo_database
           = (Inr (), db')
     \<and> (\<exists>i. target_is ''db'' i db')"
proof -
  have ok: "db_ok demo_database" by (simp add: demo_database_def fresh_database_ok)
  have "fst (reconcile_sink_targets (\<lambda>_. ''{}'') demo_delivery_store [demo_sink] ''agent'' demo_database)
      = Inr ()"
    by code_simp
  then obtain db' where run: "reconcile_sink_targets (\<lambda>_. ''{}'') demo_delivery_store [demo_sink] ''agent''
      demo_database = (Inr (), db')"
    by (metis prod.collapse)
  have "distinct (map sk_key [demo_sink])" by simp
  from reconcile_mirrors_config [OF ok this run] have "\<exists>i. target_is (sk_key demo_sink) i db'" by simp
  with run show ?thesis by (auto simp: demo_sink_def)
qed

text \<open>
  A match whose score is NaN cannot be stored: with such a match in the evaluation result
  neither sink operation succeeds, although the message may be one the attention layer delivers.
\<close>

theorem nan_score_not_stored:
  assumes "m \<in> set (ar_matches attention)" and "rm_score m = FNaN"
  shows "\<not> is_ok (fst (queue_wake_sink_delivery pj store env attention snapshot routing db))
       \<and> \<not> is_ok (fst (record_db_sink_delivery pj store env attention sink routing db))"
  using never_ok_nan [OF assms] by (simp add: never_ok_def)

theorem nan_score_not_stored_witness:
  "\<not> is_ok (fst (queue_wake_sink_delivery (\<lambda>_. ''{}'') demo_delivery_store (demo_envelope [] passthrough)
     (demo_accepted_result\<lparr>ar_matches := ar_matches demo_accepted_result @
        [\<lparr>rm_receptor_id = ''i'', rm_class = Wildcard, rm_score = FNaN, rm_threshold = FFin 1,
          rm_above_threshold = False\<rparr>]\<rparr>) demo_snapshot demo_routing demo_database))"
  by (rule conjunct1 [OF nan_score_not_stored [where m = "\<lparr>rm_receptor_id = ''i'', rm_class = Wildcard,
        rm_score = FNaN, rm_threshold = FFin 1, rm_above_threshold = False\<rparr>"]]) simp_all

end
