(* ===== verification/Wake_Router.thy ===== *)
theory Wake_Router
  imports Storage_Properties Hard_Failure Outbound_Embeddings
begin

text \<open>
  The wake router, \<open>process_wake_queue\<close> and its helpers in \<^verbatim>\<open>src/src/supervisor.rs\<close>: every
  message taken from the queue is evaluated, its decision recorded, and, if it is to be
  delivered, handed to the database sink and to the wake sinks with retries; then it is marked
  processed.

  The router is an operation on \<open>router\<close>: the database, the runtime stores behind the \<open>Arc\<close>s of
  the messages, the hook state, the attempts that lie ahead (\<open>send_attempt\<close> says what the gateway
  and the clock answer on one attempt) and the trace of what was done and answered. An attempt list that runs
  out leaves the router waiting for the gateway, the flow \<open>Blocked\<close>.
\<close>

section \<open>State\<close>

record send_attempt =
  sa_remaining :: int \<comment> \<open>nanoseconds to the shutdown deadline before the send\<close>
  sa_timed_out :: bool \<comment> \<open>the deadline passes during the send\<close>
  sa_result :: "unit result"
  sa_draw :: f64 \<comment> \<open>the draw of the jitter after a failure\<close>
  sa_remaining_after :: int \<comment> \<open>nanoseconds to the deadline when the failure is handled\<close>

datatype action =
    SendChat string string string \<comment> \<open>session key, text, idempotency key\<close>
  | ChatAnswer string "unit result" \<comment> \<open>idempotency key, what \<open>send_chat\<close> returned\<close>
  | RunHooks "hook_run list"
  | Sleep int \<comment> \<open>nanoseconds\<close>
  | FlushRuntime nat "fs_call list"

record router =
  ro_db :: database
  ro_stores :: "nat \<Rightarrow> RuntimeStore"
  ro_hooks :: HardFailureHooks
  ro_attempts :: "send_attempt list"
  ro_trace :: "action list"

text \<open>\<open>Continue\<close>: next message; \<open>Stop\<close>: return \<open>Ok(())\<close>; an error returns \<open>Err\<close>.\<close>

datatype flow = Continue | Stop | Blocked

record router_env =
  rv_store :: "DeliveryStore option"
  rv_sinks :: "SinkConfig list"
  rv_wake_session_key :: string
  rv_retry :: RetryConfig
  rv_print_json :: "json \<Rightarrow> string"
  rv_print_event :: "HardFailureEvent \<Rightarrow> string result"
  rv_clock :: "nat \<Rightarrow> nat \<Rightarrow> int"
  rv_codec :: runtime_codec
  rv_flush :: "WakeEnvelope \<Rightarrow> unit result" \<comment> \<open>whether the runtime file can be written then\<close>
  rv_fmt3 :: "f32 \<Rightarrow> string"

section \<open>Helpers\<close>

definition do_action :: "action \<Rightarrow> (router, unit) op" where
  "do_action a = update (\<lambda>r. r\<lparr>ro_trace := ro_trace r @ [a]\<rparr>)"

definition on_db :: "(database, 'a) op \<Rightarrow> (router, 'a) op" where
  "on_db m r = (let (x, db) = m (ro_db r) in (x, r\<lparr>ro_db := db\<rparr>))"

definition fire_event :: "router_env \<Rightarrow> HardFailureEvent \<Rightarrow> (router, unit) op" where
  "fire_event rv e r =
     (let (runs, hs) = fire (rv_print_event rv) (rv_clock rv (length (ro_trace r))) e (ro_hooks r)
      in (Inr (), r\<lparr>ro_hooks := hs, ro_trace := ro_trace r @ [RunHooks runs]\<rparr>))"

text \<open>\<open>if let Err(err) = m { hooks.fire(..).await; return Err(err); }\<close>\<close>

definition or_fire :: "router_env \<Rightarrow> (string \<Rightarrow> HardFailureEvent) \<Rightarrow> (router, 'a) op \<Rightarrow> (router, 'a) op" where
  "or_fire rv event m r =
     (case m r of
        (Inr x, r') \<Rightarrow> (Inr x, r')
      | (Inl err, r') \<Rightarrow> andthen (fire_event rv (event err)) (\<lambda>_. fail err) r')"

definition message_metadata :: "WakeEnvelope \<Rightarrow> (string \<times> json) list" where
  "message_metadata item =
     [(''server'', JStr (we_server item)), (''server_key'', JStr (we_server_key item)),
      (''message_id'', JStr (we_message_id item))]"

definition storage_hard_failure_event :: "string \<Rightarrow> WakeEnvelope \<Rightarrow> string \<Rightarrow> HardFailureEvent" where
  "storage_hard_failure_event kind item err =
     \<lparr>he_kind = kind, he_component = ''storage'', he_target = Some (we_server item),
      he_message = err, he_metadata = JObj (message_metadata item)\<rparr>"

definition enabled_sink_count :: "SinkConfig list \<Rightarrow> nat" where
  "enabled_sink_count sinks = length (filter sk_enabled sinks)"

definition routing_entry_for_sink :: "SinkConfig \<Rightarrow> string option \<Rightarrow> string \<Rightarrow> DeliveryStore option
    \<Rightarrow> SinkRoutingEntry" where
  "routing_entry_for_sink sink override default_key store =
     \<lparr>re_sink_key = sk_key sink, re_sink_kind = sk_kind sink,
      re_destination = unwrap_or
        (case sk_kind sink of
           Db \<Rightarrow> unwrap_or ''db'' (map_option ds_database_path store)
         | AgentSessionWake \<Rightarrow> unwrap_or default_key override) (sk_destination sink)\<rparr>"

definition routing_entries_for_sinks :: "SinkConfig list \<Rightarrow> string option \<Rightarrow> string
    \<Rightarrow> DeliveryStore option \<Rightarrow> SinkRoutingEntry list" where
  "routing_entries_for_sinks sinks override default_key store =
     map (\<lambda>s. routing_entry_for_sink s override default_key store) (filter sk_enabled sinks)"

definition render_inbound_wake :: "(f32 \<Rightarrow> string) \<Rightarrow> WakeEnvelope \<Rightarrow> AttentionResult \<Rightarrow> string" where
  "render_inbound_wake fmt3 message attention =
     (let sender = (if trim (we_author_name message) = [] then we_author_id message
                    else we_author_name message)
      in join [CHR 0x0A]
           ([''[Subspace inbound]'', ''Server: '' @ we_server message,
             ''ServerKey: '' @ we_server_key message, ''From: '' @ sender,
             ''MessageId: '' @ we_message_id message]
            @ (case format_attention_annotation fmt3 attention of None \<Rightarrow> [] | Some a \<Rightarrow> [a])
            @ [[], we_text message]))"

section \<open>Delivery to one wake sink\<close>

definition mark_on_store :: "router_env \<Rightarrow> DeliveryTicket option
    \<Rightarrow> (DeliveryStore \<Rightarrow> int \<Rightarrow> (database, unit) op) \<Rightarrow> (router, unit) op" where
  "mark_on_store rv ticket mark =
     (case (rv_store rv, ticket) of
        (Some store, Some tk) \<Rightarrow> on_db (mark store (dt_delivery_id tk))
      | _ \<Rightarrow> ret ())"

definition wake_failed_event :: "WakeEnvelope \<Rightarrow> SinkConfig \<Rightarrow> string \<Rightarrow> HardFailureEvent" where
  "wake_failed_event item sink err =
     \<lparr>he_kind = ''wake_delivery_failed'', he_component = ''wake_router'',
      he_target = Some (we_server item @ '':'' @ sk_key sink), he_message = err,
      he_metadata = JObj (message_metadata item @ [(''sink_key'', JStr (sk_key sink))])\<rparr>"

definition wake_idempotency_key :: "WakeEnvelope \<Rightarrow> SinkConfig \<Rightarrow> string" where
  "wake_idempotency_key item sink =
     we_server_key item @ '':'' @ we_message_id item @ '':'' @ sk_key sink"

text \<open>\<open>Duration::from_millis(jitter(backoff_ms, retry.jitter_ratio))\<close>, in nanoseconds.\<close>

definition retry_delay :: "router_env \<Rightarrow> u64 \<Rightarrow> send_attempt \<Rightarrow> int" where
  "retry_delay rv backoff_ms a =
     uint (jitter (sa_draw a) backoff_ms (rc_jitter_ratio (rv_retry rv))) * 1000000"

text \<open>
  One attempt: \<open>Some flow\<close> ends the retry loop, \<open>None\<close> goes round again.
\<close>

definition attempt_send :: "router_env \<Rightarrow> bool \<Rightarrow> WakeEnvelope \<Rightarrow> SinkConfig \<Rightarrow> string \<Rightarrow> string
    \<Rightarrow> DeliveryTicket option \<Rightarrow> u64 \<Rightarrow> send_attempt \<Rightarrow> (router, flow option) op" where
  "attempt_send rv shutting_down item sink session rendered ticket backoff_ms a =
     (if shutting_down \<and> sa_remaining a = 0 then ret (Some Stop)
      else andthen (do_action (SendChat session rendered (wake_idempotency_key item sink))) (\<lambda>_.
        if shutting_down \<and> sa_timed_out a then ret (Some Stop)
        else andthen (do_action (ChatAnswer (wake_idempotency_key item sink) (sa_result a))) (\<lambda>_.
          case sa_result a of
            Inr _ \<Rightarrow>
              andthen (mark_on_store rv ticket mark_delivery_delivered) (\<lambda>_. ret (Some Continue))
          | Inl err \<Rightarrow>
              andthen (mark_on_store rv ticket (\<lambda>store d. mark_delivery_failed store d err)) (\<lambda>_.
              andthen (fire_event rv (wake_failed_event item sink err)) (\<lambda>_.
              if shutting_down \<and> sa_remaining_after a = 0 then ret (Some Stop)
              else andthen (do_action (Sleep (
                     if shutting_down then min (retry_delay rv backoff_ms a) (sa_remaining_after a)
                     else retry_delay rv backoff_ms a))) (\<lambda>_. ret None))))))"

fun send_loop :: "router_env \<Rightarrow> bool \<Rightarrow> WakeEnvelope \<Rightarrow> SinkConfig \<Rightarrow> string \<Rightarrow> string
    \<Rightarrow> DeliveryTicket option \<Rightarrow> u64 \<Rightarrow> send_attempt list \<Rightarrow> (router, flow) op" where
  "send_loop rv shutting_down item sink session rendered ticket backoff_ms [] =
     andthen (mark_on_store rv ticket mark_delivery_attempted) (\<lambda>_. ret Blocked)"
| "send_loop rv shutting_down item sink session rendered ticket backoff_ms (a # attempts) =
     andthen (mark_on_store rv ticket mark_delivery_attempted) (\<lambda>_.
     andthen (update (\<lambda>r. r\<lparr>ro_attempts := attempts\<rparr>)) (\<lambda>_.
     andthen (attempt_send rv shutting_down item sink session rendered ticket backoff_ms a) (\<lambda>done.
     case done of
       Some fl \<Rightarrow> ret fl
     | None \<Rightarrow> send_loop rv shutting_down item sink session rendered ticket
                 (min (saturating_mul backoff_ms 2) (rc_max_ms (rv_retry rv))) attempts)))"

definition effective_session_key :: "router_env \<Rightarrow> WakeEnvelope \<Rightarrow> SinkConfig \<Rightarrow> string" where
  "effective_session_key rv item sink =
     (case sk_destination sink of
        Some d \<Rightarrow> d
      | None \<Rightarrow> unwrap_or (rv_wake_session_key rv) (we_wake_session_key_override item))"

definition wake_snapshot :: "router_env \<Rightarrow> WakeEnvelope \<Rightarrow> SinkConfig \<Rightarrow> SinkSnapshot" where
  "wake_snapshot rv item sink =
     \<lparr>sn_sink_key = sk_key sink, sn_sink_kind = AgentSessionWake,
      sn_destination = effective_session_key rv item sink,
      sn_config_json = rv_print_json rv
        (JObj [(''session_key'', JStr (effective_session_key rv item sink))])\<rparr>"

definition deliver_to_wake_sink :: "router_env \<Rightarrow> bool \<Rightarrow> WakeEnvelope \<Rightarrow> AttentionResult
    \<Rightarrow> RoutingSnapshot \<Rightarrow> SinkConfig \<Rightarrow> (router, flow) op" where
  "deliver_to_wake_sink rv shutting_down item attention routing sink =
     andthen
       (case rv_store rv of
          None \<Rightarrow> ret None
        | Some store \<Rightarrow>
            andthen (or_fire rv (storage_hard_failure_event ''db_wake_sink_queue_failed'' item)
              (on_db (queue_wake_sink_delivery (rv_print_json rv) store item attention
                        (wake_snapshot rv item sink) routing))) (\<lambda>tk. ret (Some tk)))
       (\<lambda>ticket.
          if (case ticket of None \<Rightarrow> False | Some tk \<Rightarrow> dt_already_delivered tk) then ret Continue
          else (\<lambda>r. send_loop rv shutting_down item sink (effective_session_key rv item sink)
                      (render_inbound_wake (rv_fmt3 rv) item attention) ticket
                      (rc_base_ms (rv_retry rv)) (ro_attempts r) r))"

text \<open>\<open>for sink in wake_sinks\<close>: a flow other than \<open>Continue\<close> leaves the loop and the router.\<close>

fun deliver_to_wake_sinks :: "router_env \<Rightarrow> bool \<Rightarrow> WakeEnvelope \<Rightarrow> AttentionResult
    \<Rightarrow> RoutingSnapshot \<Rightarrow> SinkConfig list \<Rightarrow> (router, flow) op" where
  "deliver_to_wake_sinks rv shutting_down item attention routing [] = ret Continue"
| "deliver_to_wake_sinks rv shutting_down item attention routing (sink # sinks) =
     andthen (deliver_to_wake_sink rv shutting_down item attention routing sink) (\<lambda>fl.
     if fl = Continue then deliver_to_wake_sinks rv shutting_down item attention routing sinks
     else ret fl)"

section \<open>One message\<close>

definition mark_and_flush :: "router_env \<Rightarrow> WakeEnvelope \<Rightarrow> (router, flow) op" where
  "mark_and_flush rv item r =
     (let st = mark_processed (we_message_id item) (we_timestamp item) (ro_stores r (we_runtime item));
          r1 = r\<lparr>ro_stores := (ro_stores r)(we_runtime item := st)\<rparr>
      in case rv_flush rv item of
           Inl e \<Rightarrow> (Inl e, r1)
         | Inr _ \<Rightarrow>
             (Inr Continue,
              r1\<lparr>ro_trace := ro_trace r1 @ [FlushRuntime (we_runtime item) (flush (rv_codec rv) st)]\<rparr>))"

definition evaluate_item :: "WakeEnvelope \<Rightarrow> AttentionResult" where
  "evaluate_item item =
     evaluate_with_embeddings (we_attention item)
       (if we_sender_embeddings item = [] then None else Some (we_sender_embeddings item))"

definition no_sinks_event :: "WakeEnvelope \<Rightarrow> HardFailureEvent" where
  "no_sinks_event item =
     \<lparr>he_kind = ''sink_delivery_blocked_no_sinks'', he_component = ''wake_router'',
      he_target = Some (we_server item),
      he_message = ''message matched receptor policy but no sinks are configured'',
      he_metadata = JObj (message_metadata item)\<rparr>"

definition reconcile_failed_event :: "string \<Rightarrow> HardFailureEvent" where
  "reconcile_failed_event err =
     \<lparr>he_kind = ''db_sink_target_reconcile_failed'', he_component = ''storage'', he_target = None,
      he_message = err, he_metadata = JObj []\<rparr>"

definition with_store :: "router_env \<Rightarrow> (string \<Rightarrow> HardFailureEvent)
    \<Rightarrow> (DeliveryStore \<Rightarrow> (database, 'a) op) \<Rightarrow> (router, unit) op" where
  "with_store rv event m =
     (case rv_store rv of
        None \<Rightarrow> ret ()
      | Some store \<Rightarrow> andthen (or_fire rv event (on_db (m store))) (\<lambda>_. ret ()))"

definition find_db_sink :: "SinkConfig list \<Rightarrow> SinkConfig option" where
  "find_db_sink sinks = find (\<lambda>s. sk_enabled s \<and> sk_kind s = Db) sinks"

definition wake_sinks :: "SinkConfig list \<Rightarrow> SinkConfig list" where
  "wake_sinks sinks = filter (\<lambda>s. sk_enabled s \<and> sk_kind s = AgentSessionWake) sinks"

definition item_routing :: "router_env \<Rightarrow> WakeEnvelope \<Rightarrow> RoutingSnapshot" where
  "item_routing rv item =
     (let entry = (\<lambda>s. routing_entry_for_sink s (we_wake_session_key_override item)
                         (rv_wake_session_key rv) (rv_store rv))
      in \<lparr>ro_candidate_sinks = routing_entries_for_sinks (rv_sinks rv)
            (we_wake_session_key_override item) (rv_wake_session_key rv) (rv_store rv),
          ro_selected_sinks =
            (case find_db_sink (rv_sinks rv) of None \<Rightarrow> [] | Some s \<Rightarrow> [entry s])
            @ map entry (wake_sinks (rv_sinks rv))\<rparr>)"

definition process_item :: "router_env \<Rightarrow> bool \<Rightarrow> WakeEnvelope \<Rightarrow> (router, flow) op" where
  "process_item rv shutting_down item =
     (let attention = evaluate_item item; routing = item_routing rv item
      in andthen (with_store rv (storage_hard_failure_event ''db_attention_decision_failed'' item)
           (\<lambda>store. record_attention_decision (rv_print_json rv) store item attention)) (\<lambda>_.
         if \<not> ar_deliver attention then mark_and_flush rv item
         else if enabled_sink_count (rv_sinks rv) = 0
         then andthen (fire_event rv (no_sinks_event item)) (\<lambda>_. mark_and_flush rv item)
         else
           andthen (with_store rv reconcile_failed_event
             (\<lambda>store. reconcile_sink_targets (rv_print_json rv) store (rv_sinks rv)
                        (rv_wake_session_key rv))) (\<lambda>_.
           andthen
             (case find_db_sink (rv_sinks rv) of
                None \<Rightarrow> ret ()
              | Some sink \<Rightarrow>
                  with_store rv (storage_hard_failure_event ''db_sink_delivery_failed'' item)
                    (\<lambda>store. record_db_sink_delivery (rv_print_json rv) store item attention sink
                               routing)) (\<lambda>_.
           andthen (deliver_to_wake_sinks rv shutting_down item attention routing
                      (wake_sinks (rv_sinks rv))) (\<lambda>fl.
           if fl = Continue then mark_and_flush rv item else ret fl)))))"

section \<open>The queue\<close>

text \<open>
  What the loop receives: messages, and at most one shutdown signal, after which the queue is
  drained. The end of the list is the closed (or, when draining, the empty) channel.
\<close>

datatype wake_input = Message WakeEnvelope | ShutdownSignal

fun process_wake_queue :: "router_env \<Rightarrow> bool \<Rightarrow> wake_input list \<Rightarrow> (router, flow) op" where
  "process_wake_queue rv shutting_down [] = ret Stop"
| "process_wake_queue rv shutting_down (ShutdownSignal # rest) = process_wake_queue rv True rest"
| "process_wake_queue rv shutting_down (Message item # rest) =
     andthen (process_item rv shutting_down item) (\<lambda>fl.
     if fl = Continue then process_wake_queue rv shutting_down rest else ret fl)"

end
