(* ===== verification/Storage_Delivered.thy ===== *)
theory Storage_Delivered
  imports Storage_Properties
begin

text \<open>
  Which deliveries an operation of the store turns into delivered ones: none but those that
  \<open>record_db_sink_delivery\<close> records and \<open>mark_delivery_delivered\<close> names. A delivered delivery is
  traced back to the message and the sink it belongs to.
\<close>

section \<open>Operations that deliver nothing\<close>

definition delivers_nothing :: "(database, 'a) op \<Rightarrow> bool" where
  "delivers_nothing m \<longleftrightarrow> (\<forall>X. keeps (\<lambda>db. delivered_set db \<subseteq> X) m)"

lemma delivers_nothingI: "(\<And>db. delivered_set (snd (m db)) \<subseteq> delivered_set db) \<Longrightarrow> delivers_nothing m"
  by (fastforce simp: delivers_nothing_def keeps_def)

lemma delivers_nothingD: "delivers_nothing m \<Longrightarrow> delivered_set (snd (m db)) \<subseteq> delivered_set db"
  by (simp add: delivers_nothing_def keeps_def)

lemma delivers_nothing_pure: "(\<And>db. snd (m db) = db) \<Longrightarrow> delivers_nothing m"
  by (rule delivers_nothingI) simp

lemma delivers_nothing_andthen [intro]:
  "delivers_nothing m \<Longrightarrow> (\<And>x. delivers_nothing (f x)) \<Longrightarrow> delivers_nothing (andthen m f)"
  by (simp add: delivers_nothing_def keeps_andthen)

lemma delivers_nothing_for_each [intro]:
  "(\<And>x. delivers_nothing (f x)) \<Longrightarrow> delivers_nothing (for_each f xs)"
  by (simp add: delivers_nothing_def keeps_for_each)

lemma delivers_nothing_cases [intro]:
  "delivers_nothing m \<Longrightarrow> delivers_nothing m' \<Longrightarrow> delivers_nothing (if c then m else m')"
  "delivers_nothing m \<Longrightarrow> (\<And>x. delivers_nothing (f x)) \<Longrightarrow> delivers_nothing (case y of None \<Rightarrow> m | Some x \<Rightarrow> f x)"
  by (simp_all split: option.split)

lemma delivered_set_table: "db_sink_delivery db' = db_sink_delivery db \<Longrightarrow> delivered_set db' = delivered_set db"
  by (simp add: delivered_set_def delivered_at_def)

lemma delivers_nothing_other:
  "(\<And>db. db_sink_delivery (snd (m db)) = db_sink_delivery db) \<Longrightarrow> delivers_nothing m"
  by (intro delivers_nothingI equalityD1 [OF delivered_set_table])

lemma delivers_nothing_reads: "reads m \<Longrightarrow> delivers_nothing m"
  by (rule delivers_nothing_other) (metis database.select_convs(12) database.surjective database.update_convs(1) reads_def)

lemma delivers_nothing_basic [intro]:
  "delivers_nothing (ret x)" "delivers_nothing (fail e)" "delivers_nothing (lift res)" "delivers_nothing (select g)"
  "delivers_nothing (query_row h)" "delivers_nothing create_artifact_dir" "delivers_nothing access"
  by (rule delivers_nothing_reads, blast)+

lemma delivers_nothing_execute:
  assumes "\<And>db. delivered_set (f db) \<subseteq> delivered_set db"
  shows "delivers_nothing (execute f)"
  unfolding execute_def
  by (intro delivers_nothing_andthen delivers_nothing_basic delivers_nothingI) (simp add: update_def assms)

lemma delivers_nothing_write:
  "(\<And>db. db_sink_delivery (f db) = db_sink_delivery db) \<Longrightarrow> delivers_nothing (execute f)"
  by (intro delivers_nothing_execute equalityD1 [OF delivered_set_table])

lemma delivers_nothing_schema [intro]: "delivers_nothing (ensure_schema auto_migrate)"
proof -
  have column: "delivers_nothing (execute (add_event_column c))" for c
    by (rule delivers_nothing_write) (simp add: add_event_column_def)
  have table: "delivers_nothing (create_table t)" for t
    unfolding create_table_def by (rule delivers_nothing_write) simp
  have index: "delivers_nothing (create_index i)" for i by (rule delivers_nothing_reads) auto
  have looks: "delivers_nothing missing_required_tables" "delivers_nothing legacy_schema_present"
    "delivers_nothing daemon_event_columns" by (rule delivers_nothing_reads, blast)+
  show ?thesis
    unfolding ensure_schema_def ensure_daemon_event_columns_def create_schema_def Let_def
    by (intro delivers_nothing_andthen delivers_nothing_cases(1) delivers_nothing_for_each delivers_nothing_basic
        column table index looks)
qed

lemma delivers_nothing_statements [intro]:
  "delivers_nothing (upsert_ingress_source server k)" "delivers_nothing (upsert_receptor_match pj e routing match)"
  "delivers_nothing (insert_daemon_event pj src env attention)" "delivers_nothing (insert_event_idempotency src key e)"
  "delivers_nothing (upsert_sink_target snapshot)" "delivers_nothing (update_target P f)"
proof -
  show "delivers_nothing (upsert_ingress_source server k)" "delivers_nothing (upsert_sink_target snapshot)"
    "delivers_nothing (update_target P f)"
    unfolding upsert_ingress_source_def upsert_sink_target_def update_target_def
    by (intro delivers_nothing_andthen delivers_nothing_basic delivers_nothing_write; simp)+
  show "delivers_nothing (upsert_receptor_match pj e routing match)"
    "delivers_nothing (insert_daemon_event pj src env attention)" "delivers_nothing (insert_event_idempotency src key e)"
    unfolding upsert_receptor_match_def insert_daemon_event_def insert_event_idempotency_def
    by (intro delivers_nothing_andthen delivers_nothing_basic delivers_nothing_other; simp add: Let_def)+
qed

lemma row_at_insert_cases: "row_at i (insert_row r t) = Some x \<Longrightarrow> row_at i t = Some x \<or> x = r"
proof -
  have "find P (xs @ [y]) = (case find P xs of None \<Rightarrow> if P y then Some y else None | Some z \<Rightarrow> Some z)"
    for P :: "int \<times> 'a \<Rightarrow> bool" and xs y
    by (induction xs) auto
  then show "row_at i (insert_row r t) = Some x \<Longrightarrow> ?thesis"
    by (auto simp: row_at_def insert_row_def split: option.splits if_splits)
qed

lemma delivers_nothing_delivery [intro]: "delivers_nothing (upsert_sink_delivery e tg snapshot)"
proof -
  have "delivered_set (db\<lparr>db_sink_delivery := upsert sink_delivery_key merge_sink_delivery r (db_sink_delivery db)\<rparr>)
      \<subseteq> delivered_set db" if "sd_status r \<noteq> ''delivered''" for r db
  proof
    fix d assume "d \<in> delivered_set (db\<lparr>db_sink_delivery :=
        upsert sink_delivery_key merge_sink_delivery r (db_sink_delivery db)\<rparr>)"
    with that show "d \<in> delivered_set db"
      by (auto simp: delivered_set_def delivered_at_def upsert_def row_at_update merge_sink_delivery_def Let_def
          split: if_splits dest!: row_at_insert_cases)
  qed
  then show ?thesis
    unfolding upsert_sink_delivery_def
    by (intro delivers_nothing_andthen delivers_nothing_basic delivers_nothing_execute) simp
qed

lemma delivers_nothing_update:
  assumes "\<And>now r. sd_status (f now r) \<noteq> ''delivered''"
  shows "delivers_nothing (update_delivery d f)"
  unfolding update_delivery_def using assms
  by (intro delivers_nothing_execute) (auto simp: delivered_set_def delivered_at_def row_at_update split: if_splits)

lemma delivers_nothing_event [intro]: "delivers_nothing (upsert_canonical_event pj env attention routing)"
  unfolding upsert_canonical_event_def upsert_receptor_matches_def Let_def
  by (intro delivers_nothing_andthen delivers_nothing_cases delivers_nothing_for_each delivers_nothing_statements
      delivers_nothing_basic)

lemma delivers_nothing_connection [intro]: "delivers_nothing m \<Longrightarrow> delivers_nothing (with_connection m)"
  unfolding with_connection_def by (intro delivers_nothing_andthen delivers_nothing_basic)

lemma delivers_nothing_operations:
  "delivers_nothing (record_attention_decision pj store env attention)"
  "delivers_nothing (queue_wake_sink_delivery pj store env attention snapshot routing)"
  "delivers_nothing (reconcile_sink_targets pj store sinks key)"
  "delivers_nothing (mark_delivery_attempted store d)"
  "delivers_nothing (mark_delivery_failed store d err)"
proof -
  show "delivers_nothing (record_attention_decision pj store env attention)"
    unfolding record_attention_decision_def
    by (intro delivers_nothing_connection delivers_nothing_andthen delivers_nothing_schema delivers_nothing_statements
        delivers_nothing_write) simp
  show "delivers_nothing (queue_wake_sink_delivery pj store env attention snapshot routing)"
    unfolding queue_wake_sink_delivery_def by blast
  show "delivers_nothing (reconcile_sink_targets pj store sinks key)"
    unfolding reconcile_sink_targets_def reconcile_one_def clear_sink_target_disabled_def
      soft_disable_sink_target_def soft_disable_missing_sink_targets_def Let_def
    by (intro delivers_nothing_connection delivers_nothing_andthen delivers_nothing_schema delivers_nothing_for_each
        delivers_nothing_cases delivers_nothing_statements)
  show "delivers_nothing (mark_delivery_attempted store d)" "delivers_nothing (mark_delivery_failed store d err)"
    unfolding mark_delivery_attempted_def mark_delivery_failed_def
    by (intro delivers_nothing_connection delivers_nothing_andthen delivers_nothing_schema delivers_nothing_update,
        simp add: set_attempted_def set_failed_def)+
qed

section \<open>Operations that deliver\<close>

lemma delivered_by_update: "delivered_set (snd (update_delivery d f db)) \<subseteq> insert d (delivered_set db)"
  by (auto simp: update_delivery_def execute_def andthen_def access_def update_def delivered_set_def delivered_at_def
      row_at_update split: if_splits option.splits)

lemma delivered_by_mark: "delivered_set (snd (mark_delivery_delivered store d db)) \<subseteq> insert d (delivered_set db)"
proof -
  have "keeps (\<lambda>db'. delivered_set db' \<subseteq> insert d (delivered_set db)) (mark_delivery_delivered store d)"
    unfolding mark_delivery_delivered_def with_connection_def
  proof (intro keeps_andthen)
    show "keeps (\<lambda>db'. delivered_set db' \<subseteq> insert d (delivered_set db)) (update_delivery d set_delivered)"
      using delivered_by_update by (fastforce simp: keeps_def)
  qed (use delivers_nothing_schema delivers_nothing_basic in \<open>auto simp: delivers_nothing_def\<close>)
  then show ?thesis by (auto simp: keeps_def)
qed

text \<open>The database sink records its delivery last, so that only a successful operation delivers.\<close>

lemma record_db_split:
  "\<exists>m. record_db_sink_delivery pj store env attention sink routing
        = andthen m (\<lambda>(ev, d). andthen (update_delivery d set_delivered) (\<lambda>_. ret ev))
     \<and> delivers_nothing m
     \<and> (\<forall>D. stmt_spec D (\<lambda>_. True) m (\<lambda>(ev, d) db. delivery_of env (sk_key sink) (ev_daemon_event_id ev) d db))"
proof -
  let ?snapshot = "db_sink_snapshot pj store sink"
  let ?inner = "andthen (upsert_canonical_event pj env attention routing) (\<lambda>event.
      andthen (upsert_sink_target ?snapshot) (\<lambda>target_id.
      andthen (upsert_sink_delivery (ev_daemon_event_id event) target_id ?snapshot) (\<lambda>delivery_id.
      ret (event, delivery_id))))"
  let ?m = "andthen (lift (ensure_receptor_accepted_for_sink_delivery attention)) (\<lambda>_.
      andthen create_artifact_dir (\<lambda>_.
      with_connection (andthen (ensure_schema (ds_auto_migrate store)) (\<lambda>_. ?inner))))"
  have "record_db_sink_delivery pj store env attention sink routing
      = andthen ?m (\<lambda>(ev, d). andthen (update_delivery d set_delivered) (\<lambda>_. ret ev))"
    unfolding record_db_sink_delivery_def with_connection_def Let_def
    by (simp add: fun_eq_iff andthen_def ret_def split: prod.splits sum.splits)
  moreover have "delivers_nothing ?m" by blast
  moreover have "stmt_spec D (\<lambda>_. True) ?m
      (\<lambda>(ev, d) db. delivery_of env (sk_key sink) (ev_daemon_event_id ev) d db)" for D
  proof -
    have inner: "stmt_spec D (\<lambda>db. \<forall>e0. (None :: int option) = Some e0 \<longrightarrow> recorded env e0 db) ?inner
        (\<lambda>(ev, d) db. delivery_of env (sk_key sink) (ev_daemon_event_id ev) d db)"
      by (rule spec_event_target_delivery) (rule spec_ret, simp add: db_sink_snapshot_def)
    then have inner: "stmt_spec D (\<lambda>_. True) ?inner
        (\<lambda>(ev, d) db. delivery_of env (sk_key sink) (ev_daemon_event_id ev) d db)" by simp
    show ?thesis
      by (rule spec_andthen [where R = "\<lambda>_ _. True"], rule spec_pure, simp add: lift_def, simp,
          rule spec_andthen [where R = "\<lambda>_ _. True"], rule spec_True [OF reads_basic(3)])
        (rule spec_with_schema [OF inner stable_const])
  qed
  ultimately show ?thesis by blast
qed

lemma delivered_by_record:
  assumes ok: "db_ok db" and run: "record_db_sink_delivery pj store env attention sink routing db = (x, db')"
    and d: "d \<in> delivered_set db'" "d \<notin> delivered_set db"
  shows "\<exists>e. delivery_of env (sk_key sink) e d db'"
proof -
  obtain m where split: "record_db_sink_delivery pj store env attention sink routing
        = andthen m (\<lambda>(ev, d). andthen (update_delivery d set_delivered) (\<lambda>_. ret ev))"
    and none: "delivers_nothing m"
    and queued: "\<And>D. stmt_spec D (\<lambda>_. True) m (\<lambda>(ev, d) db. delivery_of env (sk_key sink) (ev_daemon_event_id ev) d db)"
    using record_db_split [of pj store env attention sink routing] by blast
  obtain y db1 where m: "m db = (y, db1)" by fastforce
  have old: "delivered_set db1 \<subseteq> delivered_set db" using delivers_nothingD [OF none] m by (metis snd_conv)
  show ?thesis
  proof (cases y)
    case (Inl e)
    with run m split have "db' = db1" by (simp add: andthen_def)
    with d old show ?thesis by blast
  next
    case (Inr z)
    obtain ev i where z: "z = (ev, i)" by (cases z)
    with run m split Inr have db': "db' = snd (update_delivery i set_delivered db1)"
      by (simp add: andthen_def ret_def split: prod.splits sum.splits)
    from queued [of UNIV] ok m Inr z have one: "db_ok db1"
      "delivery_of env (sk_key sink) (ev_daemon_event_id ev) i db1"
      unfolding stmt_spec_def by fastforce+
    have "stmt_spec UNIV (\<lambda>_. True) (update_delivery i set_delivered) (\<lambda>_ _. True)"
      by (rule spec_update_delivery) (simp_all add: set_delivered_def sink_delivery_key_def)
    from spec_state [OF this one(1)] one have "delivery_of env (sk_key sink) (ev_daemon_event_id ev) i db'"
      using stable_delivery_of unfolding stable_def db' by blast
    moreover have "d = i" using d old delivered_by_update [of i set_delivered db1] by (auto simp: db')
    ultimately show ?thesis by blast
  qed
qed

section \<open>From a delivery back to its message\<close>

lemma recorded_same_message:
  assumes "db_ok db" and "recorded a e db" and "recorded b e db"
  shows "compute_event_idempotency_key a = compute_event_idempotency_key b"
proof -
  have "owner.unique_ok (db_event_idempotency db)" using assms(1) by (simp add: db_ok_def)
  from owner.key_unique [OF this] assms(2,3) show ?thesis
    unfolding recorded_def by (metis option.inject prod.inject)
qed

lemma delivery_of_same:
  assumes "db_ok db" and "delivery_of a k e d db" and "delivery_of b k' e' d db"
  shows "k' = k" and "compute_event_idempotency_key b = compute_event_idempotency_key a"
proof -
  from assms(2,3) have "e' = e" and "k' = k"
    by (auto simp: delivery_of_def delivery_is_def target_is_def)
  then show "k' = k" "compute_event_idempotency_key b = compute_event_idempotency_key a"
    using assms recorded_same_message [OF assms(1)] unfolding delivery_of_def by blast+
qed

text \<open>What a delivery of the database belongs to later, it belonged to before.\<close>

lemma delivery_of_earlier:
  assumes ok: "db_ok db" "db_ok db'" and ext: "db_ext D db db'"
    and d: "d \<in> row_ids (db_sink_delivery db)" and later: "delivery_of item k e d db'"
  shows "delivery_of item k e d db"
proof -
  from later obtain tg where rec: "recorded item e db'" and tg: "target_is k tg db'" and del: "delivery_is (e, tg) d db'"
    by (auto simp: delivery_of_def)
  from d obtain r where r: "row_at d (db_sink_delivery db) = Some r" by (auto simp: row_ids_row_at)
  with ext del have key: "sd_daemon_event_id r = e" "sd_sink_target_id r = tg"
    by (fastforce simp: db_ext_def grows_def delivery_step_def delivery_is_def sink_delivery_key_def)+
  have "refs sd_daemon_event_id (db_sink_delivery db) (owned_events (db_event_idempotency db))"
    "refs sd_sink_target_id (db_sink_delivery db) (row_ids (db_sink_target db))"
    using ok(1) by (simp_all add: db_ok_def)
  then have "e \<in> owned_events (db_event_idempotency db)" and tgid: "tg \<in> row_ids (db_sink_target db)"
    using r key ids_ok_tables(5) [OF ok(1)] by (auto simp: refs_def row_at_iff)
  then obtain i x where x: "row_at i (db_event_idempotency db) = Some x" "ix_daemon_event_id x = e"
    by (auto simp: owned_events_def)
  from x(1) ext have x': "row_at i (db_event_idempotency db') = Some x" by (auto simp: db_ext_def grows_def)
  from rec obtain src j y where src: "source_is (we_server_key item) src db'"
    and y: "row_at j (db_event_idempotency db') = Some y"
      "idempotency_key y = (src, ''subspace_message'', compute_event_idempotency_key item)" "ix_daemon_event_id y = e"
    by (auto simp: recorded_def)
  have "owner.unique_ok (db_event_idempotency db')" using ok(2) by (simp add: db_ok_def)
  from owner.key_unique [OF this x' y(1)] x(2) x' y have "y = x" by simp
  have "refs ix_ingress_source_id (db_event_idempotency db) (row_ids (db_ingress_source db))"
    using ok(1) by (simp add: db_ok_def)
  then have "src \<in> row_ids (db_ingress_source db)"
    using x(1) y(2) \<open>y = x\<close> ids_ok_tables(3) [OF ok(1)] by (auto simp: refs_def row_at_iff idempotency_key_def)
  with src ext have "source_is (we_server_key item) src db"
    by (fastforce simp: source_is_def row_ids_row_at db_ext_def grows_def same_key_def)
  with x y \<open>y = x\<close> have "recorded item e db" unfolding recorded_def by blast
  moreover from tgid tg ext have "target_is k tg db"
    by (fastforce simp: target_is_def row_ids_row_at db_ext_def grows_def same_key_def)
  moreover have "delivery_is (e, tg) d db" using r key by (simp add: delivery_is_def sink_delivery_key_def)
  ultimately show ?thesis unfolding delivery_of_def by blast
qed

end
