(* ===== verification/Wake_Router_Spec.thy ===== *)
theory Wake_Router_Spec
  imports Wake_Router Storage_Delivered
begin

text \<open>
  What a run of the wake router does: a calculus of specifications for router operations, in
  which the trace of sent wakes and the state of the database are carried together, and its
  application to every part of \<open>process_wake_queue\<close>.
\<close>

section \<open>Delivered wakes\<close>

text \<open>The wake of a message for a sink key is recorded as delivered.\<close>

definition wake_delivered :: "WakeEnvelope \<Rightarrow> string \<Rightarrow> database \<Rightarrow> bool" where
  "wake_delivered item key db \<longleftrightarrow> (\<exists>e d. delivery_of item key e d db \<and> delivered_at d db)"

text \<open>The database only grew, and no delivery that was delivered lost that status.\<close>

definition db_progress :: "database \<Rightarrow> database \<Rightarrow> bool" where
  "db_progress db db' \<longleftrightarrow> db_ok db' \<and> db_ext (- delivered_set db) db db'"

lemma db_ext_mono: "db_ext D db db' \<Longrightarrow> D \<subseteq> D' \<Longrightarrow> db_ext D' db db'"
  by (fastforce simp: db_ext_def grows_def delivery_step_def)

lemma db_progress_refl: "db_ok db \<Longrightarrow> db_progress db db"
  by (simp add: db_progress_def db_ext_refl)

lemma db_progress_delivered: "db_progress db db' \<Longrightarrow> delivered_set db \<subseteq> delivered_set db'"
  by (fastforce simp: db_progress_def db_ext_def grows_def delivery_step_def delivered_set_def
      delivered_at_def)

lemma db_progress_trans: "db_progress a b \<Longrightarrow> db_progress b c \<Longrightarrow> db_progress a c"
  using db_progress_delivered [of a b] unfolding db_progress_def
  by (blast intro: db_ext_trans db_ext_mono)

lemma db_progress_stable:
  assumes "db_ok db" and "db_progress db db'"
  shows "delivery_of item k e d db \<Longrightarrow> delivery_of item k e d db'"
    and "wake_delivered item k db \<Longrightarrow> wake_delivered item k db'"
proof -
  show keep: "delivery_of item k e d db'" if "delivery_of item k e d db" for e d
    using assms that stable_delivery_of unfolding stable_def db_progress_def by blast
  from db_progress_delivered [OF assms(2)] keep
  show "wake_delivered item k db \<Longrightarrow> wake_delivered item k db'"
    unfolding wake_delivered_def delivered_set_def by blast
qed

section \<open>Runs of the router\<close>

text \<open>
  A send is authorised by a message and a sink: the message's evaluation delivers, the sink is an
  enabled wake sink, and session, text and idempotency key are those of message and sink.
\<close>

definition authorised :: "router_env \<Rightarrow> WakeEnvelope \<Rightarrow> SinkConfig \<Rightarrow> action \<Rightarrow> bool" where
  "authorised rv item sink a \<longleftrightarrow>
     ar_deliver (evaluate_item item) \<and> sink \<in> set (wake_sinks (rv_sinks rv))
     \<and> a = SendChat (effective_session_key rv item sink)
             (render_inbound_wake (rv_fmt3 rv) item (evaluate_item item))
             (wake_idempotency_key item sink)"

definition is_send :: "action \<Rightarrow> bool" where
  "is_send a = (case a of SendChat _ _ _ \<Rightarrow> True | _ \<Rightarrow> False)"

definition send_justified :: "router_env \<Rightarrow> WakeEnvelope set \<Rightarrow> database \<Rightarrow> action \<Rightarrow> bool" where
  "send_justified rv items db a \<longleftrightarrow>
     (\<exists>item\<in>items. \<exists>sink. authorised rv item sink a
        \<and> (rv_store rv = None \<or> \<not> wake_delivered item (sk_key sink) db))"

text \<open>The gateway has accepted the wake of a message for a sink key.\<close>

definition accepted :: "WakeEnvelope \<Rightarrow> string \<Rightarrow> router \<Rightarrow> bool" where
  "accepted item k r \<longleftrightarrow>
     ChatAnswer (compute_event_idempotency_key item @ '':'' @ k) (Inr ()) \<in> set (ro_trace r)"

lemma accepted_sink:
  "accepted item (sk_key sink) r \<longleftrightarrow> ChatAnswer (wake_idempotency_key item sink) (Inr ()) \<in> set (ro_trace r)"
  by (simp add: accepted_def wake_idempotency_key_def compute_event_idempotency_key_def)

text \<open>A wake that becomes delivered was accepted, unless its sink is the database.\<close>

definition accounted :: "router_env \<Rightarrow> router \<Rightarrow> router \<Rightarrow> bool" where
  "accounted rv r r' \<longleftrightarrow>
     (\<forall>item k. wake_delivered item k (ro_db r') \<longrightarrow>
        wake_delivered item k (ro_db r) \<or> accepted item k r'
        \<or> (\<exists>sink\<in>set (rv_sinks rv). sk_kind sink = Db \<and> sk_key sink = k))"

definition router_run :: "router_env \<Rightarrow> WakeEnvelope set \<Rightarrow> router \<Rightarrow> router \<Rightarrow> bool" where
  "router_run rv items r r' \<longleftrightarrow>
     db_progress (ro_db r) (ro_db r')
     \<and> (\<exists>done. ro_trace r' = ro_trace r @ done
          \<and> (\<forall>a\<in>set done. is_send a \<longrightarrow> send_justified rv items (ro_db r) a))
     \<and> accounted rv r r'"

lemma accounted_same: "ro_db r' = ro_db r \<Longrightarrow> accounted rv r r'"
  by (simp add: accounted_def)

lemma router_run_refl: "db_ok (ro_db r) \<Longrightarrow> router_run rv items r r"
  by (simp add: router_run_def db_progress_refl accounted_same)

lemma accepted_later: "accepted item k r \<Longrightarrow> ro_trace r' = ro_trace r @ run \<Longrightarrow> accepted item k r'"
  by (simp add: accepted_def)

lemma send_justified_earlier:
  "db_ok db \<Longrightarrow> db_progress db db' \<Longrightarrow> send_justified rv items db' a \<Longrightarrow> send_justified rv items db a"
  unfolding send_justified_def using db_progress_stable(2) by blast

lemma router_run_trans:
  assumes "db_ok (ro_db a)" and "router_run rv items a b" and "router_run rv items b c"
  shows "router_run rv items a c"
proof -
  from assms(2) obtain xs where xs: "ro_trace b = ro_trace a @ xs"
    "\<forall>x\<in>set xs. is_send x \<longrightarrow> send_justified rv items (ro_db a) x"
    and ab: "db_progress (ro_db a) (ro_db b)" by (auto simp: router_run_def)
  from assms(3) obtain ys where ys: "ro_trace c = ro_trace b @ ys"
    "\<forall>x\<in>set ys. is_send x \<longrightarrow> send_justified rv items (ro_db b) x"
    and bc: "db_progress (ro_db b) (ro_db c)" by (auto simp: router_run_def)
  have "accounted rv a b" "accounted rv b c" using assms(2,3) by (simp_all add: router_run_def)
  then have "accounted rv a c" using accepted_later [OF _ ys(1)] unfolding accounted_def by blast
  have "\<forall>x\<in>set (xs @ ys). is_send x \<longrightarrow> send_justified rv items (ro_db a) x"
    using xs(2) ys(2) send_justified_earlier [OF assms(1) ab] by auto
  moreover have "ro_trace c = ro_trace a @ (xs @ ys)" using xs(1) ys(1) by simp
  ultimately show ?thesis
    using db_progress_trans [OF ab bc] \<open>accounted rv a c\<close> unfolding router_run_def by blast
qed

lemma router_run_mono: "router_run rv items r r' \<Longrightarrow> items \<subseteq> items' \<Longrightarrow> router_run rv items' r r'"
  unfolding router_run_def send_justified_def by (meson subsetD)

text \<open>
  The specification of a router operation: from a state whose database is well formed and that
  satisfies \<open>P\<close> it makes a run, and if it succeeds, \<open>Q\<close> holds of its result and final state.
\<close>

definition run_spec :: "router_env \<Rightarrow> WakeEnvelope set \<Rightarrow> (router \<Rightarrow> bool) \<Rightarrow> (router, 'a) op
    \<Rightarrow> ('a \<Rightarrow> router \<Rightarrow> bool) \<Rightarrow> bool" where
  "run_spec rv items P m Q \<longleftrightarrow>
     (\<forall>r. db_ok (ro_db r) \<longrightarrow> P r \<longrightarrow>
        router_run rv items r (snd (m r)) \<and> (\<forall>x. fst (m r) = Inr x \<longrightarrow> Q x (snd (m r))))"

lemma run_specD:
  assumes "run_spec rv items P m Q" and "db_ok (ro_db r)" and "P r" and "m r = (x, r')"
  shows "router_run rv items r r'" and "db_ok (ro_db r')" and "x = Inr y \<Longrightarrow> Q y r'"
  using assms unfolding run_spec_def router_run_def db_progress_def by (metis fst_conv snd_conv)+

lemma run_specI:
  assumes "\<And>r x r'. db_ok (ro_db r) \<Longrightarrow> P r \<Longrightarrow> m r = (x, r') \<Longrightarrow>
      router_run rv items r r' \<and> (\<forall>y. x = Inr y \<longrightarrow> Q y r')"
  shows "run_spec rv items P m Q"
  unfolding run_spec_def using assms by (metis prod.collapse)

lemma run_andthen:
  assumes m: "run_spec rv items P m R" and f: "\<And>x. run_spec rv items (R x) (f x) Q"
  shows "run_spec rv items P (andthen m f) Q"
proof (rule run_specI)
  fix r x r' assume ok: "db_ok (ro_db r)" and P: "P r" and run: "andthen m f r = (x, r')"
  obtain y r1 where mr: "m r = (y, r1)" by fastforce
  note first = run_specD [OF m ok P mr]
  show "router_run rv items r r' \<and> (\<forall>z. x = Inr z \<longrightarrow> Q z r')"
  proof (cases y)
    case (Inl e)
    with mr run first show ?thesis by (auto simp: andthen_def)
  next
    case (Inr z)
    with mr run have fr: "f z r1 = (x, r')" by (simp add: andthen_def)
    note second = run_specD [OF f first(2) first(3) [OF Inr] fr]
    show ?thesis using second router_run_trans [OF ok first(1) second(1)] by blast
  qed
qed

lemma run_conseq:
  "run_spec rv items P m Q \<Longrightarrow> (\<And>r. db_ok (ro_db r) \<Longrightarrow> P' r \<Longrightarrow> P r) \<Longrightarrow> (\<And>x r. Q x r \<Longrightarrow> Q' x r) \<Longrightarrow>
   run_spec rv items P' m Q'"
  by (simp add: run_spec_def)

lemma run_ret: "(\<And>r. P r \<Longrightarrow> Q x r) \<Longrightarrow> run_spec rv items P (ret x) Q"
  by (simp add: run_spec_def ret_def router_run_refl)

lemma run_if:
  "run_spec rv items P m Q \<Longrightarrow> run_spec rv items P m' Q \<Longrightarrow> run_spec rv items P (if c then m else m') Q"
  by simp

text \<open>What depends on the growing database and trace only is carried past an operation.\<close>

definition persistent :: "(router \<Rightarrow> bool) \<Rightarrow> bool" where
  "persistent S \<longleftrightarrow> (\<forall>r r'. db_ok (ro_db r) \<longrightarrow> db_progress (ro_db r) (ro_db r') \<longrightarrow>
        (\<exists>run. ro_trace r' = ro_trace r @ run) \<longrightarrow> S r \<longrightarrow> S r')"

lemma persistent_run: "persistent S \<Longrightarrow> db_ok (ro_db r) \<Longrightarrow> router_run rv items r r' \<Longrightarrow> S r \<Longrightarrow> S r'"
  unfolding persistent_def router_run_def by blast

lemma run_frame:
  assumes "run_spec rv items P m Q" and "persistent S"
  shows "run_spec rv items (\<lambda>r. P r \<and> S r) m (\<lambda>x r. Q x r \<and> S r)"
  using assms persistent_run unfolding run_spec_def by blast

lemma persistent_accepted: "persistent (accepted item k)"
  unfolding persistent_def using accepted_later by blast

lemma persistent_delivered: "persistent (\<lambda>r. wake_delivered item k (ro_db r))"
  unfolding persistent_def using db_progress_stable(2) by blast

lemma persistent_ball: "(\<And>x. persistent (S x)) \<Longrightarrow> persistent (\<lambda>r. \<forall>x\<in>A. S x r)"
  unfolding persistent_def by blast

section \<open>Primitive operations\<close>

lemma run_local:
  assumes "\<And>r x r'. m r = (x, r') \<Longrightarrow> ro_db r' = ro_db r
      \<and> (\<exists>done. ro_trace r' = ro_trace r @ done \<and> (\<forall>a\<in>set done. \<not> is_send a))"
  shows "run_spec rv items (\<lambda>r. S (ro_db r)) m (\<lambda>_ r. S (ro_db r))"
proof (rule run_specI)
  fix r x r' assume ok: "db_ok (ro_db r)" and S: "S (ro_db r)" and m: "m r = (x, r')"
  from assms [OF m] db_progress_refl [OF ok] S accounted_same [of r' r rv]
  show "router_run rv items r r' \<and> (\<forall>y. x = Inr y \<longrightarrow> S (ro_db r'))"
    unfolding router_run_def by auto
qed

lemma run_fire: "run_spec rv items (\<lambda>r. S (ro_db r)) (fire_event rv e) (\<lambda>_ r. S (ro_db r))"
  by (rule run_local) (auto simp: fire_event_def is_send_def split: prod.splits)

lemma run_sleep: "run_spec rv items (\<lambda>r. S (ro_db r)) (do_action (Sleep n)) (\<lambda>_ r. S (ro_db r))"
  by (rule run_local) (auto simp: do_action_def update_def is_send_def)

lemma run_attempts:
  "run_spec rv items (\<lambda>r. S (ro_db r)) (update (\<lambda>r. r\<lparr>ro_attempts := as\<rparr>)) (\<lambda>_ r. S (ro_db r))"
  by (rule run_local) (auto simp: update_def)

lemma run_answer:
  "run_spec rv items (\<lambda>r. S (ro_db r)) (do_action (ChatAnswer key res))
     (\<lambda>_ r. S (ro_db r) \<and> ChatAnswer key res \<in> set (ro_trace r))"
  by (auto simp: run_spec_def do_action_def update_def router_run_def db_progress_refl accounted_same is_send_def)

lemma run_mark_and_flush:
  "run_spec rv items (\<lambda>r. S (ro_db r)) (mark_and_flush rv item) (\<lambda>_ r. S (ro_db r))"
  by (rule run_local) (auto simp: mark_and_flush_def Let_def is_send_def split: sum.splits)

lemma run_send:
  assumes "item \<in> items" and "authorised rv item sink a"
  shows "run_spec rv items
      (\<lambda>r. S (ro_db r) \<and> (rv_store rv = None \<or> \<not> wake_delivered item (sk_key sink) (ro_db r)))
      (do_action a) (\<lambda>_ r. S (ro_db r))"
  using assms
  by (auto simp: run_spec_def do_action_def update_def router_run_def db_progress_refl accounted_same
      send_justified_def)

text \<open>An operation of the store accounts for what it delivers.\<close>

definition settles :: "router_env \<Rightarrow> (router \<Rightarrow> bool) \<Rightarrow> (database, 'a) op \<Rightarrow> bool" where
  "settles rv C m \<longleftrightarrow>
     (\<forall>r. db_ok (ro_db r) \<longrightarrow> C r \<longrightarrow> accounted rv r (r\<lparr>ro_db := snd (m (ro_db r))\<rparr>))"

lemma wake_delivered_new:
  assumes "db_ok db" and "db_ok db'" and "db_ext D db db'"
    and "wake_delivered item k db'" and "\<not> wake_delivered item k db"
  shows "\<exists>e d. delivery_of item k e d db' \<and> d \<in> delivered_set db' \<and> d \<notin> delivered_set db"
proof -
  from assms(4) obtain e d where d: "delivery_of item k e d db'" "delivered_at d db'" by (auto simp: wake_delivered_def)
  have "\<not> delivered_at d db"
  proof
    assume old: "delivered_at d db"
    then have "d \<in> row_ids (db_sink_delivery db)" by (auto simp: delivered_at_def row_ids_row_at)
    from delivery_of_earlier [OF assms(1-3) this d(1)] old assms(5) show False by (auto simp: wake_delivered_def)
  qed
  with d show ?thesis by (auto simp: delivered_set_def)
qed

lemma settles_nothing:
  assumes "stmt_spec D P m Q" and "delivers_nothing m"
  shows "settles rv (\<lambda>r. P (ro_db r)) m"
proof -
  have "wake_delivered item k db" if "db_ok db" "P db" "wake_delivered item k (snd (m db))" for item k db
    using assms(1) that wake_delivered_new [of db "snd (m db)" D item k] delivers_nothingD [OF assms(2), of db]
    unfolding stmt_spec_def by blast
  then show ?thesis by (auto simp: settles_def accounted_def)
qed

lemma settles_mono: "settles rv C m \<Longrightarrow> (\<And>r. C' r \<Longrightarrow> C r) \<Longrightarrow> settles rv C' m"
  by (simp add: settles_def)

lemma settles_delivery:
  assumes spec: "\<And>D. stmt_spec D P m Q"
    and new: "\<And>db d. db_ok db \<Longrightarrow> P db \<Longrightarrow> d \<in> delivered_set (snd (m db)) \<Longrightarrow> d \<notin> delivered_set db \<Longrightarrow>
        \<exists>e. delivery_of item k e d (snd (m db))"
    and account: "\<And>r. C r \<Longrightarrow> P (ro_db r) \<and> (accepted item k r \<or> (\<exists>sink\<in>set (rv_sinks rv). sk_kind sink = Db \<and> sk_key sink = k))"
  shows "settles rv C m"
  unfolding settles_def accounted_def
proof (intro allI impI)
  fix r :: router and item' k'
  let ?db = "ro_db r" and ?r = "r\<lparr>ro_db := snd (m (ro_db r))\<rparr>"
  assume ok: "db_ok ?db" and C: "C r" and later: "wake_delivered item' k' (ro_db ?r)"
  from account [OF C] have P: "P ?db" by blast
  with spec [of UNIV] ok have db': "db_ok (snd (m ?db))" "db_ext UNIV ?db (snd (m ?db))"
    unfolding stmt_spec_def by blast+
  show "wake_delivered item' k' ?db \<or> accepted item' k' ?r
      \<or> (\<exists>sink\<in>set (rv_sinks rv). sk_kind sink = Db \<and> sk_key sink = k')"
  proof (rule ccontr)
    assume not: "\<not> ?thesis"
    then obtain e' d where d: "delivery_of item' k' e' d (snd (m ?db))" "d \<in> delivered_set (snd (m ?db))"
        "d \<notin> delivered_set ?db"
      using wake_delivered_new [OF ok db', of item' k'] later by auto
    from new [OF ok P d(2,3)] obtain e where "delivery_of item k e d (snd (m ?db))" ..
    from delivery_of_same [OF db'(1) this d(1)] account [OF C] not show False by (auto simp: accepted_def)
  qed
qed

text \<open>An operation of the store whose deliveries are untouched, or not delivered yet.\<close>

lemma run_on_db:
  assumes "\<And>D. A \<subseteq> D \<Longrightarrow> stmt_spec D P m Q" and "settles rv (\<lambda>r. P (ro_db r) \<and> C r) m"
  shows "run_spec rv items (\<lambda>r. P (ro_db r) \<and> C r \<and> (\<forall>d\<in>A. \<not> delivered_at d (ro_db r))) (on_db m)
    (\<lambda>x r. Q x (ro_db r))"
proof (rule run_specI)
  fix r x r' assume ok: "db_ok (ro_db r)"
    and pre: "P (ro_db r) \<and> C r \<and> (\<forall>d\<in>A. \<not> delivered_at d (ro_db r))" and run: "on_db m r = (x, r')"
  obtain y db where m: "m (ro_db r) = (y, db)" by fastforce
  with run have r': "x = y" "r' = r\<lparr>ro_db := db\<rparr>" by (simp_all add: on_db_def)
  from pre have "A \<subseteq> - delivered_set (ro_db r)" by (auto simp: delivered_set_def)
  from assms(2) ok pre m have "accounted rv r r'"
    unfolding settles_def r' by (metis snd_conv)
  from assms(1) [OF \<open>A \<subseteq> _\<close>] ok pre m have
    "db_ok db \<and> db_ext (- delivered_set (ro_db r)) (ro_db r) db \<and> (\<forall>z. y = Inr z \<longrightarrow> Q z db)"
    unfolding stmt_spec_def by (metis fst_conv snd_conv)
  then show "router_run rv items r r' \<and> (\<forall>z. x = Inr z \<longrightarrow> Q z (ro_db r'))"
    using \<open>accounted rv r r'\<close> by (simp add: router_run_def db_progress_def r')
qed

lemma run_on_db_plain:
  assumes "\<And>D. stmt_spec D P m Q" and "delivers_nothing m"
  shows "run_spec rv items (\<lambda>r. P (ro_db r)) (on_db m) (\<lambda>x r. Q x (ro_db r))"
  using run_on_db [where A = "{}" and C = "\<lambda>_. True", OF assms(1) settles_mono [OF settles_nothing [OF assms]]] by simp

lemma run_or_fire:
  assumes "run_spec rv items P m Q"
  shows "run_spec rv items P (or_fire rv event m) Q"
proof (rule run_specI)
  fix r x r' assume ok: "db_ok (ro_db r)" and P: "P r" and run: "or_fire rv event m r = (x, r')"
  obtain y r1 where mr: "m r = (y, r1)" by fastforce
  note first = run_specD [OF assms ok P mr]
  show "router_run rv items r r' \<and> (\<forall>z. x = Inr z \<longrightarrow> Q z r')"
  proof (cases y)
    case (Inl e)
    obtain z r2 where fired: "fire_event rv (event e) r1 = (z, r2)" by fastforce
    then have "z = Inr ()" by (auto simp: fire_event_def split: prod.splits)
    with run mr Inl fired have r': "x = Inl e" "r' = r2" by (auto simp: or_fire_def andthen_def fail_def)
    from run_specD(1) [OF run_fire [where S = "\<lambda>_. True"] first(2) TrueI fired]
    show ?thesis using router_run_trans [OF ok first(1)] by (simp add: r')
  next
    case (Inr z)
    with run mr first show ?thesis by (auto simp: or_fire_def)
  qed
qed

section \<open>One wake sink\<close>

definition ticket_of :: "router_env \<Rightarrow> WakeEnvelope \<Rightarrow> SinkConfig \<Rightarrow> DeliveryTicket option \<Rightarrow> database \<Rightarrow> bool" where
  "ticket_of rv item sink ticket db =
     (case ticket of
        None \<Rightarrow> rv_store rv = None
      | Some tk \<Rightarrow> rv_store rv \<noteq> None
          \<and> delivery_of item (sk_key sink) (dt_daemon_event_id tk) (dt_delivery_id tk) db)"

definition ticket_open :: "router_env \<Rightarrow> WakeEnvelope \<Rightarrow> SinkConfig \<Rightarrow> DeliveryTicket option \<Rightarrow> database \<Rightarrow> bool" where
  "ticket_open rv item sink ticket db \<longleftrightarrow>
     ticket_of rv item sink ticket db \<and> (\<forall>tk. ticket = Some tk \<longrightarrow> \<not> delivered_at (dt_delivery_id tk) db)"

lemma ticket_open_undelivered:
  "db_ok db \<Longrightarrow> ticket_open rv item sink ticket db \<Longrightarrow>
   rv_store rv = None \<or> \<not> wake_delivered item (sk_key sink) db"
  unfolding ticket_open_def ticket_of_def wake_delivered_def
  using delivery_of_unique by (cases ticket) fastforce+

lemma spec_update_undelivered:
  assumes "d \<in> D" and "\<And>now r. sink_delivery_key (f now r) = sink_delivery_key r"
    and "\<And>now r. sd_status (f now r) \<noteq> ''delivered''"
  shows "stmt_spec D (delivery_of item k e d) (update_delivery d f)
    (\<lambda>_ db. delivery_of item k e d db \<and> \<not> delivered_at d db)"
proof (rule stmt_specI)
  fix db assume ok: "db_ok db" and pre: "delivery_of item k e d db"
  let ?m = "update_delivery d f db"
  have "stmt_spec D (\<lambda>_. True) (update_delivery d f) (\<lambda>_ _. True)"
    using assms by (intro spec_update_delivery) simp_all
  from spec_state [OF this ok] have post: "db_ok (snd ?m)" "db_ext D db (snd ?m)" by simp_all
  then have "delivery_of item k e d (snd ?m)"
    using ok pre stable_delivery_of unfolding stable_def by blast
  moreover have "\<not> delivered_at d (snd ?m)" if "fst ?m = Inr x" for x
    using assms(3) that by (auto simp: update_delivery_def execute_def andthen_def access_def update_def delivered_at_def
        row_at_update split: option.splits)
  ultimately show "db_ok (snd ?m) \<and> db_ext D db (snd ?m)
      \<and> (\<forall>x. fst ?m = Inr x \<longrightarrow> delivery_of item k e d (snd ?m) \<and> \<not> delivered_at d (snd ?m))"
    using post by blast
qed

lemma spec_mark_undelivered:
  assumes "d \<in> D"
  shows "stmt_spec D (delivery_of item k e d) (mark_delivery_attempted store d)
           (\<lambda>_ db. delivery_of item k e d db \<and> \<not> delivered_at d db)"
    and "stmt_spec D (delivery_of item k e d) (mark_delivery_failed store d err)
           (\<lambda>_ db. delivery_of item k e d db \<and> \<not> delivered_at d db)"
  unfolding mark_delivery_attempted_def mark_delivery_failed_def
  using assms
  by (auto simp: set_attempted_def set_failed_def sink_delivery_key_def
      intro!: spec_with_schema [OF spec_update_undelivered stable_delivery_of])

lemma run_mark_undelivered:
  assumes "\<And>store d D item k e. d \<in> D \<Longrightarrow> stmt_spec D (delivery_of item k e d) (mark store d)
      (\<lambda>_ db. delivery_of item k e d db \<and> \<not> delivered_at d db)"
    and "\<And>store d. delivers_nothing (mark store d)"
  shows "run_spec rv items (\<lambda>r. ticket_open rv item sink ticket (ro_db r)) (mark_on_store rv ticket mark)
    (\<lambda>_ r. ticket_open rv item sink ticket (ro_db r))"
proof (cases "\<exists>store tk. rv_store rv = Some store \<and> ticket = Some tk")
  case True
  then obtain store tk where s: "rv_store rv = Some store" "ticket = Some tk" by blast
  have "run_spec rv items
      (\<lambda>r. delivery_of item (sk_key sink) (dt_daemon_event_id tk) (dt_delivery_id tk) (ro_db r)
         \<and> True \<and> (\<forall>d\<in>{dt_delivery_id tk}. \<not> delivered_at d (ro_db r)))
      (on_db (mark store (dt_delivery_id tk)))
      (\<lambda>_ r. delivery_of item (sk_key sink) (dt_daemon_event_id tk) (dt_delivery_id tk) (ro_db r)
         \<and> \<not> delivered_at (dt_delivery_id tk) (ro_db r))"
    by (rule run_on_db [OF assms(1)], simp, rule settles_mono [OF settles_nothing [OF assms(1) assms(2)]]) auto
  with s show ?thesis
    unfolding mark_on_store_def by (simp add: ticket_open_def ticket_of_def)
next
  case False
  then have "mark_on_store rv ticket mark = ret ()"
    by (auto simp: mark_on_store_def split: option.splits)
  then show ?thesis by (simp add: run_ret)
qed

lemma settles_mark_delivered:
  "settles rv (\<lambda>r. delivery_of item k e d (ro_db r) \<and> accepted item k r) (mark_delivery_delivered store d)"
proof (rule settles_delivery [OF spec_mark_delivered [of _ item k e d store]])
  fix db d' assume ok: "db_ok db" and pre: "delivery_of item k e d db"
    and new: "d' \<in> delivered_set (snd (mark_delivery_delivered store d db))" "d' \<notin> delivered_set db"
  from new delivered_by_mark [of store d db] have "d' = d" by blast
  have "db_ok (snd (mark_delivery_delivered store d db)) \<and> db_ext UNIV db (snd (mark_delivery_delivered store d db))"
    using spec_mark_delivered [of UNIV item k e d store] ok pre unfolding stmt_spec_def by blast
  with ok pre stable_delivery_of show "\<exists>e. delivery_of item k e d' (snd (mark_delivery_delivered store d db))"
    unfolding stable_def \<open>d' = d\<close> by blast
qed simp

lemma run_mark_delivered:
  "run_spec rv items (\<lambda>r. ticket_open rv item sink ticket (ro_db r) \<and> accepted item (sk_key sink) r)
     (mark_on_store rv ticket mark_delivery_delivered)
     (\<lambda>_ r. rv_store rv \<noteq> None \<longrightarrow> wake_delivered item (sk_key sink) (ro_db r))"
proof (cases "\<exists>store tk. rv_store rv = Some store \<and> ticket = Some tk")
  case True
  then obtain store tk where s: "rv_store rv = Some store" "ticket = Some tk" by blast
  have "run_spec rv items
      (\<lambda>r. delivery_of item (sk_key sink) (dt_daemon_event_id tk) (dt_delivery_id tk) (ro_db r)
         \<and> accepted item (sk_key sink) r \<and> (\<forall>d\<in>{}. \<not> delivered_at d (ro_db r)))
      (on_db (mark_delivery_delivered store (dt_delivery_id tk)))
      (\<lambda>_ r. delivery_of item (sk_key sink) (dt_daemon_event_id tk) (dt_delivery_id tk) (ro_db r)
         \<and> delivered_at (dt_delivery_id tk) (ro_db r))"
    by (rule run_on_db [OF spec_mark_delivered settles_mark_delivered])
  then show ?thesis
    unfolding mark_on_store_def s prod.case option.case
    by (rule run_conseq) (auto simp: ticket_open_def ticket_of_def s wake_delivered_def)
next
  case False
  then have eq: "mark_on_store rv ticket mark_delivery_delivered = ret ()"
    by (auto simp: mark_on_store_def split: option.splits)
  have none: "rv_store rv = None" if "ticket_open rv item sink ticket db" for db
    using False that
    by (cases ticket; cases "rv_store rv") (simp_all add: ticket_open_def ticket_of_def)
  show ?thesis
    unfolding eq
  proof (rule run_ret)
    fix r assume "ticket_open rv item sink ticket (ro_db r) \<and> accepted item (sk_key sink) r"
    from none [OF conjunct1 [OF this]]
    show "rv_store rv \<noteq> None \<longrightarrow> wake_delivered item (sk_key sink) (ro_db r)" by simp
  qed
qed

lemma run_marks:
  shows run_mark_attempted: "run_spec rv items (\<lambda>r. ticket_open rv item sink ticket (ro_db r))
      (mark_on_store rv ticket mark_delivery_attempted)
      (\<lambda>_ r. ticket_open rv item sink ticket (ro_db r))"
    and run_mark_failed: "run_spec rv items (\<lambda>r. ticket_open rv item sink ticket (ro_db r))
      (mark_on_store rv ticket (\<lambda>store d. mark_delivery_failed store d err))
      (\<lambda>_ r. ticket_open rv item sink ticket (ro_db r))"
  by (rule run_mark_undelivered, erule spec_mark_undelivered, rule delivers_nothing_operations)+

text \<open>The post-condition of a delivery: it is recorded, or, without a store, accepted.\<close>

definition sink_done :: "router_env \<Rightarrow> WakeEnvelope \<Rightarrow> SinkConfig \<Rightarrow> router \<Rightarrow> bool" where
  "sink_done rv item sink r \<longleftrightarrow>
     (if rv_store rv = None then accepted item (sk_key sink) r else wake_delivered item (sk_key sink) (ro_db r))"

lemma persistent_sink_done: "persistent (sink_done rv item sink)"
  using persistent_delivered [of item "sk_key sink"] persistent_accepted [of item "sk_key sink"]
  by (cases "rv_store rv") (simp_all add: sink_done_def [abs_def])

lemma run_attempt_send:
  assumes "item \<in> items"
    and "authorised rv item sink (SendChat session rendered (wake_idempotency_key item sink))"
  shows "run_spec rv items (\<lambda>r. ticket_open rv item sink ticket (ro_db r))
    (attempt_send rv sd item sink session rendered ticket backoff a)
    (\<lambda>res r. (res = None \<longrightarrow> ticket_open rv item sink ticket (ro_db r))
       \<and> (res = Some Continue \<longrightarrow> sink_done rv item sink r))"
    (is "run_spec rv items ?P _ ?Q")
proof -
  have send: "run_spec rv items ?P
      (do_action (SendChat session rendered (wake_idempotency_key item sink))) (\<lambda>_. ?P)"
    by (rule run_conseq [OF run_send [OF assms, of "ticket_open rv item sink ticket"]])
      (auto dest: ticket_open_undelivered)
  have stop: "run_spec rv items ?P (ret (Some Stop)) ?Q" by (rule run_ret) simp
  have mark: "run_spec rv items (\<lambda>r. ?P r \<and> accepted item (sk_key sink) r)
      (mark_on_store rv ticket mark_delivery_delivered) (\<lambda>_. sink_done rv item sink)"
    by (rule run_conseq [OF run_frame [OF run_mark_delivered persistent_accepted [of item "sk_key sink"]]])
      (auto simp: sink_done_def)
  have ok: "run_spec rv items (\<lambda>r. ?P r \<and> accepted item (sk_key sink) r)
      (andthen (mark_on_store rv ticket mark_delivery_delivered) (\<lambda>_. ret (Some Continue))) ?Q"
    by (rule run_andthen [OF mark]) (rule run_ret, simp)
  have "run_spec rv items ?P (andthen (do_action (Sleep n)) (\<lambda>_. ret None)) ?Q" for n
    by (rule run_andthen [OF run_sleep [where S = "ticket_open rv item sink ticket"]])
      (rule run_ret, simp)
  with stop have "run_spec rv items ?P (if c then ret (Some Stop)
      else andthen (do_action (Sleep n)) (\<lambda>_. ret None)) ?Q" for c n
    by simp
  then have failed: "run_spec rv items ?P
      (andthen (mark_on_store rv ticket (\<lambda>store d. mark_delivery_failed store d err)) (\<lambda>_.
       andthen (fire_event rv e) (\<lambda>_. if c then ret (Some Stop)
         else andthen (do_action (Sleep n)) (\<lambda>_. ret None)))) ?Q" for err e c n
    by (rule run_andthen [OF run_mark_failed run_andthen [OF run_fire]])
  have answered: "run_spec rv items (\<lambda>r. ?P r \<and> ChatAnswer (wake_idempotency_key item sink) (sa_result a) \<in> set (ro_trace r))
      (case sa_result a of
          Inr _ \<Rightarrow> andthen (mark_on_store rv ticket mark_delivery_delivered) (\<lambda>_. ret (Some Continue))
        | Inl err \<Rightarrow>
            andthen (mark_on_store rv ticket (\<lambda>store d. mark_delivery_failed store d err)) (\<lambda>_.
            andthen (fire_event rv (wake_failed_event item sink err)) (\<lambda>_.
            if sd \<and> sa_remaining_after a = 0 then ret (Some Stop)
            else andthen (do_action (Sleep (
                   if sd then min (retry_delay rv backoff a) (sa_remaining_after a)
                   else retry_delay rv backoff a))) (\<lambda>_. ret None)))) ?Q"
  proof (cases "sa_result a")
    case (Inl err)
    show ?thesis unfolding Inl sum.case by (rule run_conseq [OF failed]) simp_all
  next
    case (Inr u)
    show ?thesis unfolding Inr sum.case by (rule run_conseq [OF ok]) (simp_all add: accepted_sink)
  qed
  note stopped = run_if [OF stop run_andthen [OF run_answer [where S = "ticket_open rv item sink ticket"] answered]]
  show ?thesis
    unfolding attempt_send_def by (rule run_if [OF stop run_andthen [OF send stopped]])
qed

lemma run_send_loop:
  assumes "item \<in> items"
    and "authorised rv item sink (SendChat session rendered (wake_idempotency_key item sink))"
  shows "run_spec rv items (\<lambda>r. ticket_open rv item sink ticket (ro_db r))
    (send_loop rv sd item sink session rendered ticket backoff attempts)
    (\<lambda>fl r. fl = Continue \<longrightarrow> sink_done rv item sink r)"
proof (induction attempts arbitrary: backoff)
  case Nil
  show ?case
    unfolding send_loop.simps by (rule run_andthen [OF run_mark_attempted]) (rule run_ret, simp)
next
  case (Cons a attempts)
  have rest: "run_spec rv items
      (\<lambda>r. (res = None \<longrightarrow> ticket_open rv item sink ticket (ro_db r))
         \<and> (res = Some Continue \<longrightarrow> sink_done rv item sink r))
      (case res of Some fl \<Rightarrow> ret fl
       | None \<Rightarrow> send_loop rv sd item sink session rendered ticket
           (min (saturating_mul backoff 2) (rc_max_ms (rv_retry rv))) attempts)
      (\<lambda>fl r. fl = Continue \<longrightarrow> sink_done rv item sink r)" for res
    using Cons.IH by (cases res) (auto intro!: run_ret)
  show ?case
    unfolding send_loop.simps
    by (rule run_andthen [OF run_mark_attempted run_andthen [OF run_attempts
          run_andthen [OF run_attempt_send [OF assms] rest]]])
qed

lemma run_queue_wake:
  assumes "rv_store rv = Some store"
  shows "run_spec rv items (\<lambda>_. True)
     (andthen (or_fire rv event (on_db (queue_wake_sink_delivery pj store item attention
        (wake_snapshot rv item sink) routing))) (\<lambda>tk. ret (Some tk)))
     (\<lambda>ticket r. ticket_of rv item sink ticket (ro_db r)
        \<and> (\<exists>tk. ticket = Some tk \<and> (dt_already_delivered tk \<longleftrightarrow> delivered_at (dt_delivery_id tk) (ro_db r))))"
proof -
  have "run_spec rv items (\<lambda>_. True)
      (on_db (queue_wake_sink_delivery pj store item attention (wake_snapshot rv item sink) routing))
      (\<lambda>tk r. delivery_of item (sk_key sink) (dt_daemon_event_id tk) (dt_delivery_id tk) (ro_db r)
         \<and> (dt_already_delivered tk \<longleftrightarrow> delivered_at (dt_delivery_id tk) (ro_db r)))"
    by (rule run_conseq [OF run_on_db_plain [OF spec_queue_wake [where old = None] delivers_nothing_operations(2)]])
      (simp_all add: wake_snapshot_def)
  from run_or_fire [OF this] show ?thesis
    by (rule run_andthen) (rule run_ret, simp add: ticket_of_def assms)
qed

lemma run_deliver_to_wake_sink:
  assumes item: "item \<in> items" "ar_deliver (evaluate_item item)"
    and sink: "sink \<in> set (wake_sinks (rv_sinks rv))"
  shows "run_spec rv items (\<lambda>_. True)
    (deliver_to_wake_sink rv sd item (evaluate_item item) routing sink)
    (\<lambda>fl r. fl = Continue \<longrightarrow> sink_done rv item sink r)"
  unfolding deliver_to_wake_sink_def
proof (rule run_andthen)
  let ?R = "\<lambda>ticket r. ticket_of rv item sink ticket (ro_db r)
      \<and> (\<forall>tk. ticket = Some tk \<longrightarrow> (dt_already_delivered tk \<longleftrightarrow> delivered_at (dt_delivery_id tk) (ro_db r)))"
  show "run_spec rv items (\<lambda>_. True)
     (case rv_store rv of
          None \<Rightarrow> ret None
        | Some store \<Rightarrow>
            andthen (or_fire rv (storage_hard_failure_event ''db_wake_sink_queue_failed'' item)
              (on_db (queue_wake_sink_delivery (rv_print_json rv) store item (evaluate_item item)
                        (wake_snapshot rv item sink) routing))) (\<lambda>tk. ret (Some tk))) ?R"
  proof (cases "rv_store rv")
    case None
    then show ?thesis by (simp add: run_ret ticket_of_def)
  next
    case (Some store)
    show ?thesis unfolding Some option.case by (rule run_conseq [OF run_queue_wake [OF Some]]) auto
  qed
  fix ticket :: "DeliveryTicket option"
  have auth: "authorised rv item sink (SendChat (effective_session_key rv item sink)
      (render_inbound_wake (rv_fmt3 rv) item (evaluate_item item)) (wake_idempotency_key item sink))"
    using item sink by (simp add: authorised_def)
  let ?already = "case ticket of None \<Rightarrow> False | Some tk \<Rightarrow> dt_already_delivered tk"
  let ?loop = "\<lambda>r. send_loop rv sd item sink (effective_session_key rv item sink)
      (render_inbound_wake (rv_fmt3 rv) item (evaluate_item item)) ticket
      (rc_base_ms (rv_retry rv)) (ro_attempts r) r"
  show "run_spec rv items (?R ticket) (if ?already then ret Continue else ?loop)
      (\<lambda>fl r. fl = Continue \<longrightarrow> sink_done rv item sink r)"
  proof (cases ?already)
    case True
    then obtain tk where "ticket = Some tk" "dt_already_delivered tk" by (cases ticket) auto
    then show ?thesis
      by (auto intro!: run_ret simp: sink_done_def wake_delivered_def ticket_of_def)
  next
    case False
    then have opened: "ticket_open rv item sink ticket (ro_db r)" if "?R ticket r" for r
      using that by (cases ticket) (simp_all add: ticket_open_def)
    from run_send_loop [OF item(1) auth] have "run_spec rv items (?R ticket) ?loop
        (\<lambda>fl r. fl = Continue \<longrightarrow> sink_done rv item sink r)"
      using opened unfolding run_spec_def by blast
    with False show ?thesis by simp
  qed
qed

lemma run_deliver_to_wake_sinks:
  assumes item: "item \<in> items" "ar_deliver (evaluate_item item)"
    and "set sinks \<subseteq> set (wake_sinks (rv_sinks rv))"
  shows "run_spec rv items (\<lambda>_. True)
    (deliver_to_wake_sinks rv sd item (evaluate_item item) routing sinks)
    (\<lambda>fl r. fl = Continue \<longrightarrow> (\<forall>sink\<in>set sinks. sink_done rv item sink r))"
  using assms(3)
proof (induction sinks)
  case Nil
  show ?case by (simp add: run_ret)
next
  case (Cons sink sinks)
  let ?loop = "deliver_to_wake_sinks rv sd item (evaluate_item item) routing sinks"
  have rest: "run_spec rv items (sink_done rv item sink) ?loop
      (\<lambda>fl r. fl = Continue \<longrightarrow> (\<forall>s\<in>set (sink # sinks). sink_done rv item s r))"
    by (rule run_conseq [OF run_frame [OF Cons.IH persistent_sink_done]]) (use Cons.prems in auto)
  have "run_spec rv items (\<lambda>r. fl = Continue \<longrightarrow> sink_done rv item sink r)
      (if fl = Continue then ?loop else ret fl)
      (\<lambda>fl r. fl = Continue \<longrightarrow> (\<forall>s\<in>set (sink # sinks). sink_done rv item s r))" for fl
    using rest by (cases "fl = Continue") (auto intro!: run_ret)
  then show ?case
    unfolding deliver_to_wake_sinks.simps using Cons.prems item
    by (intro run_andthen [OF run_deliver_to_wake_sink]) auto
qed

section \<open>One message\<close>

definition message_done :: "router_env \<Rightarrow> WakeEnvelope \<Rightarrow> router \<Rightarrow> bool" where
  "message_done rv item r \<longleftrightarrow>
     (ar_deliver (evaluate_item item) \<longrightarrow>
       (\<forall>sink\<in>set (wake_sinks (rv_sinks rv)). sink_done rv item sink r))"

lemma persistent_message_done: "persistent (message_done rv item)"
  using persistent_sink_done unfolding persistent_def message_done_def by blast

lemma run_with_store:
  assumes "\<And>store D. stmt_spec D (\<lambda>_. True) (m store) (\<lambda>_ _. True)" and "\<And>store. settles rv (\<lambda>_. True) (m store)"
  shows "run_spec rv items (\<lambda>_. True) (with_store rv event m) (\<lambda>_ _. True)"
proof (cases "rv_store rv")
  case None
  then show ?thesis by (simp add: with_store_def run_ret)
next
  case (Some store)
  have "run_spec rv items (\<lambda>_. True) (on_db (m store)) (\<lambda>_ _. True)"
    using run_on_db [where A = "{}" and P = "\<lambda>_. True" and C = "\<lambda>_. True" and m = "m store", OF assms(1)] assms(2)
    by simp
  then show ?thesis
    unfolding with_store_def Some option.case
    by (intro run_andthen [OF run_or_fire] run_ret) simp_all
qed

lemma spec_weaken: "stmt_spec D (\<lambda>_. True) m Q \<Longrightarrow> stmt_spec D (\<lambda>_. True) m (\<lambda>_ _. True)"
  by (simp add: stmt_spec_def)

lemma no_enabled_wake_sinks: "enabled_sink_count sinks = 0 \<Longrightarrow> wake_sinks sinks = []"
  by (auto simp: enabled_sink_count_def wake_sinks_def filter_empty_conv)

text \<open>Operations that leave the runtime stores alone.\<close>

definition quiet :: "(router, 'a) op \<Rightarrow> bool" where
  "quiet m \<longleftrightarrow> (\<forall>r x r'. m r = (x, r') \<longrightarrow> ro_stores r' = ro_stores r)"

lemma quiet_andthen: "quiet m \<Longrightarrow> (\<And>x. quiet (f x)) \<Longrightarrow> quiet (andthen m f)"
  unfolding quiet_def andthen_def by (clarsimp split: prod.splits sum.splits)

lemma quiet_basic:
  "quiet (ret x)" "quiet (fail err)" "quiet (do_action a)" "quiet (on_db m)" "quiet (fire_event rv e)"
  "quiet (update (\<lambda>r. r\<lparr>ro_attempts := as\<rparr>))"
  by (simp_all add: quiet_def op_defs do_action_def on_db_def fire_event_def split: prod.splits)

lemma quiet_or_fire:
  assumes "quiet m"
  shows "quiet (or_fire rv event m)"
proof -
  have fired: "quiet (andthen (fire_event rv e) (\<lambda>_. fail err))" for e err
    by (intro quiet_andthen quiet_basic)
  have "ro_stores r' = ro_stores r" if run: "or_fire rv event m r = (x, r')" for r x r'
  proof (cases "m r")
    case (Pair y r1)
    then have "ro_stores r1 = ro_stores r" using assms unfolding quiet_def by blast
    moreover have "ro_stores r' = ro_stores r1"
      using run Pair fired unfolding quiet_def or_fire_def by (cases y) fastforce+
    ultimately show ?thesis by simp
  qed
  then show ?thesis unfolding quiet_def by blast
qed

lemma quiet_mark: "quiet (mark_on_store rv ticket mark)"
  by (auto simp: mark_on_store_def intro: quiet_basic split: option.split)

lemma quiet_attempt: "quiet (attempt_send rv sd item sink session rendered ticket backoff a)"
  unfolding attempt_send_def
  by (auto intro!: quiet_andthen quiet_mark quiet_basic split: sum.split)

lemma quiet_send_loop: "quiet (send_loop rv sd item sink session rendered ticket backoff attempts)"
  by (induction attempts arbitrary: backoff)
    (auto intro!: quiet_andthen quiet_mark quiet_basic quiet_attempt split: option.split)

lemma quiet_with_store: "quiet (with_store rv event m)"
  by (auto simp: with_store_def intro!: quiet_andthen quiet_or_fire quiet_basic split: option.split)

lemma quiet_deliver: "quiet (deliver_to_wake_sink rv sd item attention routing sink)"
proof -
  have "quiet (\<lambda>r. send_loop rv sd item sink session rendered ticket backoff (ro_attempts r) r)"
    for session rendered ticket backoff
    using quiet_send_loop by (simp add: quiet_def)
  then show ?thesis
    unfolding deliver_to_wake_sink_def
    by (auto intro!: quiet_andthen quiet_or_fire quiet_basic split: option.split)
qed

lemma quiet_deliver_all: "quiet (deliver_to_wake_sinks rv sd item attention routing sinks)"
  by (induction sinks) (auto intro!: quiet_andthen quiet_deliver quiet_basic)

definition mark_item :: "WakeEnvelope \<Rightarrow> (nat \<Rightarrow> RuntimeStore) \<Rightarrow> nat \<Rightarrow> RuntimeStore" where
  "mark_item item stores =
     stores(we_runtime item := mark_processed (we_message_id item) (we_timestamp item) (stores (we_runtime item)))"

text \<open>
  An operation handles a message completely or not at all, as far as the runtime stores show:
  they change only by marking the message, and only when its wakes are delivered.
\<close>

definition item_effect :: "router_env \<Rightarrow> WakeEnvelope \<Rightarrow> (router \<Rightarrow> bool) \<Rightarrow> (router, flow) op \<Rightarrow> bool" where
  "item_effect rv item P m \<longleftrightarrow>
     (\<forall>r x r'. db_ok (ro_db r) \<longrightarrow> P r \<longrightarrow> m r = (x, r') \<longrightarrow>
        router_run rv {item} r r' \<and>
        (ro_stores r' = ro_stores r \<and> x \<noteq> Inr Continue
         \<or> ro_stores r' = mark_item item (ro_stores r) \<and> message_done rv item r'))"

lemma effect_andthen:
  assumes m: "run_spec rv {item} P m R" and q: "quiet m" and f: "\<And>x. item_effect rv item (R x) (f x)"
  shows "item_effect rv item P (andthen m f)"
  unfolding item_effect_def
proof (intro allI impI)
  fix r x r' assume ok: "db_ok (ro_db r)" and P: "P r" and run: "andthen m f r = (x, r')"
  obtain y r1 where mr: "m r = (y, r1)" by fastforce
  note first = run_specD [OF m ok P mr]
  have same: "ro_stores r1 = ro_stores r" using q mr unfolding quiet_def by blast
  show "router_run rv {item} r r' \<and>
        (ro_stores r' = ro_stores r \<and> x \<noteq> Inr Continue
         \<or> ro_stores r' = mark_item item (ro_stores r) \<and> message_done rv item r')"
  proof (cases y)
    case (Inl e)
    with mr run have "x = Inl e" "r' = r1" by (simp_all add: andthen_def)
    with first same show ?thesis by simp
  next
    case (Inr z)
    with mr run have fr: "f z r1 = (x, r')" by (simp add: andthen_def)
    from f first(2) first(3) [OF Inr] fr have "router_run rv {item} r1 r'"
      "ro_stores r' = ro_stores r1 \<and> x \<noteq> Inr Continue
        \<or> ro_stores r' = mark_item item (ro_stores r1) \<and> message_done rv item r'"
      unfolding item_effect_def by blast+
    with router_run_trans [OF ok first(1)] same show ?thesis by simp
  qed
qed

lemma effect_mark:
  assumes "\<And>r. P r \<Longrightarrow> message_done rv item r"
  shows "item_effect rv item P (mark_and_flush rv item)"
  unfolding item_effect_def
proof (intro allI impI)
  fix r x r' assume ok: "db_ok (ro_db r)" and P: "P r" and run: "mark_and_flush rv item r = (x, r')"
  have "ro_stores r' = mark_item item (ro_stores r)"
    using run by (auto simp: mark_and_flush_def Let_def mark_item_def split: sum.splits)
  moreover have "router_run rv {item} r r'"
    by (rule run_specD(1) [OF run_mark_and_flush [where S = "\<lambda>_. True"] ok TrueI run])
  ultimately show "router_run rv {item} r r' \<and>
      (ro_stores r' = ro_stores r \<and> x \<noteq> Inr Continue
       \<or> ro_stores r' = mark_item item (ro_stores r) \<and> message_done rv item r')"
    using persistent_run [OF persistent_message_done ok] assms [OF P] by blast
qed

lemma effect_ret: "fl \<noteq> Continue \<Longrightarrow> item_effect rv item P (ret fl)"
  by (auto simp: item_effect_def ret_def router_run_refl)

lemma effect_if:
  "(c \<Longrightarrow> item_effect rv item P m) \<Longrightarrow> (\<not> c \<Longrightarrow> item_effect rv item P m') \<Longrightarrow>
   item_effect rv item P (if c then m else m')"
  by simp

lemma settles_record_db:
  assumes "sink \<in> set (rv_sinks rv)" and "sk_kind sink = Db"
  shows "settles rv (\<lambda>_. True) (record_db_sink_delivery pj store env attention sink routing)"
proof (rule settles_delivery [where P = "\<lambda>_. True" and item = env and k = "sk_key sink"])
  show "stmt_spec D (\<lambda>_. True) (record_db_sink_delivery pj store env attention sink routing) (\<lambda>_ _. True)" for D
    by (rule spec_weaken [OF spec_record_db [where old = None, simplified]])
  show "\<exists>e. delivery_of env (sk_key sink) e d (snd (record_db_sink_delivery pj store env attention sink routing db))"
    if "db_ok db" "d \<in> delivered_set (snd (record_db_sink_delivery pj store env attention sink routing db))"
      "d \<notin> delivered_set db" for db d
    using delivered_by_record [OF that(1) surjective_pairing that(2,3)] .
qed (use assms in blast)

lemma run_record_db:
  "run_spec rv {item} (\<lambda>_. True)
     (case find_db_sink (rv_sinks rv) of None \<Rightarrow> ret () | Some sink \<Rightarrow>
        with_store rv event (\<lambda>store. record_db_sink_delivery pj store item (evaluate_item item) sink (item_routing rv item)))
     (\<lambda>_ _. True)"
proof (cases "find_db_sink (rv_sinks rv)")
  case (Some sink)
  then have "sink \<in> set (rv_sinks rv)" "sk_kind sink = Db" by (auto simp: find_db_sink_def dest!: find_SomeD)
  then have "run_spec rv {item} (\<lambda>_. True)
      (with_store rv event (\<lambda>store. record_db_sink_delivery pj store item (evaluate_item item) sink (item_routing rv item)))
      (\<lambda>_ _. True)"
    by (intro run_with_store settles_record_db spec_weaken [OF spec_record_db [where old = None, simplified]])
  with Some show ?thesis by simp
qed (simp add: run_ret)

lemma effect_wake_all:
  assumes "ar_deliver (evaluate_item item)"
  shows "item_effect rv item (\<lambda>_. True)
      (andthen (deliver_to_wake_sinks rv sd item (evaluate_item item) (item_routing rv item) (wake_sinks (rv_sinks rv)))
         (\<lambda>fl. if fl = Continue then mark_and_flush rv item else ret fl))"
proof (rule effect_andthen [OF _ quiet_deliver_all])
  show "run_spec rv {item} (\<lambda>_. True)
      (deliver_to_wake_sinks rv sd item (evaluate_item item) (item_routing rv item) (wake_sinks (rv_sinks rv)))
      (\<lambda>fl r. fl = Continue \<longrightarrow> message_done rv item r)"
    using assms by (intro run_conseq [OF run_deliver_to_wake_sinks]) (simp_all add: message_done_def)
  show "item_effect rv item (\<lambda>r. fl = Continue \<longrightarrow> message_done rv item r)
      (if fl = Continue then mark_and_flush rv item else ret fl)" for fl
    by (rule effect_if) (simp_all add: effect_mark effect_ret)
qed

lemma process_item_effect: "item_effect rv item (\<lambda>_. True) (process_item rv sd item)"
proof -
  let ?a = "evaluate_item item" and ?routing = "item_routing rv item"
  have decide: "run_spec rv {item} (\<lambda>_. True)
      (with_store rv event (\<lambda>store. record_attention_decision pj store item ?a)) (\<lambda>_ _. True)"
    for event pj
    by (rule run_with_store [OF spec_decision settles_nothing [OF spec_decision]]) (rule delivers_nothing_operations)
  have reconcile: "run_spec rv {item} (\<lambda>_. True)
      (with_store rv event (\<lambda>store. reconcile_sink_targets pj store sinks key)) (\<lambda>_ _. True)"
    for event pj sinks key
    by (rule run_with_store [OF spec_reconcile settles_nothing [OF spec_reconcile]]) (rule delivers_nothing_operations)
  have quiet_db: "quiet (case found of None \<Rightarrow> ret () | Some sink \<Rightarrow> with_store rv event (m sink))"
    for found event and m :: "SinkConfig \<Rightarrow> DeliveryStore \<Rightarrow> (database, EventRecord) op"
    by (cases found) (simp_all add: quiet_basic quiet_with_store)
  have blocked: "item_effect rv item (\<lambda>_. True)
      (andthen (fire_event rv (no_sinks_event item)) (\<lambda>_. mark_and_flush rv item))"
    if "enabled_sink_count (rv_sinks rv) = 0"
    using no_enabled_wake_sinks [OF that]
    by (intro effect_andthen [OF run_fire [where S = "\<lambda>_. True"]] quiet_basic effect_mark)
      (simp add: message_done_def)
  have filtered: "item_effect rv item (\<lambda>_. True) (mark_and_flush rv item)" if "\<not> ar_deliver ?a"
    using that by (intro effect_mark) (simp add: message_done_def)
  show ?thesis
    unfolding process_item_def Let_def
  proof (rule effect_andthen [OF decide quiet_with_store], rule effect_if [OF filtered], assumption,
      rule effect_if [OF blocked], assumption)
    assume "\<not> \<not> ar_deliver ?a"
    then have "ar_deliver ?a" by simp
    note rest = effect_andthen [OF reconcile quiet_with_store effect_andthen [OF run_record_db quiet_db effect_wake_all [OF this]]]
    show "item_effect rv item (\<lambda>_. True) (andthen (with_store rv reconcile_failed_event
             (\<lambda>store. reconcile_sink_targets (rv_print_json rv) store (rv_sinks rv)
                        (rv_wake_session_key rv))) (\<lambda>_.
           andthen
             (case find_db_sink (rv_sinks rv) of
                None \<Rightarrow> ret ()
              | Some sink \<Rightarrow>
                  with_store rv (storage_hard_failure_event ''db_sink_delivery_failed'' item)
                    (\<lambda>store. record_db_sink_delivery (rv_print_json rv) store item ?a sink ?routing)) (\<lambda>_.
           andthen (deliver_to_wake_sinks rv sd item ?a ?routing (wake_sinks (rv_sinks rv))) (\<lambda>fl.
           if fl = Continue then mark_and_flush rv item else ret fl))))"
      by (rule rest)
  qed
qed

section \<open>The queue\<close>

fun messages :: "wake_input list \<Rightarrow> WakeEnvelope list" where
  "messages [] = []"
| "messages (Message item # rest) = item # messages rest"
| "messages (ShutdownSignal # rest) = messages rest"

text \<open>Before the shutdown only the end of the channel stops the router.\<close>

definition no_stop :: "(router, flow) op \<Rightarrow> bool" where
  "no_stop m \<longleftrightarrow> (\<forall>r. fst (m r) \<noteq> Inr Stop)"

lemma no_stop_andthen: "(\<And>x. no_stop (f x)) \<Longrightarrow> no_stop (andthen m f)"
  by (auto simp: no_stop_def andthen_def split: prod.splits sum.splits)

lemma no_stop_chain:
  assumes "no_stop m" and "\<And>fl. fl \<noteq> Stop \<Longrightarrow> no_stop (f fl)"
  shows "no_stop (andthen m f)"
proof -
  have "fst (andthen m f r) \<noteq> Inr Stop" for r
  proof (cases "m r")
    case (Pair y r1)
    then have "y \<noteq> Inr Stop" using assms(1) unfolding no_stop_def by (metis fst_conv)
    then show ?thesis using Pair assms(2) by (cases y) (auto simp: andthen_def no_stop_def)
  qed
  then show ?thesis by (simp add: no_stop_def)
qed

lemma no_stop_if: "no_stop m \<Longrightarrow> no_stop m' \<Longrightarrow> no_stop (if c then m else m')"
  by simp

lemma no_stop_ret: "fl \<noteq> Stop \<Longrightarrow> no_stop (ret fl)"
  by (simp add: no_stop_def ret_def)

lemma no_stop_send_loop: "no_stop (send_loop rv False item sink session rendered ticket backoff attempts)"
proof (induction attempts arbitrary: backoff)
  case Nil
  show ?case by (simp add: no_stop_andthen no_stop_ret)
next
  case (Cons a attempts)
  have "attempt_send rv False item sink session rendered ticket backoff a r \<noteq> (Inr (Some Stop), r')"
    for r r'
    by (auto simp: attempt_send_def andthen_Inr_iff ret_def split: sum.splits)
  then have "no_stop (andthen (attempt_send rv False item sink session rendered ticket backoff a) (\<lambda>d.
      case d of Some fl \<Rightarrow> ret fl | None \<Rightarrow> send_loop rv False item sink session rendered ticket
        (min (saturating_mul backoff 2) (rc_max_ms (rv_retry rv))) attempts))"
    using Cons.IH unfolding no_stop_def
    by (auto simp: andthen_def ret_def split: prod.splits sum.splits option.splits)
  then show ?case by (simp add: no_stop_andthen)
qed

lemma no_stop_deliver: "no_stop (deliver_to_wake_sinks rv False item attention routing sinks)"
proof (induction sinks)
  case Nil
  show ?case by (simp add: no_stop_ret)
next
  case (Cons sink sinks)
  have "no_stop (\<lambda>r. send_loop rv False item sink session rendered ticket backoff (ro_attempts r) r)"
    for session rendered ticket backoff
    using no_stop_send_loop by (simp add: no_stop_def)
  then have "no_stop (deliver_to_wake_sink rv False item attention routing sink)"
    unfolding deliver_to_wake_sink_def by (intro no_stop_andthen no_stop_if no_stop_ret) simp_all
  with Cons.IH show ?case
    unfolding deliver_to_wake_sinks.simps by (intro no_stop_chain) (simp_all add: no_stop_ret)
qed

lemma no_stop_process_item: "no_stop (process_item rv False item)"
proof -
  have mark: "no_stop (mark_and_flush rv item)"
    by (simp add: no_stop_def mark_and_flush_def Let_def split: sum.split)
  have tail: "no_stop (andthen (deliver_to_wake_sinks rv False item attention routing sinks)
      (\<lambda>fl. if fl = Continue then mark_and_flush rv item else ret fl))" for attention routing sinks
    using mark by (intro no_stop_chain [OF no_stop_deliver]) (simp_all add: no_stop_ret)
  show ?thesis
    unfolding process_item_def Let_def
    by (rule no_stop_andthen, rule no_stop_if [OF mark no_stop_if [OF no_stop_andthen [OF mark]]])
      (rule no_stop_andthen [OF no_stop_andthen [OF tail]])
qed

lemma process_wake_queue_run:
  assumes "db_ok (ro_db r)" and "process_wake_queue rv sd inputs r = (x, r')"
  shows "router_run rv (set (messages inputs)) r r'
    \<and> (\<exists>finished waiting. messages inputs = finished @ waiting
         \<and> ro_stores r' = fold mark_item finished (ro_stores r)
         \<and> (\<forall>item\<in>set finished. message_done rv item r')
         \<and> (x = Inr Stop \<and> \<not> sd \<and> ShutdownSignal \<notin> set inputs \<longrightarrow> waiting = []))"
  using assms
proof (induction rv sd inputs arbitrary: r rule: process_wake_queue.induct)
  case (1 rv sd)
  then show ?case by (simp add: ret_def router_run_refl)
next
  case (2 rv sd rest)
  then show ?case by fastforce
next
  case (3 rv sd item rest)
  obtain y r1 where item: "process_item rv sd item r = (y, r1)" by fastforce
  from process_item_effect [unfolded item_effect_def] 3(2) item have run1: "router_run rv {item} r r1"
    and eff: "ro_stores r1 = ro_stores r \<and> y \<noteq> Inr Continue
         \<or> ro_stores r1 = mark_item item (ro_stores r) \<and> message_done rv item r1" by blast+
  then have ok1: "db_ok (ro_db r1)" by (simp add: router_run_def db_progress_def)
  have run1': "router_run rv (set (messages (Message item # rest))) r r1"
    using run1 by (rule router_run_mono) simp
  show ?case
  proof (cases "y = Inr Continue")
    case True
    with item 3(3) have "process_wake_queue rv sd rest r1 = (x, r')" by (simp add: andthen_def)
    from 3(1) [OF _ ok1 this] obtain finished waiting where
      run2: "router_run rv (set (messages rest)) r1 r'"
      and f: "messages rest = finished @ waiting" "ro_stores r' = fold mark_item finished (ro_stores r1)"
        "\<forall>item\<in>set finished. message_done rv item r'"
        "x = Inr Stop \<and> \<not> sd \<and> ShutdownSignal \<notin> set rest \<longrightarrow> waiting = []" by blast
    have "router_run rv (set (messages (Message item # rest))) r1 r'"
      using run2 by (rule router_run_mono) auto
    from router_run_trans [OF 3(2) run1' this] have run: "router_run rv (set (messages (Message item # rest))) r r'" .
    have "message_done rv item r'"
      using persistent_message_done eff True ok1 run2 unfolding persistent_def router_run_def by blast
    with f eff True run show ?thesis
      by (intro conjI exI [of _ "item # finished"] exI [of _ waiting]) simp_all
  next
    case False
    with item 3(3) have x: "r' = r1" "x = y" by (auto simp: andthen_def ret_def split: sum.splits)
    have stop: "\<not> (x = Inr Stop \<and> \<not> sd)"
      using item x no_stop_process_item [of rv item] unfolding no_stop_def by (metis (full_types) fst_conv)
    from eff show ?thesis
    proof (elim disjE conjE)
      assume "ro_stores r1 = ro_stores r"
      with run1' x stop show ?thesis
        by (intro conjI exI [of _ "[]"] exI [of _ "messages (Message item # rest)"]) auto
    next
      assume "ro_stores r1 = mark_item item (ro_stores r)" "message_done rv item r1"
      with run1' x stop show ?thesis
        by (intro conjI exI [of _ "[item]"] exI [of _ "messages rest"]) auto
    qed
  qed
qed

end
