(* ===== verification/Wake_Router_Properties.thy ===== *)
theory Wake_Router_Properties
  imports Wake_Router_Spec
begin

text \<open>
  The properties of the wake router: which wakes it sends, when it marks a message as processed,
  how it retries, and what stops it.
\<close>

section \<open>Retries\<close>

definition next_backoff :: "router_env \<Rightarrow> u64 \<Rightarrow> u64" where
  "next_backoff rv b = min (saturating_mul b 2) (rc_max_ms (rv_retry rv))"

fun backoffs :: "router_env \<Rightarrow> u64 \<Rightarrow> nat \<Rightarrow> u64 list" where
  "backoffs rv b 0 = []"
| "backoffs rv b (Suc n) = b # backoffs rv (next_backoff rv b) n"

lemma length_backoffs [simp]: "length (backoffs rv b n) = n"
  by (induction n arbitrary: b) simp_all

lemma unat_next_backoff:
  "unat (next_backoff rv b) = min (2 * unat b) (unat (rc_max_ms (rv_retry rv)))"
proof -
  have "unat (rc_max_ms (rv_retry rv)) \<le> 2 ^ 64 - 1"
    using unat_le_max [of "rc_max_ms (rv_retry rv)"] by simp
  then show ?thesis
    by (simp add: next_backoff_def unat_min unat_saturating_mul mult.commute min.assoc min_absorb2)
qed

lemma min_scale: "1 \<le> k \<Longrightarrow> min (min x m * k) m = min (x * k) (m :: nat)"
proof (cases "x \<le> m")
  case False
  assume "1 \<le> k"
  then have "m \<le> m * k" by simp
  moreover from False have "m * k \<le> x * k" by simp
  ultimately have "m \<le> x * k" by (rule order_trans)
  with \<open>m \<le> m * k\<close> False show ?thesis by simp
qed simp

lemma nth_backoffs:
  "i < n \<Longrightarrow> unat (backoffs rv b n ! i) =
     (if i = 0 then unat b else min (unat b * 2 ^ i) (unat (rc_max_ms (rv_retry rv))))"
proof (induction n arbitrary: b i)
  case 0
  then show ?case by simp
next
  case (Suc n)
  then show ?case
    using min_scale [of "2 ^ (i - 1)" "2 * unat b" "unat (rc_max_ms (rv_retry rv))"]
    by (cases i; cases "i = 1") (simp_all add: unat_next_backoff ac_simps)
qed

text \<open>The sends and the pauses between them.\<close>

definition paced :: "action \<Rightarrow> bool" where
  "paced a = (case a of SendChat _ _ _ \<Rightarrow> True | Sleep _ \<Rightarrow> True | _ \<Rightarrow> False)"

lemma on_store_outcome:
  "mark_on_store rv ticket mark r = (x, r') \<Longrightarrow>
   ro_trace r' = ro_trace r \<and> ro_attempts r' = ro_attempts r \<and> (\<forall>e. x = Inl e \<longrightarrow> rv_store rv \<noteq> None)"
  by (auto simp: mark_on_store_def on_db_def ret_def split: option.splits prod.splits)

lemma fire_outcome:
  "fire_event rv e r = (x, r') \<Longrightarrow>
   x = Inr () \<and> ro_attempts r' = ro_attempts r \<and> filter paced (ro_trace r') = filter paced (ro_trace r)"
  by (auto simp: fire_event_def paced_def split: prod.splits)

lemma attempt_outcome:
  assumes "attempt_send rv False item sink session rendered ticket b a r = (x, r')"
  shows "(\<exists>e. x = Inl e \<and> rv_store rv \<noteq> None)
    \<or> (\<exists>u. sa_result a = Inr u) \<and> x = Inr (Some Continue) \<and> ro_attempts r' = ro_attempts r
      \<and> filter paced (ro_trace r') = filter paced (ro_trace r)
          @ [SendChat session rendered (wake_idempotency_key item sink)]
    \<or> (\<exists>e. sa_result a = Inl e) \<and> x = Inr None \<and> ro_attempts r' = ro_attempts r
      \<and> filter paced (ro_trace r') = filter paced (ro_trace r)
          @ [SendChat session rendered (wake_idempotency_key item sink), Sleep (retry_delay rv b a)]"
proof -
  let ?send = "SendChat session rendered (wake_idempotency_key item sink)"
  define r1 where "r1 = r\<lparr>ro_trace := ro_trace r @ [?send, ChatAnswer (wake_idempotency_key item sink) (sa_result a)]\<rparr>"
  have r1: "filter paced (ro_trace r1) = filter paced (ro_trace r) @ [?send]"
    "ro_attempts r1 = ro_attempts r" by (simp_all add: r1_def paced_def)
  from assms have outcome: "(case sa_result a of
        Inr _ \<Rightarrow> andthen (mark_on_store rv ticket mark_delivery_delivered) (\<lambda>_. ret (Some Continue))
      | Inl err \<Rightarrow>
          andthen (mark_on_store rv ticket (\<lambda>store d. mark_delivery_failed store d err)) (\<lambda>_.
          andthen (fire_event rv (wake_failed_event item sink err)) (\<lambda>_.
          andthen (do_action (Sleep (retry_delay rv b a))) (\<lambda>_. ret None)))) r1 = (x, r')"
    by (cases "sa_result a") (simp_all add: attempt_send_def andthen_def do_action_def update_def r1_def)
  show ?thesis
  proof (cases "sa_result a")
    case (Inr u)
    obtain y r2 where m: "mark_on_store rv ticket mark_delivery_delivered r1 = (y, r2)" by fastforce
    with outcome Inr have "case y of Inl e \<Rightarrow> x = Inl e | Inr _ \<Rightarrow> x = Inr (Some Continue)" "r' = r2"
      by (auto simp: andthen_def ret_def split: sum.splits)
    with on_store_outcome [OF m] r1 Inr show ?thesis by (cases y) auto
  next
    case (Inl err)
    obtain y r2 where m: "mark_on_store rv ticket (\<lambda>store d. mark_delivery_failed store d err) r1 = (y, r2)"
      by fastforce
    obtain z r3 where f: "fire_event rv (wake_failed_event item sink err) r2 = (z, r3)" by fastforce
    show ?thesis
    proof (cases y)
      case (Inl e)
      with outcome \<open>sa_result a = Inl err\<close> m have "x = Inl e" by (auto simp: andthen_def)
      with on_store_outcome [OF m] Inl show ?thesis by auto
    next
      case (Inr _)
      with outcome \<open>sa_result a = Inl err\<close> m f fire_outcome [OF f]
      have "x = Inr None" "r' = r3\<lparr>ro_trace := ro_trace r3 @ [Sleep (retry_delay rv b a)]\<rparr>"
        by (auto simp: do_action_def update_def andthen_def ret_def)
      with on_store_outcome [OF m] fire_outcome [OF f] r1 \<open>sa_result a = Inl err\<close> show ?thesis
        by (simp add: paced_def)
    qed
  qed
qed

definition retry_actions :: "router_env \<Rightarrow> action \<Rightarrow> u64 \<Rightarrow> send_attempt \<Rightarrow> action list" where
  "retry_actions rv send b f = [send, Sleep (retry_delay rv b f)]"

lemma send_loop_outcome:
  assumes "\<forall>f\<in>set failures. \<exists>e. sa_result f = Inl e" and "sa_result a = Inr u"
    and "send_loop rv False item sink session rendered ticket b (failures @ a # rest) r = (x, r')"
  shows "(\<exists>e. x = Inl e \<and> rv_store rv \<noteq> None)
    \<or> x = Inr Continue \<and> ro_attempts r' = rest
      \<and> filter paced (ro_trace r') = filter paced (ro_trace r)
          @ concat (map2 (retry_actions rv (SendChat session rendered (wake_idempotency_key item sink)))
                      (backoffs rv b (length failures)) failures)
          @ [SendChat session rendered (wake_idempotency_key item sink)]"
  using assms
proof (induction failures arbitrary: b r)
  case Nil
  obtain y r1 where m: "mark_on_store rv ticket mark_delivery_attempted r = (y, r1)" by fastforce
  note o1 = on_store_outcome [OF m]
  show ?case
  proof (cases y)
    case (Inl e)
    with Nil.prems m o1 show ?thesis by (auto simp: andthen_def)
  next
    case (Inr _)
    let ?r2 = "r1\<lparr>ro_attempts := rest\<rparr>"
    obtain z r3 where s: "attempt_send rv False item sink session rendered ticket b a ?r2 = (z, r3)"
      by fastforce
    from attempt_outcome [OF s] Nil.prems Inr m s o1 show ?thesis
      by (auto simp: andthen_def update_def ret_def)
  qed
next
  case (Cons f failures)
  obtain y r1 where m: "mark_on_store rv ticket mark_delivery_attempted r = (y, r1)" by fastforce
  note o1 = on_store_outcome [OF m]
  from Cons.prems(1) obtain e where f: "sa_result f = Inl e" by auto
  show ?case
  proof (cases y)
    case (Inl e)
    with Cons.prems m o1 show ?thesis by (auto simp: andthen_def)
  next
    case (Inr _)
    let ?r2 = "r1\<lparr>ro_attempts := failures @ a # rest\<rparr>"
    obtain z r3 where s: "attempt_send rv False item sink session rendered ticket b f ?r2 = (z, r3)"
      by fastforce
    from attempt_outcome [OF s] f consider (err) e where "z = Inl e" "rv_store rv \<noteq> None"
      | (again) "z = Inr None" "filter paced (ro_trace r3) = filter paced (ro_trace r)
          @ [SendChat session rendered (wake_idempotency_key item sink), Sleep (retry_delay rv b f)]"
      using o1 by auto
    then show ?thesis
    proof cases
      case err
      with Cons.prems(3) Inr m s show ?thesis by (auto simp: andthen_def update_def)
    next
      case again
      with Cons.prems(3) Inr m s have "send_loop rv False item sink session rendered ticket
          (next_backoff rv b) (failures @ a # rest) r3 = (x, r')"
        by (simp add: andthen_def update_def next_backoff_def)
      from Cons.IH [OF _ Cons.prems(2) this] Cons.prems(1) again(2) show ?thesis
        by (simp add: retry_actions_def)
    qed
  qed
qed

section \<open>Operations that cannot succeed\<close>

definition stuck :: "(router, 'a) op \<Rightarrow> bool" where
  "stuck m \<longleftrightarrow> quiet m \<and> never_ok m"

lemma stuck_first: "stuck m \<Longrightarrow> stuck (andthen m f)"
proof -
  assume m: "stuck m"
  have "ro_stores r' = ro_stores r" if run: "andthen m f r = (x, r')" for r x r'
  proof (cases "m r")
    case (Pair y r1)
    then have "\<not> is_ok y" using m unfolding stuck_def never_ok_def by (metis fst_conv)
    with run Pair have "r' = r1" by (cases y) (simp_all add: andthen_def)
    with Pair m show ?thesis unfolding stuck_def quiet_def by blast
  qed
  then have "quiet (andthen m f)" unfolding quiet_def by blast
  with m show ?thesis by (simp add: stuck_def never_andthen1)
qed

lemma stuck_later: "quiet m \<Longrightarrow> (\<And>x. stuck (f x)) \<Longrightarrow> stuck (andthen m f)"
  by (simp add: stuck_def quiet_andthen never_andthen2)

lemma stuck_on_store:
  assumes "\<And>db. \<not> is_ok (fst (m db))"
  shows "stuck (or_fire rv event (on_db m))"
proof -
  have "\<not> is_ok (fst (or_fire rv event (on_db m) r))" for r
    using assms [of "ro_db r"]
    by (cases "m (ro_db r)"; cases "fst (m (ro_db r))")
      (auto simp: or_fire_def on_db_def andthen_def fire_event_def fail_def split: prod.splits)
  then show ?thesis by (simp add: stuck_def never_ok_def quiet_or_fire quiet_basic)
qed

lemma no_db_wake_sinks:
  assumes "find_db_sink sinks = None" and "0 < enabled_sink_count sinks"
  shows "wake_sinks sinks \<noteq> []"
proof -
  from assms(2) obtain s where s: "s \<in> set sinks" "sk_enabled s"
    by (auto simp: enabled_sink_count_def filter_empty_conv)
  with assms(1) have "sk_kind s = AgentSessionWake"
    by (cases "sk_kind s") (auto simp: find_db_sink_def find_None_iff)
  with s show ?thesis by (auto simp: wake_sinks_def filter_empty_conv)
qed

lemma wake_sink_key:
  assumes "distinct (map sk_key sinks)" and "sink \<in> set (wake_sinks sinks)" and "s \<in> set sinks" and "sk_key s = sk_key sink"
  shows "sk_kind s \<noteq> Db"
proof -
  from assms(2) have "sink \<in> set sinks" "sk_kind sink = AgentSessionWake" by (auto simp: wake_sinks_def)
  with assms show ?thesis by (auto simp: distinct_map inj_on_def)
qed

lemma finished_accepted:
  assumes ok: "db_ok (ro_db r)" and run: "process_wake_queue rv sd inputs r = (x, r')"
    and keys: "distinct (map sk_key (rv_sinks rv))"
  shows "\<exists>finished waiting. messages inputs = finished @ waiting
    \<and> ro_stores r' = fold mark_item finished (ro_stores r)
    \<and> (\<forall>item\<in>set finished. ar_deliver (evaluate_item item) \<longrightarrow>
         (\<forall>sink\<in>set (wake_sinks (rv_sinks rv)).
            (accepted item (sk_key sink) r'
             \<or> rv_store rv \<noteq> None \<and> wake_delivered item (sk_key sink) (ro_db r))
            \<and> (rv_store rv \<noteq> None \<longrightarrow> wake_delivered item (sk_key sink) (ro_db r'))))
    \<and> (x = Inr Stop \<and> \<not> sd \<and> ShutdownSignal \<notin> set inputs \<longrightarrow> waiting = [])"
proof -
  from process_wake_queue_run [OF ok run] obtain finished waiting where
    f: "messages inputs = finished @ waiting" "ro_stores r' = fold mark_item finished (ro_stores r)"
      "\<forall>item\<in>set finished. message_done rv item r'"
      "x = Inr Stop \<and> \<not> sd \<and> ShutdownSignal \<notin> set inputs \<longrightarrow> waiting = []"
    and account: "accounted rv r r'" unfolding router_run_def by blast
  have "(accepted item (sk_key sink) r' \<or> rv_store rv \<noteq> None \<and> wake_delivered item (sk_key sink) (ro_db r))
      \<and> (rv_store rv \<noteq> None \<longrightarrow> wake_delivered item (sk_key sink) (ro_db r'))"
    if "item \<in> set finished" "ar_deliver (evaluate_item item)" "sink \<in> set (wake_sinks (rv_sinks rv))" for item sink
  proof -
    from f(3) that have "sink_done rv item sink r'" by (simp add: message_done_def)
    moreover have "\<not> (\<exists>s\<in>set (rv_sinks rv). sk_kind s = Db \<and> sk_key s = sk_key sink)"
      using wake_sink_key [OF keys that(3)] by auto
    ultimately show ?thesis using account by (auto simp: sink_done_def accounted_def split: if_splits)
  qed
  with f show ?thesis by blast
qed

section \<open>A concrete router\<close>

definition demo_wildcard_layer :: AttentionLayer where
  "demo_wildcard_layer =
     passthrough\<lparr>al_receptors := [\<lparr>cr_receptor_id = ''all'', cr_class = Wildcard, cr_threshold = FFin 1,
       cr_vector = None, cr_space_id = None\<rparr>]\<rparr>"

definition demo_wake_sink :: SinkConfig where
  "demo_wake_sink =
     \<lparr>sk_key = ''wake'', sk_kind = AgentSessionWake, sk_enabled = True, sk_destination = None\<rparr>"

definition demo_router_env :: "DeliveryStore option \<Rightarrow> router_env" where
  "demo_router_env store =
     \<lparr>rv_store = store, rv_sinks = [demo_wake_sink], rv_wake_session_key = ''agent'',
      rv_retry = \<lparr>rc_base_ms = 1000, rc_max_ms = 60000, rc_jitter_ratio = FFin 0,
                  rc_storm_guard = default_storm_guard\<rparr>,
      rv_print_json = (\<lambda>_. ''{}''), rv_print_event = (\<lambda>_. Inr ''{}''), rv_clock = (\<lambda>_ _. 0),
      rv_codec = demo_codec, rv_flush = (\<lambda>_. Inr ()), rv_fmt3 = (\<lambda>_. [])\<rparr>"

definition demo_attempt :: "unit result \<Rightarrow> send_attempt" where
  "demo_attempt res =
     \<lparr>sa_remaining = 1, sa_timed_out = False, sa_result = res, sa_draw = FFin 0, sa_remaining_after = 1\<rparr>"

definition demo_router :: "send_attempt list \<Rightarrow> router" where
  "demo_router attempts =
     \<lparr>ro_db = demo_database, ro_stores = (\<lambda>_. demo_store),
      ro_hooks = \<lparr>hh_hooks = [], hh_last_sent = Map.empty\<rparr>, ro_attempts = attempts, ro_trace = []\<rparr>"

abbreviation demo_item :: WakeEnvelope where
  "demo_item \<equiv> demo_envelope [] demo_wildcard_layer"

abbreviation demo_run :: "(flow result \<times> router)" where
  "demo_run \<equiv> process_wake_queue (demo_router_env (Some demo_delivery_store)) False [Message demo_item]
     (demo_router [demo_attempt (Inl ''down''), demo_attempt (Inr ())])"

definition demo_result :: "flow result \<times> router" where
  "demo_result = process_wake_queue (demo_router_env (Some demo_delivery_store)) False [Message demo_item]
     (demo_router [demo_attempt (Inl ''down''), demo_attempt (Inr ())])"

definition demo_wake_text :: string where
  "demo_wake_text = render_inbound_wake (\<lambda>_. []) demo_item (evaluate_item demo_item)"

text \<open>The router works off its queue with two sends of the one wake.\<close>

definition demo_runs :: "flow result \<times> router \<Rightarrow> bool" where
  "demo_runs = (\<lambda>(x, r). x = Inr Stop
     \<and> list_all (\<lambda>a. case a of ChatAnswer k _ \<Rightarrow> k = ''k:m1:wake'' | _ \<Rightarrow> True) (ro_trace r)
     \<and> list_ex (\<lambda>a. case a of SendChat s t k \<Rightarrow> s = ''agent'' \<and> t = demo_wake_text \<and> k = ''k:m1:wake'' | _ \<Rightarrow> False)
         (ro_trace r))"

lemma demo_result_runs: "demo_runs demo_result"
  by code_simp

lemma demo_result_run:
  "process_wake_queue (demo_router_env (Some demo_delivery_store)) False [Message demo_item]
     (demo_router [demo_attempt (Inl ''down''), demo_attempt (Inr ())]) = (Inr Stop, snd demo_result)"
proof -
  have "fst demo_result = Inr Stop" using demo_result_runs by (simp add: demo_runs_def case_prod_beta)
  then show ?thesis by (simp only: demo_result_def [symmetric] prod_eq_iff fst_conv snd_conv)
qed

lemma demo_router_ok: "db_ok (ro_db (demo_router attempts))"
  by (simp add: demo_router_def demo_database_def fresh_database_ok)

lemma demo_not_delivered: "\<not> wake_delivered item k (ro_db (demo_router attempts))"
  by (simp add: demo_router_def demo_database_def fresh_database_def wake_delivered_def delivered_at_def row_at_def
      empty_table_def)

section \<open>Properties\<close>

text \<open>
  Claim C5. Every wake the router sends is one it owes: whatever the queue holds and however the
  gateway, the clock and the database behave, each \<open>chat.send\<close> of a run belongs to a message of the
  queue that the attention layer delivers and to an enabled wake sink, carries the session, text
  and idempotency key of the two, and repeats no wake that the database recorded as delivered
  before the run.
\<close>

theorem wake_sends_authorised:
  assumes "db_ok (ro_db r)" and "process_wake_queue rv sd inputs r = (x, r')"
  shows "\<exists>run. ro_trace r' = ro_trace r @ run
    \<and> (\<forall>a\<in>set run. is_send a \<longrightarrow>
         (\<exists>item\<in>set (messages inputs). \<exists>sink\<in>set (wake_sinks (rv_sinks rv)).
            ar_deliver (evaluate_item item)
            \<and> a = SendChat (effective_session_key rv item sink)
                    (render_inbound_wake (rv_fmt3 rv) item (evaluate_item item))
                    (wake_idempotency_key item sink)
            \<and> (rv_store rv = None \<or> \<not> wake_delivered item (sk_key sink) (ro_db r))))"
proof -
  have "router_run rv (set (messages inputs)) r r'" using process_wake_queue_run [OF assms] ..
  then show ?thesis unfolding router_run_def send_justified_def authorised_def by metis
qed

theorem wake_sends_authorised_witness:
  "{a \<in> set (ro_trace (snd demo_result)). is_send a} \<subseteq>
     {SendChat ''agent'' (render_inbound_wake (\<lambda>_. []) demo_item (evaluate_item demo_item)) ''k:m1:wake''}"
proof -
  let ?rv = "demo_router_env (Some demo_delivery_store)"
  have env: "ro_trace (demo_router as) = []" "rv_fmt3 ?rv = (\<lambda>_. [])" "rv_sinks ?rv = [demo_wake_sink]" for as
    by (simp_all add: demo_router_def demo_router_env_def)
  have item: "effective_session_key ?rv demo_item demo_wake_sink = ''agent''"
    "wake_idempotency_key demo_item demo_wake_sink = ''k:m1:wake''"
    by (simp_all add: effective_session_key_def wake_idempotency_key_def demo_envelope_def
        demo_wake_sink_def demo_router_env_def)
  have "set (wake_sinks [demo_wake_sink]) = {demo_wake_sink}" by (auto simp: wake_sinks_def demo_wake_sink_def)
  with wake_sends_authorised [OF demo_router_ok demo_result_run] item show ?thesis by (auto simp: env)
qed

text \<open>
  Claim C6. A message is marked as processed only after its wakes went out: the messages that a
  run marks in the runtime stores are a prefix of the queue, marked in order. For each of them that
  the attention layer delivers and every enabled wake sink, the gateway has accepted the wake, or the
  database had recorded it as delivered before the run; and with a database it is recorded as
  delivered at the end. Before a shutdown the router stops only when the whole queue is marked;
  otherwise it waits for the gateway or has failed.
\<close>

theorem processed_only_after_delivery:
  assumes ok: "db_ok (ro_db r)" and run: "process_wake_queue rv sd inputs r = (x, r')"
    and keys: "distinct (map sk_key (rv_sinks rv))"
  shows "\<exists>finished waiting. messages inputs = finished @ waiting
    \<and> ro_stores r' = fold mark_item finished (ro_stores r)
    \<and> (\<forall>item\<in>set finished. ar_deliver (evaluate_item item) \<longrightarrow>
         (\<forall>sink\<in>set (wake_sinks (rv_sinks rv)).
            (ChatAnswer (wake_idempotency_key item sink) (Inr ()) \<in> set (ro_trace r')
             \<or> rv_store rv \<noteq> None \<and> wake_delivered item (sk_key sink) (ro_db r))
            \<and> (rv_store rv \<noteq> None \<longrightarrow> wake_delivered item (sk_key sink) (ro_db r'))))
    \<and> (x = Inr Stop \<and> \<not> sd \<and> ShutdownSignal \<notin> set inputs \<longrightarrow> waiting = [])"
  using finished_accepted [OF assms] unfolding accepted_sink .

theorem processed_only_after_delivery_witness:
  "ro_stores (snd demo_result) = mark_item demo_item (\<lambda>_. demo_store)
   \<and> ChatAnswer ''k:m1:wake'' (Inr ()) \<in> set (ro_trace (snd demo_result))
   \<and> wake_delivered demo_item ''wake'' (ro_db (snd demo_result))"
proof -
  let ?rv = "demo_router_env (Some demo_delivery_store)"
  have env: "rv_store ?rv = Some demo_delivery_store" "set (wake_sinks (rv_sinks ?rv)) = {demo_wake_sink}"
    "sk_key demo_wake_sink = ''wake''" "distinct (map sk_key (rv_sinks ?rv))"
    "wake_idempotency_key demo_item demo_wake_sink = ''k:m1:wake''"
    by (simp_all add: demo_router_env_def wake_sinks_def demo_wake_sink_def wake_idempotency_key_def demo_envelope_def)
  have deliver: "ar_deliver (evaluate_item demo_item)" by code_simp
  from processed_only_after_delivery [OF demo_router_ok demo_result_run env(4)] show ?thesis
    using deliver demo_not_delivered by (auto simp: env demo_router_def)
qed

text \<open>
  Claim C22. Failed wakes are retried with exponential backoff until one succeeds: while the daemon
  is not shutting down, the retry loop sends the same wake once per attempt and sleeps between
  them for the jittered backoff, which starts at the base and doubles up to the maximum, however
  often that is; it ends after the first success, and only a storage error can end it earlier.
\<close>

theorem wake_retry_schedule:
  assumes "\<forall>f\<in>set failures. \<exists>e. sa_result f = Inl e" and "sa_result a = Inr u"
    and "send_loop rv False item sink session rendered ticket (rc_base_ms (rv_retry rv))
           (failures @ a # rest) r = (x, r')"
  shows "(\<exists>e. x = Inl e \<and> rv_store rv \<noteq> None)
    \<or> (x = Inr Continue \<and> ro_attempts r' = rest
       \<and> (\<exists>bs. length bs = length failures
            \<and> (\<forall>i<length bs. unat (bs ! i) =
                 (if i = 0 then unat (rc_base_ms (rv_retry rv))
                  else min (unat (rc_base_ms (rv_retry rv)) * 2 ^ i) (unat (rc_max_ms (rv_retry rv)))))
            \<and> filter paced (ro_trace r') = filter paced (ro_trace r)
                @ concat (map2 (\<lambda>b f. [SendChat session rendered (wake_idempotency_key item sink),
                                        Sleep (retry_delay rv b f)]) bs failures)
                @ [SendChat session rendered (wake_idempotency_key item sink)]))"
proof -
  let ?bs = "backoffs rv (rc_base_ms (rv_retry rv)) (length failures)"
  have acts: "retry_actions rv send = (\<lambda>b f. [send, Sleep (retry_delay rv b f)])" for send
    by (simp add: retry_actions_def fun_eq_iff)
  have bs: "length ?bs = length failures" "\<forall>i<length ?bs. unat (?bs ! i) =
      (if i = 0 then unat (rc_base_ms (rv_retry rv))
       else min (unat (rc_base_ms (rv_retry rv)) * 2 ^ i) (unat (rc_max_ms (rv_retry rv))))"
    using nth_backoffs by simp_all
  from send_loop_outcome [OF assms] show ?thesis
  proof (elim disjE conjE)
    assume "\<exists>e. x = Inl e \<and> rv_store rv \<noteq> None"
    then show ?thesis ..
  next
    assume "x = Inr Continue" "ro_attempts r' = rest"
      and trace: "filter paced (ro_trace r') = filter paced (ro_trace r)
          @ concat (map2 (retry_actions rv (SendChat session rendered (wake_idempotency_key item sink)))
                      ?bs failures) @ [SendChat session rendered (wake_idempotency_key item sink)]"
    then show ?thesis using bs unfolding acts by blast
  qed
qed

theorem wake_retry_schedule_witness:
  "filter paced (ro_trace (snd (send_loop (demo_router_env None) False demo_item demo_wake_sink
      ''agent'' ''text'' None 1000 [demo_attempt (Inl ''down''), demo_attempt (Inr ())]
      (demo_router []))))
   = [SendChat ''agent'' ''text'' ''k:m1:wake'', Sleep 1000000000, SendChat ''agent'' ''text'' ''k:m1:wake'']"
proof -
  let ?rv = "demo_router_env None" and ?f = "demo_attempt (Inl ''down'')"
  have env: "rc_base_ms (rv_retry ?rv) = 1000" "rv_store ?rv = None"
    by (simp_all add: demo_router_env_def)
  have key: "wake_idempotency_key demo_item demo_wake_sink = ''k:m1:wake''"
    by (simp add: wake_idempotency_key_def demo_envelope_def demo_wake_sink_def)
  obtain x r' where run: "send_loop ?rv False demo_item demo_wake_sink ''agent'' ''text'' None
      (rc_base_ms (rv_retry ?rv)) ([?f] @ demo_attempt (Inr ()) # []) (demo_router []) = (x, r')"
    by fastforce
  have res: "\<forall>f\<in>set [?f]. \<exists>e. sa_result f = Inl e" "sa_result (demo_attempt (Inr ())) = Inr ()"
    by (simp_all add: demo_attempt_def)
  from wake_retry_schedule [OF res run] obtain b where b: "unat b = unat (1000 :: u64)"
    "filter paced (ro_trace r') = filter paced (ro_trace (demo_router []))
       @ [SendChat ''agent'' ''text'' ''k:m1:wake'', Sleep (retry_delay ?rv b ?f),
          SendChat ''agent'' ''text'' ''k:m1:wake'']"
    by (auto simp: env key length_Suc_conv)
  from b(1) have "b = 1000" by (simp only: word_unat_eq_iff)
  moreover have "retry_delay ?rv 1000 ?f = 1000000000"
    by (simp add: retry_delay_def demo_router_env_def jitter_off)
  ultimately show ?thesis using b(2) run by (simp add: env demo_router_def)
qed

text \<open>
  Claim C33. With a delivery store and at least one enabled sink, a message whose evaluation delivers
  with a NaN score among its matches stops the router: its processing ends in an error whatever the
  state, no message behind it is reached, and it is not marked as processed, so that it is
  taken up again when the daemon restarts and the server replays it.
\<close>

theorem nan_score_stops_router:
  assumes deliver: "ar_deliver (evaluate_item item)"
    and nan: "m \<in> set (ar_matches (evaluate_item item))" "rm_score m = FNaN"
    and store: "rv_store rv = Some store" and enabled: "0 < enabled_sink_count (rv_sinks rv)"
  shows "\<exists>e r'. process_wake_queue rv sd (Message item # rest) r = (Inl e, r') \<and> ro_stores r' = ro_stores r"
proof -
  let ?a = "evaluate_item item" and ?routing = "item_routing rv item"
  have bad: "\<not> is_ok (fst (queue_wake_sink_delivery pj st item ?a snapshot ?routing db))"
    "\<not> is_ok (fst (record_db_sink_delivery pj st item ?a sink ?routing db))" for pj st snapshot sink db
    using never_ok_nan [OF nan] by (simp_all add: never_ok_def)
  have db: "stuck (with_store rv event (\<lambda>st. record_db_sink_delivery pj st item ?a sink ?routing))"
    for event pj sink
    unfolding with_store_def store option.case by (intro stuck_first stuck_on_store bad)
  have wake: "stuck (deliver_to_wake_sinks rv sd item ?a ?routing (sink # sinks))" for sink sinks
    unfolding deliver_to_wake_sinks.simps deliver_to_wake_sink_def store option.case
    by (intro stuck_first stuck_on_store bad)
  have "stuck (andthen (case find_db_sink (rv_sinks rv) of
        None \<Rightarrow> ret ()
      | Some sink \<Rightarrow> with_store rv event (\<lambda>st. record_db_sink_delivery pj st item ?a sink ?routing)) (\<lambda>_.
      andthen (deliver_to_wake_sinks rv sd item ?a ?routing (wake_sinks (rv_sinks rv))) f))" for event pj f
  proof (cases "find_db_sink (rv_sinks rv)")
    case (Some sink)
    then show ?thesis by (simp add: stuck_first db)
  next
    case None
    obtain sink sinks where "wake_sinks (rv_sinks rv) = sink # sinks"
      using enabled None no_db_wake_sinks by (metis neq_Nil_conv)
    with None show ?thesis by (simp only: option.case stuck_later quiet_basic stuck_first wake)
  qed
  then have tail: "stuck (andthen (with_store rv ev1 m1) (\<lambda>_. andthen (case find_db_sink (rv_sinks rv) of
        None \<Rightarrow> ret ()
      | Some sink \<Rightarrow> with_store rv ev2 (\<lambda>st. record_db_sink_delivery pj st item ?a sink ?routing)) (\<lambda>_.
      andthen (deliver_to_wake_sinks rv sd item ?a ?routing (wake_sinks (rv_sinks rv))) f)))"
    for ev1 ev2 pj f and m1 :: "DeliveryStore \<Rightarrow> (database, unit) op"
    by (rule stuck_later [OF quiet_with_store])
  have "stuck (process_item rv sd item)"
    unfolding process_item_def Let_def
    using deliver enabled by (simp add: stuck_later quiet_with_store tail)
  from stuck_first [OF this] have "stuck (process_wake_queue rv sd (Message item # rest))" by simp
  then show ?thesis
    unfolding stuck_def quiet_def never_ok_def by (metis is_ok.simps(2) prod.collapse obj_sumE)
qed

text \<open>A veto vector whose product with a large message vector overflows: the score is NaN, not 1.\<close>

definition demo_overflow_layer :: AttentionLayer where
  "demo_overflow_layer =
     \<lparr>al_receptors =
        [\<lparr>cr_receptor_id = ''spam'', cr_class = Veto, cr_threshold = FFin (1 / 2),
          cr_vector = Some [FFin 1, FFin 1], cr_space_id = Some ''s''\<rparr>,
         \<lparr>cr_receptor_id = ''all'', cr_class = Wildcard, cr_threshold = FFin 1,
          cr_vector = None, cr_space_id = None\<rparr>],
      al_plugin = Some demo_backend, al_space_id = Some ''s'', al_degraded = False,
      al_veto_enforcement_unavailable = False\<rparr>"

definition demo_poison :: WakeEnvelope where
  "demo_poison =
     demo_envelope [\<lparr>me_space_id = ''s'', me_vector = [FFin (2 ^ 127), FFin (2 ^ 127)]\<rparr>] demo_overflow_layer"

definition delivers_nan :: "AttentionResult \<Rightarrow> bool" where
  "delivers_nan a \<longleftrightarrow> ar_deliver a \<and> list_ex (\<lambda>m. rm_score m = FNaN) (ar_matches a)"

theorem nan_score_stops_router_witness:
  "\<exists>e r'. process_wake_queue (demo_router_env (Some demo_delivery_store)) False
      [Message demo_poison, Message demo_item] (demo_router []) = (Inl e, r')
    \<and> ro_stores r' = ro_stores (demo_router [])"
proof -
  have "delivers_nan (evaluate_item demo_poison)" by code_simp
  then obtain m where deliver: "ar_deliver (evaluate_item demo_poison)"
    and m: "m \<in> set (ar_matches (evaluate_item demo_poison))" "rm_score m = FNaN"
    by (auto simp: delivers_nan_def list_ex_iff)
  show ?thesis
    by (rule nan_score_stops_router [OF deliver m, where store = demo_delivery_store])
      (simp_all add: demo_router_env_def enabled_sink_count_def demo_wake_sink_def)
qed

end
