(* ===== verification/Spec2Isabelle.thy ===== *)
theory Spec2Isabelle
  imports Cli_Properties Ipc_Properties Build_Script Subspace_Client_Properties Wake_Router_Properties
begin

text \<open>
  A verification development of the Subspace daemon. The daemon keeps a connection to each of the
  configured Subspace servers, filters what other agents write there through an attention layer,
  records it in a database and wakes agent sessions through a gateway; local programs send messages
  to the servers over a Unix socket. Paths below are relative to the repository and theories are
  named by their files.

  \<^bold>\<open>Parts and how they interact.\<close> \<open>main\<close> reads the configuration (\<^verbatim>\<open>config.rs\<close>) and starts the
  supervisor (\<^verbatim>\<open>supervisor.rs\<close>), which takes the state lock (\<^verbatim>\<open>state_lock.rs\<close>), prepares the database
  (\<^verbatim>\<open>storage.rs\<close>) and spawns the gateway task (\<^verbatim>\<open>gateway/client.rs\<close>), one manager per enabled server
  (\<^verbatim>\<open>subspace/client.rs\<close>), the wake router (\<open>process_wake_queue\<close>) and the socket server (\<^verbatim>\<open>ipc.rs\<close>). A
  manager authenticates with its identity (\<^verbatim>\<open>subspace/identity.rs\<close>, \<^verbatim>\<open>subspace/auth.rs\<close>), takes each
  message once (\<^verbatim>\<open>runtime_store.rs\<close>) and puts it into the wake queue with the attention layer of its
  server (\<^verbatim>\<open>attention/\<close>). The router evaluates it, writes decision and deliveries to the database,
  sends the wakes through the gateway with retries (\<^verbatim>\<open>retry.rs\<close>) and marks the message as processed.
  Failures fire the hooks (\<^verbatim>\<open>hard_failure.rs\<close>). The setup (\<^verbatim>\<open>setup.rs\<close>) registers an identity with a
  server, in the daemon or beside it.

  \<^bold>\<open>Theories.\<close>
  \<^item> \<open>Prelude\<close>: results and error texts, operations with a state (\<open>op\<close>, \<open>andthen\<close>, the predicate
    \<open>keeps\<close>), Rust's string functions, saturating words, ordered maps with the locale \<open>map_interface\<close>.
    \<open>Rust_Float\<close>: \<open>f32\<close> and \<open>f64\<close> with rounding, infinities and NaN, and what overflows. \<open>Host_Env\<close>: paths, files, JSON
    values, the atomic replacement of a file, with what a crash of the process (\<open>crash_state\<close>) and a loss
    of power (\<open>disk\<close>, \<open>power_loss\<close>) can leave of it. \<open>Web_Socket\<close>.
    \<open>Event_Machine\<close>: the locales \<open>event_machine\<close> and \<open>traced_machine\<close> of the tasks.
  \<^item> \<open>Scoring\<close>, \<open>Receptor\<close>, \<open>Embedding_Plugin\<close>, \<open>Attention\<close>, \<open>Outbound_Embeddings\<close>:
    \<^verbatim>\<open>src/src/attention/\<close>. The evaluation equals a declarative policy; a delivered message passed every
    veto receptor of the packs; the embeddings of an outbound message are chosen space by space.
  \<^item> \<open>Config_Model\<close>, \<open>Config_Ops\<close>: \<^verbatim>\<open>src/src/config.rs\<close>. What \<open>from_stored\<close> accepts is well formed; the
    files of a server stay in the directory its key names below \<open>servers/\<close>.
  \<^item> \<open>Retry\<close>: \<^verbatim>\<open>src/src/retry.rs\<close>. \<open>Runtime_Store\<close>: \<^verbatim>\<open>src/src/runtime_store.rs\<close>, with the locale
    \<open>dedupe\<close>: the store refines a view with the messages in progress and the last finished ones
    (\<open>dedupe_view\<close>), a message is taken once within the window, neither a crash nor a loss of power loses
    more than the last write, the cooldown follows its schedule. \<open>Hard_Failure\<close>:
    \<^verbatim>\<open>src/src/hard_failure.rs\<close>, which hooks a failure runs and how the throttle spaces the runs.
  \<^item> \<open>Sql_Table\<close> (the locale \<open>unique_table\<close> of an upsert, interpreted for six tables),
    \<open>Storage_Schema\<close>, \<open>Storage\<close>, \<open>Storage_Invariant\<close>, \<open>Storage_Properties\<close>, \<open>Storage_Delivered\<close>:
    \<^verbatim>\<open>src/src/storage.rs\<close>. Keys and references stay intact over all sequences of operations
    (\<open>storage_step\<close>), a message has one event and an event one message, a delivered wake stays
    delivered and is delivered by no other operation, the sink targets mirror the configuration.
  \<^item> \<open>Daemon_Status\<close>, \<open>Wake_Router\<close>, \<open>Wake_Router_Spec\<close>, \<open>Wake_Router_Properties\<close>: the status and the wake
    router of \<^verbatim>\<open>src/src/supervisor.rs\<close>. A calculus of specifications (\<open>run_spec\<close>) carries database and
    sent wakes through every part of the router.
  \<^item> \<open>Subspace_Identity\<close>, \<open>Subspace_Auth\<close>, \<open>Subspace_Client\<close>, \<open>Subspace_Client_Properties\<close>:
    \<^verbatim>\<open>src/src/subspace/\<close>. Identities survive, a session is granted for a signed challenge, a message is
    in flight once, an outbound message is answered once.
  \<^item> \<open>Gateway_Device\<close>, \<open>Gateway_Client\<close>, \<open>Gateway_Client_Properties\<close>: \<^verbatim>\<open>src/src/gateway/\<close>. Tokens belong
    to their device, a chat command is answered once and with success only when confirmed.
  \<^item> \<open>Setup\<close>, \<open>Setup_Properties\<close>: \<^verbatim>\<open>src/src/setup.rs\<close>. A setup leaves a server whose manager can start;
    a server has one manager.
  \<^item> \<open>Ipc\<close>, \<open>Ipc_Properties\<close>: \<^verbatim>\<open>src/src/ipc.rs\<close>, \<^verbatim>\<open>src/src/build_info.rs\<close>. The answer to a send request
    says what the managers were told and replied.
  \<^item> \<open>State_Lock\<close>, \<open>Launchd\<close>, \<open>Supervisor\<close>, \<open>Supervisor_Properties\<close>: \<^verbatim>\<open>src/src/state_lock.rs\<close>,
    \<^verbatim>\<open>src/src/launchd.rs\<close>, \<open>run_supervisor\<close> and \<open>run_ipc_server\<close>. The supervisor returns for a cause and
    with the right error, and stops after an interrupt.
  \<^item> \<open>Cli\<close>, \<open>Cli_Properties\<close>: \<^verbatim>\<open>src/src/main.rs\<close> and the client in \<^verbatim>\<open>src/src/ipc.rs\<close>. A running daemon
    owns its state directory; the evaluation command predicts the daemon.
  \<^item> \<open>Build_Script\<close>: \<^verbatim>\<open>src/build.rs\<close>. The commit the daemon reports is the one the script determined.
  \<^item> This theory: the path of a message from the server through the queue and the attention layer to
    the wake, of the wake to the gateway's confirmation, and of a send request from the socket through
    the manager to the server's confirmation. The last two take the runs of the tasks as given
    (\<open>answers_from\<close>, \<open>runs_behind\<close>): a command travels to the task with the number of its reply channel,
    and its sender receives what the task replied.

  \<^bold>\<open>How the code is represented.\<close> Structures are records and enumerations data types with the fields
  and constructors of the source; operations keep the names of the source where they are not taken in
  HOL. \<open>Result\<close> is a sum with the error text on the left. Machine words have their width; indices and
  counters that cannot overflow are \<open>nat\<close>. Code that is not in the repository is an argument: URL,
  TOML, JSON and timestamp codecs, cryptography, HTTP and WebSocket transport, the plugin process,
  clocks, random numbers and what the file system refuses. What a theorem needs of them is among its
  hypotheses, and its witness has a concrete instance.

  The gateway task, the server managers and the supervisor are state machines over the outcomes of
  their \<open>await\<close>s: an event is the branch that becomes ready, and an event that a state does not allow
  changes nothing, so that every list of events is a run. The code between two \<open>await\<close>s is one
  operation. A trace records what a task does to the outside, and the answers of the outside are
  functions of the position in it. The wake router is an operation on the queue it works off; what
  the gateway and the clock answer is a list of attempts, and a run whose list is used up is \<open>Blocked\<close>
  and claims nothing as processed. Every access to the database can fail (\<open>db_faults\<close>) and
  statements commit one by one, so that a failing operation keeps what it wrote. Setups exclude each other by the mutation lock and are one operation each; a
  request on the socket is one operation on a snapshot, as in the code. No definition uses fuel: all
  recursions follow the queue, the list of events or attempts, or the data. Capacities are those of
  the code (1000 queued wakes, 128 commands of a manager).

  \<^bold>\<open>What the theorems found.\<close> Embeddings of another dimension or of large norm pass a veto; a NaN score
  stops the router; two servers can share a key and with it their files; a refused gateway token is
  retried without delay; a connected gateway task swallows the shutdown; tokens of another device are
  relabelled; an identity with a separator in its name is lost; placeholders in the payload of a hook
  are expanded; the launchd loop watches the default socket whatever the configuration. Those
  with a theorem state it of the code as it is, for all inputs of the kind.

  \<^bold>\<open>Not modelled.\<close> The tracing subscriber and all log lines (\<^verbatim>\<open>src/src/logging.rs\<close> apart from the
  directory it creates, \<open>log_eval_attention_decision\<close>): they configure a library and have no effect on
  the state. The HTTP codec, socket and WebSocket transport, the argument parser and the pretty
  printing of the results: library code. \<open>mean_vector\<close> and the modules of tests: they are compiled for tests only. Real time is visible through the clocks only;
  that a timeout fires is an event.
\<close>

section \<open>From the server to the wake\<close>

text \<open>The embeddings of a message as the wake router passes them to the attention layer.\<close>

definition supplied_embeddings :: "WakeEnvelope \<Rightarrow> MessageEmbedding list option" where
  "supplied_embeddings item =
     (if we_sender_embeddings item = [] then None else Some (we_sender_embeddings item))"

text \<open>
  Every veto receptor of the packs on disk was compared with the message, in the space of the
  plugin, and stayed below its threshold.
\<close>

definition vetoes_passed :: "attention_env \<Rightarrow> AttentionConfig \<Rightarrow> MessageEmbedding list option \<Rightarrow> bool" where
  "vetoes_passed env cfg supplied \<longleftrightarrow>
     (\<exists>plugin defs.
        load_receptor_packs (env_home env) (env_parse_pack env) (env_fs env) (ac_local_pack_paths cfg) = Inr defs
      \<and> al_plugin (attention_new env cfg) = Some plugin
      \<and> (\<forall>d\<in>set defs. rd_class d = Veto \<longrightarrow>
           (\<exists>mv t vs. select_message_vector (attention_new env cfg) supplied
                        = Some (mv, eb_default_space_id plugin)
              \<and> rd_threshold d = Some t
              \<and> embed (env_plugin env) plugin [trim (rd_query d)] = Inr vs
              \<and> \<not> fge (cosine_similarity mv (last vs)) t)))"

text \<open>What the manager of a server has put into the wake queue and is still there.\<close>

lemma queued_by_manager:
  assumes start: "start_server_task sx now h ht status hooks = Inr s0"
    and item: "item \<in> set (mg_wake (server_run sx es s0))" "we_runtime item = sx_runtime_index sx"
  shows "\<exists>agent. SaEnqueue agent item \<in> set (mg_trace (server_run sx es s0)) \<and> admissible sx agent item"
proof -
  have "inbound_ok sx (server_run sx es s0)" using run_ok [OF start] by (simp add: manager_ok_def)
  moreover have "item \<in> set (outstanding sx (server_run sx es s0))" using item by (simp add: outstanding_def)
  ultimately show ?thesis unfolding inbound_ok_def enqueued_def by blast
qed

lemma delivered_item_passed:
  assumes "ar_deliver (evaluate_item item)" and "we_attention item = attention_new env cfg"
  shows "vetoes_passed env cfg (supplied_embeddings item)"
  using assms delivered_passed_vetoes [of env cfg "supplied_embeddings item"]
  by (simp add: vetoes_passed_def evaluate_item_def supplied_embeddings_def)

text \<open>
  Claim C2. From the server to the wake: when the wake router works off the queue that a run of a
  server manager and of the other managers has left, every wake it sends belongs to a message of the
  queue and an enabled wake sink; and if it is a message of that server, the manager enqueued it in
  this run, it was written by another agent than the one of the session, is not older than the
  configured floor, and passed every veto receptor of the packs the layer of the server was built from.
\<close>

theorem wake_from_server:
  assumes start: "start_server_task sx now h ht status hooks = Inr s0"
    and layer: "sx_attention sx = attention_new env cfg"
    and db: "db_ok (ro_db r)"
    and run: "process_wake_queue rv sd (map Message (mg_wake (server_run sx es s0))) r = (x, r')"
  shows "\<exists>run. ro_trace r' = ro_trace r @ run
    \<and> (\<forall>a\<in>set run. is_send a \<longrightarrow>
         (\<exists>item\<in>set (mg_wake (server_run sx es s0)). \<exists>sink\<in>set (wake_sinks (rv_sinks rv)).
            a = SendChat (effective_session_key rv item sink)
                  (render_inbound_wake (rv_fmt3 rv) item (evaluate_item item)) (wake_idempotency_key item sink)
            \<and> (we_runtime item = sx_runtime_index sx \<longrightarrow>
                 (\<exists>agent. SaEnqueue agent item \<in> set (mg_trace (server_run sx es s0)) \<and> admissible sx agent item)
                 \<and> vetoes_passed env cfg (supplied_embeddings item))))"
proof -
  let ?s = "server_run sx es s0"
  have "set (messages (map Message xs)) = set xs" for xs by (induction xs) simp_all
  with process_wake_queue_run [OF db run] obtain sends where
    sends: "ro_trace r' = ro_trace r @ sends" "\<forall>a\<in>set sends. is_send a \<longrightarrow> send_justified rv (set (mg_wake ?s)) (ro_db r) a"
    unfolding router_run_def by auto
  have own: "(\<exists>agent. SaEnqueue agent item \<in> set (mg_trace ?s) \<and> admissible sx agent item)
      \<and> vetoes_passed env cfg (supplied_embeddings item)"
    if item: "item \<in> set (mg_wake ?s)" "we_runtime item = sx_runtime_index sx" and "ar_deliver (evaluate_item item)" for item
  proof -
    from queued_by_manager [OF start item] obtain agent where
      agent: "SaEnqueue agent item \<in> set (mg_trace ?s)" "admissible sx agent item" by blast
    then have "we_attention item = attention_new env cfg"
      using layer by (auto simp: admissible_def inbound_envelope_def)
    from delivered_item_passed [OF that(3) this] agent show ?thesis by blast
  qed
  show ?thesis
  proof (intro exI conjI ballI impI)
    show "ro_trace r' = ro_trace r @ sends" by (rule sends(1))
    fix a
    assume "a \<in> set sends" "is_send a"
    with sends(2) own show "\<exists>item\<in>set (mg_wake ?s). \<exists>sink\<in>set (wake_sinks (rv_sinks rv)).
            a = SendChat (effective_session_key rv item sink)
                  (render_inbound_wake (rv_fmt3 rv) item (evaluate_item item)) (wake_idempotency_key item sink)
            \<and> (we_runtime item = sx_runtime_index sx \<longrightarrow>
                 (\<exists>agent. SaEnqueue agent item \<in> set (mg_trace ?s) \<and> admissible sx agent item)
                 \<and> vetoes_passed env cfg (supplied_embeddings item))"
      unfolding send_justified_def authorised_def by metis
  qed
qed

text \<open>A server that accepts the session and delivers one message.\<close>

definition demo_arrival :: json where
  "demo_arrival =
     JObj [(''topic'', JStr ''firehose''), (''event'', JStr ''new_message''),
       (''payload'', JObj [(''id'', JStr ''m1''), (''ts'', JStr ''2026''), (''agentId'', JStr ''bob''), (''text'', JStr ''hello''),
          (''embeddings'', JArr [JObj [(''space_id'', JStr ''s''), (''vector'', JArr [JNum (FFin 0), JNum (FFin 1)])]])])]"

definition demo_join_reply :: json where
  "demo_join_reply =
     JObj [(''event'', JStr ''phx_reply''), (''ref'', JStr []), (''payload'', JObj [(''status'', JStr ''ok'')])]"

definition demo_ack :: json where
  "demo_ack =
     JObj [(''topic'', JStr ''firehose''), (''event'', JStr ''phx_reply''), (''ref'', JStr []),
       (''payload'', JObj [(''status'', JStr ''ok''), (''response'', JObj [(''id'', JStr ''m'')])])]"

definition demo_live_env :: server_env where
  "demo_live_env =
     (let sx = demo_server_env ''/ids'' ''/s.json''
      in sx\<lparr>sx_attention := attention_new demo_env demo_config,
            sx_lib := demo_identity_lib\<lparr>
              il_parse_identity := (\<lambda>_. Inr \<lparr>if_name = ''me'', if_created_at = ''now'', if_public_key = demo_key,
                if_private_key = demo_key\<rparr>),
              il_parse_session := (\<lambda>_. Inr \<lparr>se_identity = ''me'', se_agent_id = demo_key,
                se_session_token = Some ''t'', se_session_expires_at = None\<rparr>)\<rparr>,
            sx_parse := (\<lambda>t. Inr (if t = ''join'' then demo_join_reply else if t = ''ack'' then demo_ack
              else demo_arrival))\<rparr>)"

definition demo_live_host :: host where
  "demo_live_host = demo_host\<lparr>ho_fs := (\<lambda>p. if p = ''/s.json'' \<or> p = ''/ids/me.json''
     then Some (RegularFile (Inr ''x'')) else None)\<rparr>"

definition demo_arrival_events :: "server_event list" where
  "demo_arrival_events =
     [SvOpenDone (Inr ()), SvIncoming (Received (MsgText ''join'')), SvIncoming (Received (MsgText ''msg''))]"

definition demo_session :: ActiveSession where
  "demo_session = ActiveCurrent \<lparr>se_identity = ''me'', se_agent_id = demo_key, se_session_token = Some ''t'',
       se_session_expires_at = None\<rparr> \<lparr>ni_name = ''me'', ni_public_key = demo_key, ni_signing_key = demo_key\<rparr>"

definition demo_started :: "server_task result" where
  "demo_started = start_server_task demo_live_env 0 demo_live_host (sw_http demo_setup_world)
     \<lparr>st_gateway_state = [], st_wake_session_key = [], st_servers = []\<rparr> (hooks_new [])"

lemma demo_live_fields:
  "sx_write demo_live_env = (\<lambda>_. Inr ())" "sx_uuid demo_live_env = (\<lambda>_. [])"
  "sx_parse demo_live_env = (\<lambda>t. Inr (if t = ''join'' then demo_join_reply else if t = ''ack'' then demo_ack
     else demo_arrival))"
  "rp_discard_before_ts (sx_replay demo_live_env) = None" "sv_runtime_path (sx_server demo_live_env) = ''/r.json''"
  "sx_attention demo_live_env = attention_new demo_env demo_config" "sx_runtime_index demo_live_env = 0"
  by (simp_all add: demo_live_env_def demo_server_env_def Let_def)

text \<open>The manager at an \<open>await\<close> before anything has arrived or been sent.\<close>

definition demo_waits :: "server_phase \<Rightarrow> server_task \<Rightarrow> bool" where
  "demo_waits p s \<longleftrightarrow>
     mg_phase s = p \<and> mg_session s = demo_session \<and> mg_wake s = [] \<and> \<not> mg_wake_closed s
     \<and> st_pending_ids (mg_runtime s) = {} \<and> st_recent_ids_set (mg_runtime s) = {}
     \<and> st_discard_before_ts (mg_runtime s) = None \<and> ho_write (mg_host s) = (\<lambda>_. Inr ())
     \<and> mg_rx s = [] \<and> \<not> mg_rx_closed s \<and> mg_pending s = [] \<and> (\<forall>c. SaAccept c \<notin> set (mg_trace s))"

lemmas demo_wait_simps = demo_waits_def mg_act_def update_server_state_def update_server_session_expires_at_def
  demo_live_fields

lemma demo_start: "\<exists>s. demo_started = Inr s \<and> demo_waits Opening s"
proof -
  have path: "path_join ''/ids'' ''me.json'' = ''/ids/me.json''" "file_stem ''/ids/me.json'' = Some ''me''"
    "length demo_key = 32" by code_simp+
  have "load_active demo_live_env demo_live_host = Inr (Some demo_session)"
    by (simp add: load_active_def demo_session_def load_session_record_def identity_load_def identity_of_file_def
        demo_live_env_def demo_live_host_def demo_server_env_def fs_exists_def fs_read_def path
        ensure_matches_agent_id_def demo_identity_lib_def bail_if_def ok_or_def Let_def)
  then show ?thesis
    by (simp add: demo_started_def start_server_task_def runtime_load_def server_loop_top_def reconnect_cooldown_def
        begin_session_def open_connection_def empty_store_def default_storm_def demo_live_host_def fs_exists_def
        demo_session_def demo_host_def demo_wait_simps)
qed

lemma demo_open: "demo_waits Opening s \<Longrightarrow> demo_waits (AwaitJoin []) (run_server_manager demo_live_env (SvOpenDone (Inr ())) s)"
  by (simp add: send_join_def push_frame_def Let_def demo_wait_simps)

lemma demo_join:
  "demo_waits (AwaitJoin []) s \<Longrightarrow> demo_waits Joined (run_server_manager demo_live_env (SvIncoming (Received (MsgText ''join''))) s)"
  by (simp add: on_join_incoming_def server_ws_text_def on_join_frame_def demo_join_reply_def json_get_def json_str_at_def
      json_as_str_def go_live_def flush_runtime_def clear_reconnect_storm_def Let_def demo_wait_simps)

abbreviation demo_arrived :: WakeEnvelope where
  "demo_arrived \<equiv> inbound_envelope demo_live_env demo_arrival (the (json_get ''payload'' demo_arrival))"

lemma demo_arrives:
  assumes "demo_waits Joined s"
  shows "mg_wake (run_server_manager demo_live_env (SvIncoming (Received (MsgText ''msg''))) s) = [demo_arrived]"
proof -
  have "we_author_id demo_arrived = ''bob''" "we_message_id demo_arrived = ''m1''" "we_timestamp demo_arrived = ''2026''"
    by (simp_all add: inbound_envelope_def demo_arrival_def json_get_def json_str_at_def json_as_str_def)
  moreover have "active_agent_id demo_session \<noteq> ''bob''" by (simp add: demo_session_def demo_key_def numeral_eq_Suc)
  moreover have "json_get ''payload'' demo_arrival \<noteq> None" "json_get ''topic'' demo_arrival = Some (JStr ''firehose'')"
    "json_str_at ''event'' demo_arrival = Some ''new_message''"
    by (simp_all add: demo_arrival_def json_get_def json_str_at_def json_as_str_def)
  ultimately show ?thesis
    using assms
    by (auto simp: on_live_incoming_def server_ws_text_def on_live_frame_def on_inbound_message_def should_enqueue_def
        timestamp_before_floor_def enqueue_wake_def wake_capacity_def Let_def demo_wait_simps)
qed

lemma demo_queue:
  "\<exists>s. demo_started = Inr s \<and> mg_wake (server_run demo_live_env demo_arrival_events s) = [demo_arrived]"
proof -
  from demo_start obtain s where s: "demo_started = Inr s" "demo_waits Opening s" by blast
  from demo_arrives [OF demo_join [OF demo_open [OF s(2)]]]
  have "mg_wake (server_run demo_live_env demo_arrival_events s) = [demo_arrived]"
    by (simp add: server_run_def demo_arrival_events_def del: run_server_manager.simps)
  with s(1) show ?thesis by blast
qed

definition demo_wake_run :: "flow result \<times> router" where
  "demo_wake_run = process_wake_queue (demo_router_env None) False [Message demo_arrived]
     (demo_router [demo_attempt (Inr ())])"

lemma demo_arrived_eq:
  "demo_arrived =
     \<lparr>we_server = ''https://a.b'', we_server_key = ''https_a_b_443'', we_message_id = ''m1'', we_timestamp = ''2026'',
      we_inbound_event = ''new_message'', we_author_id = ''bob'', we_author_name = ''bob'', we_text = ''hello'',
      we_sender_embeddings = [\<lparr>me_space_id = ''s'', me_vector = [FFin 0, FFin 1]\<rparr>],
      we_attention = attention_new demo_env demo_config, we_runtime = 0, we_wake_session_key_override = None\<rparr>"
proof -
  have "parse_message_embeddings (the (json_get ''payload'' demo_arrival)) =
      [\<lparr>me_space_id = ''s'', me_vector = [FFin 0, FFin 1]\<rparr>]" by code_simp
  moreover have "sv_base_url (sx_server demo_live_env) = ''https://a.b''" "sv_server_key (sx_server demo_live_env) = ''https_a_b_443''"
    "sv_wake_session_key (sx_server demo_live_env) = None"
    by (simp_all add: demo_live_env_def demo_server_env_def Let_def)
  ultimately show ?thesis
    by (simp add: inbound_envelope_def demo_live_fields)
      (simp add: demo_arrival_def json_get_def json_str_at_def json_as_str_def)
qed

lemma demo_wake_sent: "fst demo_wake_run = Inr Stop \<and> list_ex is_send (ro_trace (snd demo_wake_run))"
  unfolding demo_wake_run_def demo_arrived_eq demo_layer by code_simp

theorem wake_from_server_witness:
  "fst demo_wake_run = Inr Stop \<and> list_ex is_send (ro_trace (snd demo_wake_run))
   \<and> (\<exists>s agent. demo_started = Inr s
        \<and> SaEnqueue agent demo_arrived \<in> set (mg_trace (server_run demo_live_env demo_arrival_events s)))
   \<and> vetoes_passed demo_env demo_config (supplied_embeddings demo_arrived)"
proof -
  from demo_queue obtain s where s: "demo_started = Inr s"
    and queue: "mg_wake (server_run demo_live_env demo_arrival_events s) = [demo_arrived]" by blast
  have run: "process_wake_queue (demo_router_env None) False
      (map Message (mg_wake (server_run demo_live_env demo_arrival_events s))) (demo_router [demo_attempt (Inr ())])
      = (fst demo_wake_run, snd demo_wake_run)"
    by (simp add: queue demo_wake_run_def)
  have trace: "ro_trace (demo_router attempts) = []" for attempts by (simp add: demo_router_def)
  from demo_wake_sent obtain a where a: "a \<in> set (ro_trace (snd demo_wake_run))" "is_send a"
    by (auto simp: list_ex_iff)
  have own: "we_runtime demo_arrived = sx_runtime_index demo_live_env" by (simp add: inbound_envelope_def)
  from wake_from_server [OF s [unfolded demo_started_def] demo_live_fields(6) demo_router_ok run] a own
  have "(\<exists>agent. SaEnqueue agent demo_arrived \<in> set (mg_trace (server_run demo_live_env demo_arrival_events s)))
      \<and> vetoes_passed demo_env demo_config (supplied_embeddings demo_arrived)"
    by (simp add: queue trace) blast
  with demo_wake_sent s show ?thesis by blast
qed

section \<open>From the wake to the gateway\<close>

text \<open>
  The gateway task behind a trace of the router: what \<open>send_chat\<close> returned is what the task replied on
  the channel of the command, and the command it accepted with that channel is the one the router sent.
\<close>

definition answers_from :: "gateway_task \<Rightarrow> action list \<Rightarrow> bool" where
  "answers_from g trace \<longleftrightarrow>
     (\<forall>key. ChatAnswer key (Inr ()) \<in> set trace \<longrightarrow>
        (\<exists>n. GaReply n (Inr ()) \<in> set (gt_trace g)
           \<and> (\<forall>c. GaAccept c \<in> set (gt_trace g) \<and> ch_reply c = n \<longrightarrow>
                ch_idempotency_key c = key
                \<and> SendChat (ch_session_key c) (ch_message c) key \<in> set trace)))"

text \<open>The gateway has confirmed the request frame of a wake with this key that the router sent.\<close>

definition wake_confirmed :: "gateway_task \<Rightarrow> action list \<Rightarrow> string \<Rightarrow> bool" where
  "wake_confirmed g trace key \<longleftrightarrow>
     (\<exists>c q res. ch_idempotency_key c = key \<and> SendChat (ch_session_key c) (ch_message c) key \<in> set trace
        \<and> subseq [GaSend (OutChat (chat_frame q c)), GaReceive res] (gt_trace g) \<and> rf_ok res \<and> rf_id res = q)"

lemma subseq_member: "subseq xs ys \<Longrightarrow> x \<in> set xs \<Longrightarrow> x \<in> set ys"
  using list_emb_set [of "(=)" xs ys x] by auto

lemma answer_confirmed:
  assumes g: "g = gateway_run gv es (start_gateway_task gv h status hooks)"
    and behind: "answers_from g trace" and answer: "ChatAnswer key (Inr ()) \<in> set trace"
  shows "wake_confirmed g trace key"
proof -
  from behind answer obtain n where n: "GaReply n (Inr ()) \<in> set (gt_trace g)"
    and cmd: "\<And>c. GaAccept c \<in> set (gt_trace g) \<Longrightarrow> ch_reply c = n \<Longrightarrow>
        ch_idempotency_key c = key \<and> SendChat (ch_session_key c) (ch_message c) key \<in> set trace"
    unfolding answers_from_def by blast
  from reply_confirmed [of n gv es h status hooks] n obtain c q res where
    seq: "subseq [GaAccept c, GaSend (OutChat (chat_frame q c)), GaReceive res, GaReply n (Inr ())] (gt_trace g)"
    and ok: "ch_reply c = n" "rf_ok res" "rf_id res = q"
    unfolding g by blast
  have "subseq [GaSend (OutChat (chat_frame q c)), GaReceive res]
      [GaAccept c, GaSend (OutChat (chat_frame q c)), GaReceive res, GaReply n (Inr ())]" by simp
  from subseq_order.trans [OF this seq] subseq_member [OF seq] cmd [of c] ok show ?thesis
    unfolding wake_confirmed_def by auto
qed

text \<open>
  Claim C3. From the wake to the gateway: the messages that the router marks as processed are a
  prefix of the queue, and for each of them that the attention layer delivers and every enabled wake
  sink the wake was recorded as delivered before the run, or the gateway has confirmed it: the router
  sent it, the gateway task sent a request frame with its session, text and idempotency key, and the
  gateway answered that frame with \<open>ok\<close>. A router that stops before a shutdown has marked the whole queue.
\<close>

theorem processed_means_confirmed:
  assumes db: "db_ok (ro_db r)" and keys: "distinct (map sk_key (rv_sinks rv))"
    and run: "process_wake_queue rv sd inputs r = (x, r')"
    and gateway: "g = gateway_run gv es (start_gateway_task gv h status hooks)"
    and behind: "answers_from g (ro_trace r')"
  shows "\<exists>finished waiting. messages inputs = finished @ waiting
    \<and> ro_stores r' = fold mark_item finished (ro_stores r)
    \<and> (\<forall>item\<in>set finished. ar_deliver (evaluate_item item) \<longrightarrow>
         (\<forall>sink\<in>set (wake_sinks (rv_sinks rv)).
            rv_store rv \<noteq> None \<and> wake_delivered item (sk_key sink) (ro_db r)
            \<or> wake_confirmed g (ro_trace r') (wake_idempotency_key item sink)))
    \<and> (x = Inr Stop \<and> \<not> sd \<and> ShutdownSignal \<notin> set inputs \<longrightarrow> waiting = [])"
  using finished_accepted [OF db run keys] answer_confirmed [OF gateway behind] unfolding accepted_sink by blast

text \<open>The gateway of the example confirms the wake of the example.\<close>

definition demo_wake_chat :: chat_command where
  "demo_wake_chat = \<lparr>ch_session_key = ''agent'', ch_message = demo_wake_text, ch_idempotency_key = ''k:m1:wake'',
     ch_reply = 7\<rparr>"

definition demo_gateway :: gateway_task where
  "demo_gateway = gateway_run (demo_gateway_env None) (demo_live @ [Submit demo_wake_chat, TakeCommand, say ''ok''])
     (start_gateway_task (demo_gateway_env None) demo_host demo_status (hooks_new []))"

lemma demo_gateway_trace:
  "GaReply 7 (Inr ()) \<in> set (gt_trace demo_gateway)"
  "GaAccept c \<in> set (gt_trace demo_gateway) \<Longrightarrow> c = demo_wake_chat"
  by (simp_all add: demo_gateway_def demo_wake_chat_def demo_gateway_eval)

lemma demo_result_trace:
  "ChatAnswer key (Inr ()) \<in> set (ro_trace (snd demo_result)) \<Longrightarrow> key = ''k:m1:wake''"
  "SendChat ''agent'' demo_wake_text ''k:m1:wake'' \<in> set (ro_trace (snd demo_result))"
proof -
  have "list_all (\<lambda>a. case a of ChatAnswer k _ \<Rightarrow> k = ''k:m1:wake'' | _ \<Rightarrow> True) (ro_trace (snd demo_result))"
    using demo_result_runs by (simp add: demo_runs_def case_prod_beta)
  then show "ChatAnswer key (Inr ()) \<in> set (ro_trace (snd demo_result)) \<Longrightarrow> key = ''k:m1:wake''"
    by (fastforce simp: list_all_iff)
  have "list_ex (\<lambda>a. case a of SendChat s t k \<Rightarrow> s = ''agent'' \<and> t = demo_wake_text \<and> k = ''k:m1:wake'' | _ \<Rightarrow> False)
      (ro_trace (snd demo_result))"
    using demo_result_runs by (simp add: demo_runs_def case_prod_beta)
  then obtain a where a: "a \<in> set (ro_trace (snd demo_result))"
    "case a of SendChat s t k \<Rightarrow> s = ''agent'' \<and> t = demo_wake_text \<and> k = ''k:m1:wake'' | _ \<Rightarrow> False"
    by (auto simp: list_ex_iff)
  from a(2) have "a = SendChat ''agent'' demo_wake_text ''k:m1:wake''" by (simp split: action.split_asm)
  with a(1) show "SendChat ''agent'' demo_wake_text ''k:m1:wake'' \<in> set (ro_trace (snd demo_result))" by simp
qed

theorem processed_means_confirmed_witness:
  "ro_stores (snd demo_result) = mark_item demo_item (\<lambda>_. demo_store)
   \<and> wake_confirmed demo_gateway (ro_trace (snd demo_result)) ''k:m1:wake''"
proof -
  let ?rv = "demo_router_env (Some demo_delivery_store)"
  have env: "set (wake_sinks (rv_sinks ?rv)) = {demo_wake_sink}" "sk_key demo_wake_sink = ''wake''"
    "distinct (map sk_key (rv_sinks ?rv))" "wake_idempotency_key demo_item demo_wake_sink = ''k:m1:wake''"
    by (simp_all add: demo_router_env_def wake_sinks_def demo_wake_sink_def wake_idempotency_key_def demo_envelope_def)
  have deliver: "ar_deliver (evaluate_item demo_item)" by code_simp
  have behind: "answers_from demo_gateway (ro_trace (snd demo_result))"
    unfolding answers_from_def
    using demo_gateway_trace demo_result_trace by (fastforce simp: demo_wake_chat_def)
  from processed_means_confirmed [OF demo_router_ok env(3) demo_result_run demo_gateway_def behind]
  show ?thesis using deliver demo_not_delivered by (auto simp: env demo_router_def)
qed

section \<open>From the request to the server\<close>

text \<open>A run of the manager with the environment \<open>sx\<close>.\<close>

definition manager_run :: "server_env \<Rightarrow> server_task \<Rightarrow> bool" where
  "manager_run sx s \<longleftrightarrow>
     (\<exists>now h ht status hooks s0 es. start_server_task sx now h ht status hooks = Inr s0 \<and> s = server_run sx es s0)"

text \<open>
  The runs behind a log of commands: the manager with a handle runs for its server, the command it
  accepts on the channel \<open>n\<close> is the \<open>n\<close>-th of the log, and what the sender receives on the channel is
  what the manager replied.
\<close>

definition runs_behind :: "(server_manager \<Rightarrow> server_env) \<Rightarrow> (server_manager \<Rightarrow> server_task) \<Rightarrow> (nat \<Rightarrow> send_fate)
    \<Rightarrow> send_log \<Rightarrow> bool" where
  "runs_behind sx s fate calls \<longleftrightarrow>
     (\<forall>n<length calls. case calls ! n of (m, cmd) \<Rightarrow>
        manager_run (sx m) (s m) \<and> sx_server (sx m) = mn_server m
        \<and> (\<forall>c. SaAccept c \<in> set (mg_trace (s m)) \<and> sm_reply c = n \<longrightarrow> c = cmd)
        \<and> (\<forall>res. fate n = Replied res \<longrightarrow> SaReply n res \<in> set (mg_trace (s m))))"

text \<open>The frame with the message was pushed and then the server answered it with \<open>ok\<close>.\<close>

definition server_confirmed :: "server_env \<Rightarrow> server_action list \<Rightarrow> send_command \<Rightarrow> OutboundSendResult \<Rightarrow> bool" where
  "server_confirmed sx t c res \<longleftrightarrow>
     (\<exists>q parsed payload.
        subseq [SaPush (PushFrame (post_frame sx q (os_idempotency_key res) c)), SaReceive parsed] t
        \<and> json_str_at ''ref'' parsed = Some q \<and> json_get ''payload'' parsed = Some payload
        \<and> json_str_at ''status'' payload = Some ''ok'')"

lemma replied_confirmed:
  assumes behind: "runs_behind sx s fate calls" and n: "n < length calls" "calls ! n = (m, cmd)"
    and fate: "send_message (fate n) = Inr res"
  shows "server_confirmed (sx m) (mg_trace (s m)) cmd res" and "sx_server (sx m) = mn_server m"
proof -
  from behind n have run: "manager_run (sx m) (s m)"
    and accepted: "\<And>c. SaAccept c \<in> set (mg_trace (s m)) \<Longrightarrow> sm_reply c = n \<Longrightarrow> c = cmd"
    and told: "\<And>res. fate n = Replied res \<Longrightarrow> SaReply n res \<in> set (mg_trace (s m))"
    unfolding runs_behind_def by fastforce+
  from behind n show "sx_server (sx m) = mn_server m" unfolding runs_behind_def by fastforce
  have "fate n = Replied (Inr res)" using fate by (cases "fate n") simp_all
  with told have reply: "SaReply n (Inr res) \<in> set (mg_trace (s m))" by blast
  from run have "outbound_ok (sx m) (s m)" unfolding manager_run_def using run_ok by (fastforce simp: manager_ok_def)
  with reply have "acknowledged (sx m) (mg_trace (s m)) n res" by (simp add: outbound_ok_def)
  then obtain c q parsed payload where
    seq: "subseq [SaAccept c, SaPush (PushFrame (post_frame (sx m) q (os_idempotency_key res) c)), SaReceive parsed,
        SaReply n (Inr res)] (mg_trace (s m))"
    and c: "sm_reply c = n" and ok: "json_str_at ''ref'' parsed = Some q" "json_get ''payload'' parsed = Some payload"
      "json_str_at ''status'' payload = Some ''ok''"
    unfolding acknowledged_def by blast
  from subseq_member [OF seq] c accepted have "c = cmd" by simp
  have "subseq [SaPush (PushFrame (post_frame (sx m) q (os_idempotency_key res) c)), SaReceive parsed]
      [SaAccept c, SaPush (PushFrame (post_frame (sx m) q (os_idempotency_key res) c)), SaReceive parsed, SaReply n (Inr res)]"
    by simp
  from subseq_order.trans [OF this seq] ok show "server_confirmed (sx m) (mg_trace (s m)) cmd res"
    unfolding server_confirmed_def \<open>c = cmd\<close> by blast
qed

text \<open>The result for a target is backed by a confirmed exchange of its manager.\<close>

definition target_confirmed :: "(server_manager \<Rightarrow> server_env) \<Rightarrow> (server_manager \<Rightarrow> server_task) \<Rightarrow> SendRequest
    \<Rightarrow> string \<Rightarrow> ServerSendResultEnvelope \<Rightarrow> bool" where
  "target_confirmed sx s payload url er \<longleftrightarrow>
     (\<exists>m c res. sv_base_url (sx_server (sx m)) = url \<and> sm_text c = sd_text payload
        \<and> sm_idempotency_key c = sd_idempotency_key payload
        \<and> oe_embeddings (sm_embedding_request c) = sd_embeddings payload
        \<and> server_confirmed (sx m) (mg_trace (s m)) c res
        \<and> er = envelope url (sd_idempotency_key payload) (Inr res))"

lemma sent_to_confirmed:
  assumes to: "sent_to fate payload targets calls calls' results" and all: "list_all er_sent results"
    and behind: "runs_behind sx s fate calls'"
  shows "list_all2 (target_confirmed sx s payload) targets results"
proof -
  from to obtain new where log: "calls' = calls @ new"
    and urls: "map (\<lambda>(m, c). sv_base_url (mn_server m)) new = targets"
    and cmds: "\<forall>(m, c)\<in>set new. sm_text c = sd_text payload \<and> sm_idempotency_key c = sd_idempotency_key payload
             \<and> oe_embeddings (sm_embedding_request c) = sd_embeddings payload"
    and results: "results = map (\<lambda>(n, t). envelope t (sd_idempotency_key payload) (send_message (fate n)))
            (enumerate (length calls) targets)"
    unfolding sent_to_def by fast
  have len: "length new = length targets" using urls by auto
  have "target_confirmed sx s payload (targets ! i) (results ! i)" if i: "i < length targets" for i
  proof -
    let ?n = "length calls + i"
    obtain m c where mc: "new ! i = (m, c)" by fastforce
    have result: "results ! i = envelope (targets ! i) (sd_idempotency_key payload) (send_message (fate ?n))"
      using i by (simp add: results nth_enumerate_eq)
    then obtain res where res: "send_message (fate ?n) = Inr res"
      using all i by (cases "send_message (fate ?n)") (auto simp: list_all_length results)
    have at: "?n < length calls'" "calls' ! ?n = (m, c)" using i len mc by (simp_all add: log nth_append)
    note conf = replied_confirmed [OF behind at res]
    have "(m, c) \<in> set new" using i len mc by (metis nth_mem)
    with cmds have "sm_text c = sd_text payload" "sm_idempotency_key c = sd_idempotency_key payload"
      "oe_embeddings (sm_embedding_request c) = sd_embeddings payload" by auto
    moreover have "sv_base_url (mn_server m) = targets ! i" using urls i len mc by (auto simp: list_eq_iff_nth_eq)
    ultimately show ?thesis using conf result res unfolding target_confirmed_def by metis
  qed
  then show ?thesis by (simp add: list_all2_conv_all_nth results)
qed

text \<open>
  Claim C4. From the request to the server: when the daemon answers a send request by 200, every
  target (the given server, or all live ones) has confirmed the message. Its manager pushed a frame
  with the text, the embeddings and the key of the request, the server answered that frame with
  \<open>ok\<close>, and the result in the answer has the server, the message id and the key of that exchange.
\<close>

theorem sent_means_confirmed:
  assumes ok: "managers_ok (iw_live w)"
    and handles: "\<forall>url. server_state url (lv_status (iw_live w)) = Some ''live'' \<longrightarrow>
      (\<exists>m. omap_get (lv_server_handles (iw_live w)) url = Some m)"
    and request: "ir_method req = ''POST''" "ir_path req = ''/v1/messages''" "ir_body req = Inr bytes"
    and parsed: "ix_parse_send ix bytes = Inr payload"
    and run: "handle_request ix req w = (Inr response, w')"
    and answer: "rs_body response = BodySend b"
    and behind: "runs_behind sx s (ix_fate ix) (iw_log w')"
  shows "\<exists>targets. targets_of (config_at (ix_setup ix) (iw_host w)) (lv_status (iw_live w)) (sd_server payload) targets
    \<and> list_all2 (target_confirmed sx s payload) targets (sb_results b)"
proof -
  from send_answer [OF ok handles request parsed run] answer obtain targets where
    all: "list_all er_sent (sb_results b)"
    and targets: "targets_of (config_at (ix_setup ix) (iw_host w)) (lv_status (iw_live w)) (sd_server payload) targets"
    and to: "sent_to (ix_fate ix) payload targets (iw_log w) (iw_log w') (sb_results b)"
    by auto
  from targets sent_to_confirmed [OF to all behind] show ?thesis by blast
qed

text \<open>The server of the example confirms a message that was sent to it.\<close>

definition demo_command :: send_command where
  "demo_command = \<lparr>sm_text = ''hi'', sm_idempotency_key = Some ''k'',
     sm_embedding_request = \<lparr>oe_embeddings = [], oe_generate_for_spaces = [],
       oe_generated_embeddings_override_supplied = False\<rparr>, sm_reply = 0\<rparr>"

definition demo_sending_events :: "server_event list" where
  "demo_sending_events =
     [SvOpenDone (Inr ()), SvIncoming (Received (MsgText ''join'')), SvSubmit demo_command, SvTakeCommand,
      SvIncoming (Received (MsgText ''ack''))]"

lemma demo_sends:
  assumes "demo_waits Joined s"
  defines "s' \<equiv> run_server_manager demo_live_env (SvIncoming (Received (MsgText ''ack'')))
    (run_server_manager demo_live_env SvTakeCommand (run_server_manager demo_live_env (SvSubmit demo_command) s))"
  shows "SaReply 0 (Inr \<lparr>os_server = ''https://a.b'', os_subspace_message_id = Some ''m'', os_idempotency_key = ''k''\<rparr>)
      \<in> set (mg_trace s')"
    and "SaAccept c \<in> set (mg_trace s') \<Longrightarrow> c = demo_command"
proof -
  have url: "sv_base_url (sx_server demo_live_env) = ''https://a.b''"
    by (simp add: demo_live_env_def demo_server_env_def Let_def)
  have cmd: "sm_reply demo_command = 0" "sm_idempotency_key demo_command = Some ''k''"
    by (simp_all add: demo_command_def)
  show "SaReply 0 (Inr \<lparr>os_server = ''https://a.b'', os_subspace_message_id = Some ''m'', os_idempotency_key = ''k''\<rparr>)
      \<in> set (mg_trace s')" "SaAccept c \<in> set (mg_trace s') \<Longrightarrow> c = demo_command"
    using assms(1) unfolding s'_def
    by (auto simp: can_send_def task_over_def on_server_command_def on_send_command_def push_frame_def
        insert_pending_send_def fail_sends_def on_live_incoming_def server_ws_text_def on_live_frame_def
        on_phx_reply_def demo_ack_def json_get_def json_str_at_def json_as_str_def reply_message_id_def
        Let_def url cmd demo_wait_simps)
qed

lemma demo_handle:
  "\<exists>m. omap_get (lv_server_handles demo_live_state) ''https://a.b'' = Some m \<and> mn_server m = sx_server demo_live_env"
  by (simp add: demo_live_state_def spawn_server_manager_def Let_def omap_get_def demo_live_env_def demo_server_env_def)

theorem sent_means_confirmed_witness:
  "\<exists>response w' b s targets. handle_request demo_ipc_env
       \<lparr>ir_method = ''POST'', ir_path = ''/v1/messages'', ir_body = Inr ''hi''\<rparr> demo_ipc_world = (Inr response, w')
     \<and> rs_body response = BodySend b \<and> targets \<noteq> []
     \<and> list_all2 (target_confirmed (\<lambda>_. demo_live_env) (\<lambda>_. s)
          \<lparr>sd_text = ''hi'', sd_idempotency_key = Some ''k'', sd_server = Some ''https://a.b'', sd_embeddings = [],
           sd_generate_for_spaces = [], sd_generated_embeddings_override_supplied = False\<rparr>) targets (sb_results b)"
proof -
  let ?req = "\<lparr>ir_method = ''POST'', ir_path = ''/v1/messages'', ir_body = Inr ''hi''\<rparr>"
  from demo_start obtain s0 where s0: "demo_started = Inr s0" "demo_waits Opening s0" by blast
  let ?s = "server_run demo_live_env demo_sending_events s0"
  note sends = demo_sends [OF demo_join [OF demo_open [OF s0(2)]]]
  have steps: "?s = run_server_manager demo_live_env (SvIncoming (Received (MsgText ''ack'')))
    (run_server_manager demo_live_env SvTakeCommand (run_server_manager demo_live_env (SvSubmit demo_command)
      (run_server_manager demo_live_env (SvIncoming (Received (MsgText ''join'')))
        (run_server_manager demo_live_env (SvOpenDone (Inr ())) s0))))"
    by (simp add: server_run_def demo_sending_events_def del: run_server_manager.simps)
  from demo_handle obtain m where m: "omap_get (lv_server_handles demo_live_state) ''https://a.b'' = Some m"
    "mn_server m = sx_server demo_live_env" by blast
  have trim: "trim ''hi'' = ''hi''" by code_simp
  have ce: "config_at demo_setup_env demo_host = demo_config_env"
    by (simp add: config_at_def demo_setup_env_def demo_config_env_def demo_host_def)
  obtain response w' b where run: "handle_request demo_ipc_env ?req demo_ipc_world = (Inr response, w')"
    and body: "rs_body response = BodySend b" and log: "iw_log w' = [(m, demo_command)]"
    using m(1)
    by (auto simp: handle_request_def handle_messages_def demo_ipc_env_def demo_ipc_world_def trim
        validate_embedding_request_def router_send_def router_targets_def ce demo_canonical
        demo_live_state_facts(2) Let_def json_response_def demo_command_def)
  have managed: "manager_run demo_live_env ?s" using s0(1) unfolding manager_run_def demo_started_def by blast
  have behind: "runs_behind (\<lambda>_. demo_live_env) (\<lambda>_. ?s) (ix_fate demo_ipc_env) (iw_log w')"
    using sends [folded steps] m(2) managed by (auto simp: runs_behind_def log demo_ipc_env_def)
  have handles: "\<forall>url. server_state url (lv_status (iw_live demo_ipc_world)) = Some ''live'' \<longrightarrow>
      (\<exists>m. omap_get (lv_server_handles (iw_live demo_ipc_world)) url = Some m)"
    using demo_live_state_facts by (auto simp: demo_ipc_world_def)
  have live: "managers_ok (iw_live demo_ipc_world)" using demo_live_state_facts(1) by (simp add: demo_ipc_world_def)
  have parsed: "ix_parse_send demo_ipc_env ''hi'' = Inr \<lparr>sd_text = ''hi'', sd_idempotency_key = Some ''k'',
      sd_server = Some ''https://a.b'', sd_embeddings = [], sd_generate_for_spaces = [],
      sd_generated_embeddings_override_supplied = False\<rparr>" by (simp add: demo_ipc_env_def)
  from sent_means_confirmed [OF live handles _ _ _ parsed run body behind] run body
  show ?thesis by (simp add: targets_of_def) blast
qed

end
